theory Spec2Isabelle
  imports Complex_Main
begin

section \<open>Values\<close>

text \<open>
  A script number is a 64-bit float. The model keeps the special values apart and
  represents a finite double by its exact rational value; \<open>Fin 0\<close> is the positive
  zero. Rounding is the host's business and only enters through the host operations
  taken as parameters further below.
\<close>

datatype jsnum = NaN | PosInf | NegInf | NegZero | Fin rat

text \<open>
  Runtime values. Arrays, plain objects, script functions and the global receiver live
  in the heap and are referred to by address (\<open>Ref\<close>); host functions and host objects
  are opaque handles.
\<close>

datatype Value =
    Undefined
  | Null
  | Bool bool
  | Number jsnum
  | String string
  | Ref nat
  | HostFunction nat
  | HostObject nat

section \<open>Constant pool (opcodes.js)\<close>

text \<open>
  The function record built by the compiler (\<open>funcInfo\<close>): name, parameter names,
  start address and the compile-time scope snapshot of \<open>captureClosure\<close>.
\<close>

record funcInfo =
  fi_name :: "string option"
  fi_params :: "string list"
  fi_startAddress :: nat
  fi_closureScope :: "(string \<times> nat) list"

text \<open>
  What the compiler puts into the pool: primitives, regular-expression objects
  (pattern and flags) and function records.
\<close>

datatype const =
    CUndefined
  | CNull
  | CBool bool
  | CNumber jsnum
  | CString string
  | CRegExp string string
  | CFunction funcInfo

record ConstantPool =
  constants :: "const list"
  indices :: "(const \<times> nat) list"

definition emptyPool :: ConstantPool where
  "emptyPool = \<lparr> constants = [], indices = [] \<rparr>"

text \<open>
  \<open>typeof value === 'object' && value !== null && value.startAddress !== undefined\<close>:
  of the pooled constants only the function records carry a \<open>startAddress\<close>.
\<close>

fun isFunctionConst :: "const \<Rightarrow> bool" where
  "isFunctionConst (CFunction f) = True"
| "isFunctionConst c = False"

text \<open>
  The key under which \<open>add\<close> files a constant:
  \<open>typeof value === 'object' ? JSON.stringify(value) : value\<close>.
  \<open>typeof null\<close> is \<open>'object'\<close> and \<open>JSON.stringify(null)\<close> is the string \<open>null\<close>;
  a regular-expression object has no enumerable property, so its JSON text is \<open>{}\<close>.
  The host map compares keys by SameValueZero: \<open>NaN\<close> equals itself and the negative
  zero is stored as the positive one.
\<close>

fun constKey :: "const \<Rightarrow> const" where
  "constKey CNull = CString ''null''"
| "constKey (CRegExp p f) = CString ''{}''"
| "constKey (CNumber NegZero) = CNumber (Fin 0)"
| "constKey c = c"

definition ConstantPool_add :: "ConstantPool \<Rightarrow> const \<Rightarrow> nat \<times> ConstantPool" where
  "ConstantPool_add pool v =
     (if isFunctionConst v then
        (length (constants pool), pool\<lparr> constants := constants pool @ [v] \<rparr>)
      else
        (case map_of (indices pool) (constKey v) of
           Some i \<Rightarrow> (i, pool)
         | None \<Rightarrow>
             (length (constants pool),
              pool\<lparr> constants := constants pool @ [v],
                    indices := indices pool @ [(constKey v, length (constants pool))] \<rparr>)))"

datatype pool_error = IndexOutOfRange int

definition ConstantPool_get :: "ConstantPool \<Rightarrow> int \<Rightarrow> pool_error + const" where
  "ConstantPool_get pool i =
     (if i < 0 \<or> i \<ge> int (length (constants pool)) then Inl (IndexOutOfRange i)
      else Inr (constants pool ! nat i))"

section \<open>Bytecode (opcodes.js)\<close>

datatype opcode =
    PUSH | POP | DUP
  | ADD | SUB | MUL | DIV | MOD | NEG
  | SHL | SHR | USHR
  | BIT_AND | BIT_OR | BIT_XOR | BIT_NOT
  | EQ | NE | LT | LE | GT | GE
  | AND | OR | NOT | TYPEOF
  | LOAD | STORE | DECLARE
  | JMP | JIF | JNF
  | CALL | CALL_METHOD | RET | ENTER | LEAVE
  | NEW_OBJ | GET_PROP | SET_PROP | NEW
  | NEW_ARR | GET_ELEM | SET_ELEM
  | THROW | TRY | CATCH | FINALLY | END_TRY
  | BREAK | CONTINUE
  | NOP | HALT

text \<open>
  An instruction is an opcode and an operand; \<open>None\<close> is the \<open>null\<close> operand of an
  instruction built without one. The debug record only feeds messages and is left out.
\<close>

record Instruction =
  opcode :: opcode
  operand :: "int option"

section \<open>Heap, frames and machine state (vm.js)\<close>

text \<open>
  A script function at run time: the fields of the compiler's record plus the two
  fields the machine adds, the closure map \<open>_closureEnv\<close> (absent until a capture) and
  the identifier \<open>_closureId\<close>. The closure map is created by the machine for one
  function object and never handed to another, so it is kept inside the record: two
  function objects at different addresses own different maps.
\<close>

record UserFunction =
  name :: "string option"
  params :: "string list"
  startAddress :: nat
  closureScope :: "(string \<times> nat) list"
  closureEnv :: "(string \<times> Value) list option"
  closureId :: "string option"

text \<open>
  Heap objects: arrays, plain objects (insertion-ordered property tables), function
  records and the global receiver, a proxy over an empty target object whose property
  table is the argument of \<open>GlobalThis\<close>. An address is an index into the heap; an
  allocation appends.
\<close>

datatype hobj =
    Arr "Value list"
  | Obj "(string \<times> Value) list"
  | Fun UserFunction
  | GlobalThis "(string \<times> Value) list"

type_synonym heap = "hobj list"
type_synonym env = "(string \<times> Value) list"

text \<open>Insertion-ordered maps: a new key goes to the end, an old key keeps its place.\<close>

fun mapSet :: "('k \<times> 'v) list \<Rightarrow> 'k \<Rightarrow> 'v \<Rightarrow> ('k \<times> 'v) list" where
  "mapSet [] k v = [(k, v)]"
| "mapSet ((k', v') # m) k v = (if k' = k then (k, v) # m else (k', v') # mapSet m k v)"

definition mapHas :: "('k \<times> 'v) list \<Rightarrow> 'k \<Rightarrow> bool" where
  "mapHas m k = (map_of m k \<noteq> None)"

text \<open>\<open>Map.get\<close>, with \<open>undefined\<close> for a missing key.\<close>

definition mapGet :: "env \<Rightarrow> string \<Rightarrow> Value" where
  "mapGet m k = (case map_of m k of Some v \<Rightarrow> v | None \<Rightarrow> Undefined)"

record CallFrame =
  returnAddress :: int
  locals :: env
  isConstructorCall :: bool
  newInstance :: Value
  currentFunction :: Value

text \<open>
  The bytecode container: the instructions and the constants. The compiler fills it
  with a constant pool; the machine runs it with the constants as runtime values (a
  pooled function record is then a reference to its heap object).
\<close>

record 'p ByteCode =
  instructions :: "Instruction list"
  constantPool :: "'p"

type_synonym LoadedByteCode = "Value list ByteCode"

datatype error =
    ConstantIndexOutOfRange "int option"
  | IllTypedOperand
  | StackEmptyPop
  | StackEmptyDup
  | DivisionByZero
  | UndefinedVariable string
  | NotCallable Value
  | NoCallToReturn
  | CannotReadProperty Value Value
  | CannotSetProperty Value Value
  | GetElemNotArray Value
  | SetElemNotArray Value
  | SetElemStackUnderflow nat
  | ConstructFailed
  | UnimplementedOpcode opcode
  | BreakStatementError
  | ContinueStatementError
  | Thrown Value
  | BudgetExceeded nat
  | HostException

text \<open>
  The stack keeps its top at the head of the list, the call stack its innermost frame
  at the head.
\<close>

record VirtualMachine =
  stack :: "Value list"
  callStack :: "CallFrame list"
  globals :: env
  pc :: int
  bytecode :: LoadedByteCode
  instructionCount :: nat
  maxInstructions :: nat
  builtins :: env
  closureIdCounter :: nat
  heap :: heap

text \<open>
  The host language under the machine. The machine hands these operations to the host
  as they are; the model takes them as parameters:
  the operators on arbitrary operands (\<open>a + b\<close>, \<open>a / b\<close>, \<open>-a\<close>, ...), calling and
  constructing with a host function, property reads and writes on receivers that are
  not plain script objects, the conversion of a value to a property key, the
  properties every plain object inherits, \<open>bind\<close>, the array test on a host object,
  the own enumerable properties of a host object, and the host's regular expressions.
\<close>

record host =
  h_operator :: "opcode \<Rightarrow> heap \<Rightarrow> Value list \<Rightarrow> error + Value"
  h_apply :: "Value \<Rightarrow> Value \<Rightarrow> Value list \<Rightarrow> heap \<times> env \<Rightarrow> error + (Value \<times> heap \<times> env)"
  h_construct :: "Value \<Rightarrow> Value list \<Rightarrow> heap \<times> env \<Rightarrow> error + (Value \<times> heap \<times> env)"
  h_get :: "heap \<times> env \<Rightarrow> Value \<Rightarrow> Value \<Rightarrow> error + Value"
  h_has :: "heap \<times> env \<Rightarrow> Value \<Rightarrow> string \<Rightarrow> bool"
  h_set :: "heap \<times> env \<Rightarrow> Value \<Rightarrow> Value \<Rightarrow> Value \<Rightarrow> error + (heap \<times> env)"
  h_toKey :: "Value \<Rightarrow> string"
  h_objectProto :: "string \<Rightarrow> Value option"
  h_bind :: "Value \<Rightarrow> Value \<Rightarrow> Value"
  h_isArray :: "nat \<Rightarrow> bool"
  h_entries :: "nat \<Rightarrow> (string \<times> Value) list"
  h_elements :: "nat \<Rightarrow> Value list"
  h_newError :: "Value \<Rightarrow> Value"
  h_regExp :: "string \<Rightarrow> string \<Rightarrow> Value"

section \<open>Host-language notions used by the machine\<close>

text \<open>Truthiness, as tested by \<open>if (condition)\<close>, \<open>!a\<close>, \<open>a && b\<close>.\<close>

fun truthy :: "Value \<Rightarrow> bool" where
  "truthy Undefined = False"
| "truthy Null = False"
| "truthy (Bool b) = b"
| "truthy (Number n) = (n \<noteq> NaN \<and> n \<noteq> Fin 0 \<and> n \<noteq> NegZero)"
| "truthy (String s) = (s \<noteq> [])"
| "truthy v = True"

text \<open>Strict equality \<open>===\<close>: numbers by float comparison, everything else by identity.\<close>

fun numEq :: "jsnum \<Rightarrow> jsnum \<Rightarrow> bool" where
  "numEq NaN b = False"
| "numEq a NaN = False"
| "numEq NegZero (Fin r) = (r = 0)"
| "numEq (Fin r) NegZero = (r = 0)"
| "numEq a b = (a = b)"

fun strictEq :: "Value \<Rightarrow> Value \<Rightarrow> bool" where
  "strictEq (Number a) (Number b) = numEq a b"
| "strictEq a b = (a = b)"

text \<open>
  The host's \<open>typeof\<close>. A script function is a plain record to the host, so its
  \<open>typeof\<close> is \<open>object\<close>; only host functions are \<open>function\<close>.
\<close>

fun typeof :: "Value \<Rightarrow> string" where
  "typeof Undefined = ''undefined''"
| "typeof Null = ''object''"
| "typeof (Bool b) = ''boolean''"
| "typeof (Number n) = ''number''"
| "typeof (String s) = ''string''"
| "typeof (Ref a) = ''object''"
| "typeof (HostFunction f) = ''function''"
| "typeof (HostObject x) = ''object''"

definition heapGet :: "heap \<Rightarrow> nat \<Rightarrow> hobj option" where
  "heapGet hp a = (if a < length hp then Some (hp ! a) else None)"

definition alloc :: "heap \<Rightarrow> hobj \<Rightarrow> Value \<times> heap" where
  "alloc hp ob = (Ref (length hp), hp @ [ob])"

text \<open>
  The function record behind a value, if the value is an object with a defined
  \<open>startAddress\<close>: in the model, a reference to a function record.
\<close>

definition functionOf :: "heap \<Rightarrow> Value \<Rightarrow> UserFunction option" where
  "functionOf hp v =
     (case v of
        Ref a \<Rightarrow> (case heapGet hp a of Some (Fun f) \<Rightarrow> Some f | _ \<Rightarrow> None)
      | _ \<Rightarrow> None)"

text \<open>\<open>Array.isArray\<close>.\<close>

definition isArray :: "host \<Rightarrow> heap \<Rightarrow> Value \<Rightarrow> bool" where
  "isArray h hp v =
     (case v of
        Ref a \<Rightarrow> (case heapGet hp a of Some (Arr xs) \<Rightarrow> True | _ \<Rightarrow> False)
      | HostObject x \<Rightarrow> h_isArray h x
      | _ \<Rightarrow> False)"

text \<open>Decimal rendering of a natural number, as in \<open>`closure_${n}`\<close>.\<close>

definition digitChar :: "nat \<Rightarrow> char" where
  "digitChar d = ''0123456789'' ! d"

fun showNat :: "nat \<Rightarrow> string" where
  "showNat n = (if n < 10 then [digitChar n] else showNat (n div 10) @ [digitChar (n mod 10)])"

declare showNat.simps [simp del]

text \<open>An array index: a number that is a natural number.\<close>

definition arrayIndex :: "Value \<Rightarrow> nat option" where
  "arrayIndex v =
     (case v of
        Number (Fin r) \<Rightarrow> (if 0 \<le> r \<and> of_int \<lfloor>r\<rfloor> = r then Some (nat \<lfloor>r\<rfloor>) else None)
      | Number NegZero \<Rightarrow> Some 0
      | _ \<Rightarrow> None)"

definition arrayRead :: "Value list \<Rightarrow> nat \<Rightarrow> Value" where
  "arrayRead xs i = (if i < length xs then xs ! i else Undefined)"

text \<open>A write past the end grows the array; the skipped slots read as \<open>undefined\<close>.\<close>

definition arrayWrite :: "Value list \<Rightarrow> nat \<Rightarrow> Value \<Rightarrow> Value list" where
  "arrayWrite xs i v =
     (if i < length xs then xs[i := v] else xs @ replicate (i - length xs) Undefined @ [v])"

definition propertyKey :: "host \<Rightarrow> Value \<Rightarrow> string" where
  "propertyKey h k = (case k of String s \<Rightarrow> s | _ \<Rightarrow> h_toKey h k)"

text \<open>\<open>name in obj\<close> and \<open>obj[name]\<close> for a plain object with property table \<open>ps\<close>.\<close>

definition plainIn :: "host \<Rightarrow> env \<Rightarrow> string \<Rightarrow> bool" where
  "plainIn h ps n = (mapHas ps n \<or> h_objectProto h n \<noteq> None)"

definition plainRead :: "host \<Rightarrow> env \<Rightarrow> string \<Rightarrow> Value" where
  "plainRead h ps n =
     (case map_of ps n of
        Some v \<Rightarrow> v
      | None \<Rightarrow> (case h_objectProto h n of Some v \<Rightarrow> v | None \<Rightarrow> Undefined))"

text \<open>
  \<open>Object.entries\<close> of a value whose \<open>typeof\<close> is \<open>object\<close>. The entries of a function
  record hold no host function and are not listed.
\<close>

definition objectEntries :: "host \<Rightarrow> heap \<Rightarrow> Value \<Rightarrow> env" where
  "objectEntries h hp v =
     (case v of
        Ref a \<Rightarrow>
          (case heapGet hp a of
             Some (Obj ps) \<Rightarrow> ps
           | Some (GlobalThis ps) \<Rightarrow> ps
           | Some (Arr xs) \<Rightarrow> zip (map showNat [0..<length xs]) xs
           | _ \<Rightarrow> [])
      | HostObject x \<Rightarrow> h_entries h x
      | _ \<Rightarrow> [])"

section \<open>Instructions (vm.js)\<close>

type_synonym outcome = "error + (Value \<times> VirtualMachine)"

text \<open>\<open>Array.prototype.pop\<close>: an empty stack yields \<open>undefined\<close> and stays empty.\<close>

definition pop :: "Value list \<Rightarrow> Value \<times> Value list" where
  "pop st = (case st of [] \<Rightarrow> (Undefined, []) | v # r \<Rightarrow> (v, r))"

fun popN :: "nat \<Rightarrow> Value list \<Rightarrow> Value list \<times> Value list" where
  "popN 0 st = ([], st)"
| "popN (Suc n) st =
     (case pop st of (v, r) \<Rightarrow> (case popN n r of (vs, r') \<Rightarrow> (v # vs, r')))"

text \<open>
  \<open>this.bytecode.constantPool.get(operand)\<close>. With the \<open>null\<close> operand the range test
  compares \<open>0\<close> with the pool size and the read of a non-empty pool yields \<open>undefined\<close>.
\<close>

definition getConstant :: "VirtualMachine \<Rightarrow> int option \<Rightarrow> error + Value" where
  "getConstant vm k =
     (let cs = constantPool (bytecode vm) in
      case k of
        None \<Rightarrow> (if cs = [] then Inl (ConstantIndexOutOfRange None) else Inr Undefined)
      | Some i \<Rightarrow>
          (if i < 0 \<or> i \<ge> int (length cs) then Inl (ConstantIndexOutOfRange (Some i))
           else Inr (cs ! nat i)))"

text \<open>
  The loop bound \<open>i < argCount\<close> of the call instructions, for the counts that are
  numbers, \<open>undefined\<close>, \<open>null\<close> or booleans; an infinite count never stops popping and
  other operands go through the host's conversions, which the model does not follow.
\<close>

definition argCountOf :: "Value \<Rightarrow> nat option" where
  "argCountOf v =
     (case v of
        Number (Fin r) \<Rightarrow> Some (nat \<lceil>r\<rceil>)
      | Number PosInf \<Rightarrow> None
      | Number n \<Rightarrow> Some 0
      | Undefined \<Rightarrow> Some 0
      | Null \<Rightarrow> Some 0
      | Bool b \<Rightarrow> Some (if b then 1 else 0)
      | _ \<Rightarrow> None)"

definition executePush :: "VirtualMachine \<Rightarrow> int option \<Rightarrow> outcome" where
  "executePush vm k =
     (case getConstant vm k of
        Inl e \<Rightarrow> Inl e
      | Inr v \<Rightarrow> Inr (v, vm\<lparr> stack := v # stack vm \<rparr>))"

definition executePop :: "VirtualMachine \<Rightarrow> outcome" where
  "executePop vm =
     (case stack vm of
        [] \<Rightarrow> Inl StackEmptyPop
      | v # r \<Rightarrow> Inr (v, vm\<lparr> stack := r \<rparr>))"

definition executeDup :: "VirtualMachine \<Rightarrow> outcome" where
  "executeDup vm =
     (case stack vm of
        [] \<Rightarrow> Inl StackEmptyDup
      | v # r \<Rightarrow> Inr (v, vm\<lparr> stack := v # v # r \<rparr>))"

text \<open>
  The two-operand instructions whose body is one host operator
  (\<open>ADD SUB MUL MOD SHL SHR USHR BIT_AND BIT_OR BIT_XOR LT LE GT GE\<close>): pop \<open>b\<close>, pop \<open>a\<close>,
  push \<open>a op b\<close>.
\<close>

definition executeBinary :: "host \<Rightarrow> opcode \<Rightarrow> VirtualMachine \<Rightarrow> outcome" where
  "executeBinary h oc vm =
     (case pop (stack vm) of (b, st1) \<Rightarrow>
      case pop st1 of (a, st2) \<Rightarrow>
      case h_operator h oc (heap vm) [a, b] of
        Inl e \<Rightarrow> Inl e
      | Inr r \<Rightarrow> Inr (r, vm\<lparr> stack := r # st2 \<rparr>))"

text \<open>The one-operand instructions \<open>NEG\<close> and \<open>BIT_NOT\<close>.\<close>

definition executeUnary :: "host \<Rightarrow> opcode \<Rightarrow> VirtualMachine \<Rightarrow> outcome" where
  "executeUnary h oc vm =
     (case pop (stack vm) of (a, st1) \<Rightarrow>
      case h_operator h oc (heap vm) [a] of
        Inl e \<Rightarrow> Inl e
      | Inr r \<Rightarrow> Inr (r, vm\<lparr> stack := r # st1 \<rparr>))"

text \<open>\<open>DIV\<close>: the divisor is tested with \<open>b === 0\<close> before the host divides.\<close>

definition executeDiv :: "host \<Rightarrow> VirtualMachine \<Rightarrow> outcome" where
  "executeDiv h vm =
     (case pop (stack vm) of (b, st1) \<Rightarrow>
      case pop st1 of (a, st2) \<Rightarrow>
      if strictEq b (Number (Fin 0)) then Inl DivisionByZero
      else
        (case h_operator h DIV (heap vm) [a, b] of
           Inl e \<Rightarrow> Inl e
         | Inr r \<Rightarrow> Inr (r, vm\<lparr> stack := r # st2 \<rparr>)))"

definition executeEq :: "VirtualMachine \<Rightarrow> outcome" where
  "executeEq vm =
     (case pop (stack vm) of (b, st1) \<Rightarrow>
      case pop st1 of (a, st2) \<Rightarrow>
      Inr (Bool (strictEq a b), vm\<lparr> stack := Bool (strictEq a b) # st2 \<rparr>))"

definition executeNe :: "VirtualMachine \<Rightarrow> outcome" where
  "executeNe vm =
     (case pop (stack vm) of (b, st1) \<Rightarrow>
      case pop st1 of (a, st2) \<Rightarrow>
      Inr (Bool (\<not> strictEq a b), vm\<lparr> stack := Bool (\<not> strictEq a b) # st2 \<rparr>))"

definition executeAnd :: "VirtualMachine \<Rightarrow> outcome" where
  "executeAnd vm =
     (case pop (stack vm) of (b, st1) \<Rightarrow>
      case pop st1 of (a, st2) \<Rightarrow>
      let r = (if truthy a then b else a) in
      Inr (r, vm\<lparr> stack := r # st2 \<rparr>))"

definition executeOr :: "VirtualMachine \<Rightarrow> outcome" where
  "executeOr vm =
     (case pop (stack vm) of (b, st1) \<Rightarrow>
      case pop st1 of (a, st2) \<Rightarrow>
      let r = (if truthy a then a else b) in
      Inr (r, vm\<lparr> stack := r # st2 \<rparr>))"

definition executeNot :: "VirtualMachine \<Rightarrow> outcome" where
  "executeNot vm =
     (case pop (stack vm) of (a, st1) \<Rightarrow>
      Inr (Bool (\<not> truthy a), vm\<lparr> stack := Bool (\<not> truthy a) # st1 \<rparr>))"

definition executeTypeof :: "host \<Rightarrow> VirtualMachine \<Rightarrow> outcome" where
  "executeTypeof h vm =
     (case pop (stack vm) of (v, st1) \<Rightarrow>
      let typeString =
        (if v = Null then ''object''
         else if isArray h (heap vm) v then ''object''
         else if typeof v = ''function'' then ''function''
         else if typeof v = ''object'' \<and> functionOf (heap vm) v \<noteq> None then ''function''
         else typeof v)
      in Inr (String typeString, vm\<lparr> stack := String typeString # st1 \<rparr>))"

subsection \<open>Variables\<close>

text \<open>The closure map of the function a frame is running, if it has one.\<close>

definition frameClosure :: "heap \<Rightarrow> CallFrame \<Rightarrow> env option" where
  "frameClosure hp fr =
     (case functionOf hp (currentFunction fr) of
        Some f \<Rightarrow> closureEnv f
      | None \<Rightarrow> None)"

text \<open>The first frame, from the innermost outward, whose locals have the name.\<close>

fun frameLookup :: "CallFrame list \<Rightarrow> string \<Rightarrow> Value option" where
  "frameLookup [] n = None"
| "frameLookup (fr # frs) n =
     (case map_of (locals fr) n of Some v \<Rightarrow> Some v | None \<Rightarrow> frameLookup frs n)"

text \<open>
  The host read \<open>object[key]\<close>, followed by the model where the receiver is a script
  array indexed by a number, a plain object, or the global receiver (whose \<open>get\<close> trap
  falls back to the globals for a name the target does not have).
\<close>

definition readProperty :: "host \<Rightarrow> VirtualMachine \<Rightarrow> Value \<Rightarrow> Value \<Rightarrow> error + Value" where
  "readProperty h vm object key =
     (case object of
        Ref a \<Rightarrow>
          (case heapGet (heap vm) a of
             Some (Arr xs) \<Rightarrow>
               (case arrayIndex key of
                  Some i \<Rightarrow> Inr (arrayRead xs i)
                | None \<Rightarrow> h_get h (heap vm, globals vm) object key)
           | Some (Obj ps) \<Rightarrow> Inr (plainRead h ps (propertyKey h key))
           | Some (GlobalThis ps) \<Rightarrow>
               (if plainIn h ps (propertyKey h key) then Inr (plainRead h ps (propertyKey h key))
                else Inr (mapGet (globals vm) (propertyKey h key)))
           | _ \<Rightarrow> h_get h (heap vm, globals vm) object key)
      | _ \<Rightarrow> h_get h (heap vm, globals vm) object key)"

text \<open>
  \<open>name in object\<close>. The proxy has no \<open>has\<close> trap, so on the global receiver the
  question goes to its target.
\<close>

definition hasProperty :: "host \<Rightarrow> VirtualMachine \<Rightarrow> Value \<Rightarrow> string \<Rightarrow> bool" where
  "hasProperty h vm object n =
     (case object of
        Ref a \<Rightarrow>
          (case heapGet (heap vm) a of
             Some (Obj ps) \<Rightarrow> plainIn h ps n
           | Some (GlobalThis ps) \<Rightarrow> plainIn h ps n
           | _ \<Rightarrow> h_has h (heap vm, globals vm) object n)
      | _ \<Rightarrow> h_has h (heap vm, globals vm) object n)"

text \<open>
  Step 4 of \<open>LOAD\<close>: the global receiver, if it is an object, is asked \<open>name in this\<close>
  and then read.
\<close>

definition thisLookup :: "host \<Rightarrow> VirtualMachine \<Rightarrow> string \<Rightarrow> error + Value option" where
  "thisLookup h vm n =
     (let g = mapGet (globals vm) ''this'' in
      if truthy g \<and> typeof g = ''object'' \<and> hasProperty h vm g n
      then map_sum id Some (readProperty h vm g (String n))
      else Inr None)"

definition executeLoad :: "host \<Rightarrow> VirtualMachine \<Rightarrow> int option \<Rightarrow> outcome" where
  "executeLoad h vm k =
     (case getConstant vm k of
        Inl e \<Rightarrow> Inl e
      | Inr (String varName) \<Rightarrow>
          (case (case callStack vm of
                   [] \<Rightarrow> None
                 | fr # frs \<Rightarrow>
                     (case (case frameClosure (heap vm) fr of
                              Some cl \<Rightarrow> map_of cl varName
                            | None \<Rightarrow> None) of
                        Some v \<Rightarrow> Some v
                      | None \<Rightarrow> frameLookup (fr # frs) varName)) of
             Some v \<Rightarrow> Inr (v, vm\<lparr> stack := v # stack vm \<rparr>)
           | None \<Rightarrow>
               (case map_of (globals vm) varName of
                  Some v \<Rightarrow> Inr (v, vm\<lparr> stack := v # stack vm \<rparr>)
                | None \<Rightarrow>
                    (case thisLookup h vm varName of
                       Inl e \<Rightarrow> Inl e
                     | Inr (Some v) \<Rightarrow> Inr (v, vm\<lparr> stack := v # stack vm \<rparr>)
                     | Inr None \<Rightarrow> Inl (UndefinedVariable varName))))
      | Inr other \<Rightarrow> Inl IllTypedOperand)"

text \<open>Update the first frame, from the innermost outward, whose locals have the name.\<close>

fun frameStore :: "CallFrame list \<Rightarrow> string \<Rightarrow> Value \<Rightarrow> CallFrame list option" where
  "frameStore [] n v = None"
| "frameStore (fr # frs) n v =
     (if mapHas (locals fr) n then Some (fr\<lparr> locals := mapSet (locals fr) n v \<rparr> # frs)
      else map_option (\<lambda>frs'. fr # frs') (frameStore frs n v))"

definition setClosureEnv :: "heap \<Rightarrow> Value \<Rightarrow> env \<Rightarrow> heap" where
  "setClosureEnv hp fv cl =
     (case fv of
        Ref a \<Rightarrow>
          (case heapGet hp a of
             Some (Fun f) \<Rightarrow> hp[a := Fun (f\<lparr> closureEnv := Some cl \<rparr>)]
           | _ \<Rightarrow> hp)
      | _ \<Rightarrow> hp)"

definition executeStore :: "VirtualMachine \<Rightarrow> int option \<Rightarrow> outcome" where
  "executeStore vm k =
     (case getConstant vm k of
        Inl e \<Rightarrow> Inl e
      | Inr (String varName) \<Rightarrow>
          (case pop (stack vm) of (v, st1) \<Rightarrow>
           case callStack vm of
             [] \<Rightarrow> Inr (v, vm\<lparr> stack := st1, globals := mapSet (globals vm) varName v \<rparr>)
           | fr # frs \<Rightarrow>
               (case (case frameClosure (heap vm) fr of
                        Some cl \<Rightarrow> (if mapHas cl varName then Some cl else None)
                      | None \<Rightarrow> None) of
                  Some cl \<Rightarrow>
                    Inr (v, vm\<lparr> stack := st1,
                                 heap := setClosureEnv (heap vm) (currentFunction fr)
                                           (mapSet cl varName v) \<rparr>)
                | None \<Rightarrow>
                    (case frameStore (fr # frs) varName v of
                       Some frs' \<Rightarrow> Inr (v, vm\<lparr> stack := st1, callStack := frs' \<rparr>)
                     | None \<Rightarrow>
                         Inr (v, vm\<lparr> stack := st1,
                                      globals := mapSet (globals vm) varName v \<rparr>))))
      | Inr other \<Rightarrow> Inl IllTypedOperand)"

subsection \<open>Closure capture\<close>

text \<open>
  \<open>createClosureEnvironment\<close>: all locals of the declaring frame except \<open>this\<close> and
  \<open>arguments\<close>, then, without overwriting, the locals of the outer frames from the
  inside out, then the globals that are not built-in names.
\<close>

definition captureFrame :: "env \<Rightarrow> env \<Rightarrow> env" where
  "captureFrame cl entries =
     foldl (\<lambda>c (n, v). if n \<noteq> ''this'' \<and> n \<noteq> ''arguments'' then mapSet c n v else c)
       cl entries"

definition captureOuter :: "env \<Rightarrow> env \<Rightarrow> env" where
  "captureOuter cl entries =
     foldl (\<lambda>c (n, v).
              if \<not> mapHas c n \<and> n \<noteq> ''this'' \<and> n \<noteq> ''arguments'' then mapSet c n v else c)
       cl entries"

definition captureGlobals :: "env \<Rightarrow> env \<Rightarrow> env \<Rightarrow> env" where
  "captureGlobals bs cl entries =
     foldl (\<lambda>c (n, v). if \<not> mapHas c n \<and> \<not> mapHas bs n then mapSet c n v else c)
       cl entries"

definition createClosureEnvironment ::
    "VirtualMachine \<Rightarrow> UserFunction \<Rightarrow> CallFrame \<Rightarrow> env" where
  "createClosureEnvironment vm f fr =
     (let c0 = (case closureEnv f of Some c \<Rightarrow> c | None \<Rightarrow> []);
          c1 = captureFrame c0 (locals fr);
          c2 = foldl (\<lambda>c outer. captureOuter c (locals outer)) c1 (tl (callStack vm))
      in captureGlobals (builtins vm) c2 (globals vm))"

text \<open>
  \<open>createClosureEnvironmentFromGlobal\<close>: the globals that are neither built-in names
  nor \<open>this\<close>.
\<close>

definition createClosureEnvironmentFromGlobal :: "VirtualMachine \<Rightarrow> UserFunction \<Rightarrow> env" where
  "createClosureEnvironmentFromGlobal vm f =
     foldl (\<lambda>c (n, v). if \<not> mapHas (builtins vm) n \<and> n \<noteq> ''this'' then mapSet c n v else c)
       (case closureEnv f of Some c \<Rightarrow> c | None \<Rightarrow> [])
       (globals vm)"

definition isFunctionParameter :: "UserFunction \<Rightarrow> string \<Rightarrow> bool" where
  "isFunctionParameter f n = (n \<in> set (params f))"

definition isBuiltinOrGlobalFunction :: "VirtualMachine \<Rightarrow> string \<Rightarrow> bool" where
  "isBuiltinOrGlobalFunction vm n =
     (mapHas (builtins vm) n \<or> typeof (mapGet (globals vm) n) = ''function'')"

definition isFunctionObject :: "heap \<Rightarrow> Value \<Rightarrow> bool" where
  "isFunctionObject hp v = (functionOf hp v \<noteq> None)"

text \<open>
  \<open>deepCopyValue\<close>: primitives, function records and host functions are returned as
  they are; an array is copied into a new array, any other object into a new plain
  object with the same own properties.
\<close>

definition deepCopyValue :: "host \<Rightarrow> heap \<Rightarrow> Value \<Rightarrow> Value \<times> heap" where
  "deepCopyValue h hp v =
     (case v of
        Ref a \<Rightarrow>
          (case heapGet hp a of
             Some (Fun f) \<Rightarrow> (v, hp)
           | Some (Arr xs) \<Rightarrow> alloc hp (Arr xs)
           | Some (Obj ps) \<Rightarrow> alloc hp (Obj ps)
           | Some (GlobalThis ps) \<Rightarrow> alloc hp (Obj ps)
           | None \<Rightarrow> (v, hp))
      | HostObject x \<Rightarrow>
          (if h_isArray h x then alloc hp (Arr (h_elements h x))
           else alloc hp (Obj (h_entries h x)))
      | _ \<Rightarrow> (v, hp))"

text \<open>
  The loop of \<open>createIndependentClosureEnvironment\<close> over the locals of the returning
  frame, threading the new closure map and the heap.
\<close>

fun captureLocals ::
    "host \<Rightarrow> VirtualMachine \<Rightarrow> UserFunction \<Rightarrow> env \<Rightarrow> env \<Rightarrow> heap \<Rightarrow> env \<times> heap" where
  "captureLocals h vm f [] cl hp = (cl, hp)"
| "captureLocals h vm f ((n, v) # rest) cl hp =
     (if n = ''this'' \<or> n = ''arguments'' \<or> isFunctionParameter f n
         \<or> isBuiltinOrGlobalFunction vm n \<or> isFunctionObject hp v
      then captureLocals h vm f rest cl hp
      else
        (case deepCopyValue h hp v of (copied, hp') \<Rightarrow>
           captureLocals h vm f rest (mapSet cl n copied) hp'))"

definition generateUniqueClosureId :: "nat \<Rightarrow> string" where
  "generateUniqueClosureId counter = ''closure_'' @ showNat (Suc counter)"

subsection \<open>Declarations and jumps\<close>

definition executeDeclare :: "VirtualMachine \<Rightarrow> int option \<Rightarrow> outcome" where
  "executeDeclare vm k =
     (case getConstant vm k of
        Inl e \<Rightarrow> Inl e
      | Inr (String varName) \<Rightarrow>
          (case pop (stack vm) of (v, st1) \<Rightarrow>
           case callStack vm of
             fr # frs \<Rightarrow>
               (let fr' = fr\<lparr> locals := mapSet (locals fr) varName v \<rparr>;
                    vm1 = vm\<lparr> stack := st1, callStack := fr' # frs \<rparr>
                in if v = Null then Inl HostException
                   else
                     (case functionOf (heap vm) v of
                        Some f \<Rightarrow>
                          (if closureEnv f = None
                           then Inr (v, vm1\<lparr> heap := setClosureEnv (heap vm) v
                                                      (createClosureEnvironment vm1 f fr') \<rparr>)
                           else Inr (v, vm1))
                      | None \<Rightarrow> Inr (v, vm1)))
           | [] \<Rightarrow>
               (let vm1 = vm\<lparr> stack := st1, globals := mapSet (globals vm) varName v \<rparr>
                in if v = Null then Inl HostException
                   else
                     (case functionOf (heap vm) v of
                        Some f \<Rightarrow>
                          (if closureEnv f = None
                           then Inr (v, vm1\<lparr> heap := setClosureEnv (heap vm) v
                                                      (createClosureEnvironmentFromGlobal vm1 f) \<rparr>)
                           else Inr (v, vm1))
                      | None \<Rightarrow> Inr (v, vm1))))
      | Inr other \<Rightarrow> Inl IllTypedOperand)"

text \<open>
  A jump sets the program counter to \<open>operand - 1\<close>, the loop adds one; the \<open>null\<close>
  operand counts as \<open>0\<close>.
\<close>

definition jumpTarget :: "int option \<Rightarrow> int" where
  "jumpTarget k = (case k of Some t \<Rightarrow> t - 1 | None \<Rightarrow> - 1)"

definition executeJmp :: "VirtualMachine \<Rightarrow> int option \<Rightarrow> outcome" where
  "executeJmp vm k = Inr (Undefined, vm\<lparr> pc := jumpTarget k \<rparr>)"

definition executeJif :: "VirtualMachine \<Rightarrow> int option \<Rightarrow> outcome" where
  "executeJif vm k =
     (case pop (stack vm) of (condition, st1) \<Rightarrow>
      if truthy condition then Inr (Undefined, vm\<lparr> stack := st1, pc := jumpTarget k \<rparr>)
      else Inr (Undefined, vm\<lparr> stack := st1 \<rparr>))"

definition executeJnf :: "VirtualMachine \<Rightarrow> int option \<Rightarrow> outcome" where
  "executeJnf vm k =
     (case pop (stack vm) of (condition, st1) \<Rightarrow>
      if \<not> truthy condition then Inr (Undefined, vm\<lparr> stack := st1, pc := jumpTarget k \<rparr>)
      else Inr (Undefined, vm\<lparr> stack := st1 \<rparr>))"

subsection \<open>Calls and returns\<close>

text \<open>Parameters become locals; a missing argument is \<open>undefined\<close>.\<close>

fun bindParams :: "string list \<Rightarrow> Value list \<Rightarrow> env \<Rightarrow> env" where
  "bindParams [] args ls = ls"
| "bindParams (p # ps) [] ls = bindParams ps [] (mapSet ls p Undefined)"
| "bindParams (p # ps) (a # as) ls = bindParams ps as (mapSet ls p a)"

text \<open>
  \<open>hoistSiblingFunctionsForIIFE\<close>: the host functions among the own properties of the
  global receiver become locals, unless the name is taken.
\<close>

definition hoistSiblingFunctionsForIIFE :: "host \<Rightarrow> VirtualMachine \<Rightarrow> env \<Rightarrow> env" where
  "hoistSiblingFunctionsForIIFE h vm ls =
     (let g = mapGet (globals vm) ''this'' in
      if truthy g \<and> typeof g = ''object'' then
        foldl (\<lambda>l (n, v). if typeof v = ''function'' \<and> \<not> mapHas l n then mapSet l n v else l)
          ls (objectEntries h (heap vm) g)
      else ls)"

definition executeCall :: "host \<Rightarrow> VirtualMachine \<Rightarrow> int option \<Rightarrow> outcome" where
  "executeCall h vm k =
     (case getConstant vm k of
        Inl e \<Rightarrow> Inl e
      | Inr c \<Rightarrow>
          (case argCountOf c of
             None \<Rightarrow> Inl IllTypedOperand
           | Some argCount \<Rightarrow>
               (case pop (stack vm) of (func, st1) \<Rightarrow>
                case popN argCount st1 of (args, st2) \<Rightarrow>
                if typeof func = ''function'' then
                  (case h_apply h func (mapGet (globals vm) ''this'') args (heap vm, globals vm) of
                     Inl e \<Rightarrow> Inl e
                   | Inr (r, hp', gl') \<Rightarrow>
                       Inr (r, vm\<lparr> stack := r # st2, heap := hp', globals := gl' \<rparr>))
                else if func = Null then Inl HostException
                else
                  (case functionOf (heap vm) func of
                     Some f \<Rightarrow>
                       (let ls1 = bindParams (params f) args [];
                            ls2 = mapSet ls1 ''this'' (mapGet (globals vm) ''this'');
                            ls3 = hoistSiblingFunctionsForIIFE h vm ls2;
                            currentFrame = \<lparr> returnAddress = pc vm, locals = ls3,
                                             isConstructorCall = False, newInstance = Null,
                                             currentFunction = func \<rparr>
                        in Inr (Undefined,
                                vm\<lparr> stack := st2, callStack := currentFrame # callStack vm,
                                    pc := int (startAddress f) - 1 \<rparr>))
                   | None \<Rightarrow> Inl (NotCallable func)))))"

definition executeCallMethod :: "host \<Rightarrow> VirtualMachine \<Rightarrow> int option \<Rightarrow> outcome" where
  "executeCallMethod h vm k =
     (case getConstant vm k of
        Inl e \<Rightarrow> Inl e
      | Inr c \<Rightarrow>
          (case argCountOf c of
             None \<Rightarrow> Inl IllTypedOperand
           | Some argCount \<Rightarrow>
               (case pop (stack vm) of (method, st0) \<Rightarrow>
                case pop st0 of (thisObject, st1) \<Rightarrow>
                case popN argCount st1 of (args, st2) \<Rightarrow>
                if typeof method = ''function'' then
                  (case h_apply h method thisObject args (heap vm, globals vm) of
                     Inl e \<Rightarrow> Inl e
                   | Inr (r, hp', gl') \<Rightarrow>
                       Inr (r, vm\<lparr> stack := r # st2, heap := hp', globals := gl' \<rparr>))
                else if method = Null then Inl HostException
                else
                  (case functionOf (heap vm) method of
                     Some f \<Rightarrow>
                       (let ls1 = bindParams (params f) args [];
                            ls2 = mapSet ls1 ''this'' thisObject;
                            ls3 = hoistSiblingFunctionsForIIFE h vm ls2;
                            currentFrame = \<lparr> returnAddress = pc vm, locals = ls3,
                                             isConstructorCall = False, newInstance = Null,
                                             currentFunction = method \<rparr>
                        in Inr (Undefined,
                                vm\<lparr> stack := st2, callStack := currentFrame # callStack vm,
                                    pc := int (startAddress f) - 1 \<rparr>))
                   | None \<Rightarrow> Inl (NotCallable method)))))"

text \<open>
  \<open>createIndependentClosureEnvironment\<close> on the copy made by \<open>RET\<close>: a new closure
  map, a new identifier, and the capture loop.
\<close>

definition createIndependentClosureEnvironment ::
    "host \<Rightarrow> VirtualMachine \<Rightarrow> UserFunction \<Rightarrow> CallFrame \<Rightarrow> UserFunction \<times> heap \<times> nat" where
  "createIndependentClosureEnvironment h vm f returningFrame =
     (case captureLocals h vm f (locals returningFrame) [] (heap vm) of (cl, hp') \<Rightarrow>
        (f\<lparr> closureEnv := Some cl,
            closureId := Some (generateUniqueClosureId (closureIdCounter vm)) \<rparr>,
         hp', Suc (closureIdCounter vm)))"

definition executeRet :: "host \<Rightarrow> VirtualMachine \<Rightarrow> outcome" where
  "executeRet h vm =
     (case pop (stack vm) of (returnValue, st1) \<Rightarrow>
      case callStack vm of
        [] \<Rightarrow> Inl NoCallToReturn
      | frame # frs \<Rightarrow>
          (let vm1 = vm\<lparr> stack := st1, callStack := frs, pc := returnAddress frame \<rparr> in
           if returnValue = Null then Inl HostException
           else
             (case functionOf (heap vm) returnValue of
                Some f \<Rightarrow>
                  (let functionCopy = \<lparr> name = name f, params = params f,
                                        startAddress = startAddress f,
                                        closureScope = closureScope f,
                                        closureEnv = None, closureId = None \<rparr>
                   in case createIndependentClosureEnvironment h vm1 functionCopy frame of
                        (functionCopy', hp', counter') \<Rightarrow>
                          (case alloc hp' (Fun functionCopy') of (r, hp'') \<Rightarrow>
                             Inr (r, vm1\<lparr> stack := r # st1, heap := hp'',
                                          closureIdCounter := counter' \<rparr>)))
              | None \<Rightarrow>
                  (if isConstructorCall frame then
                     (let finalResult =
                        (if returnValue \<noteq> Null \<and> typeof returnValue = ''object''
                         then returnValue else newInstance frame)
                      in Inr (finalResult, vm1\<lparr> stack := finalResult # st1 \<rparr>))
                   else Inr (returnValue, vm1\<lparr> stack := returnValue # st1 \<rparr>)))))"

subsection \<open>Objects and arrays\<close>

text \<open>
  \<open>getPropertyWithPrototype\<close> on a plain object: an own property is returned as it
  is; an inherited host function is bound to the receiver; otherwise the inherited
  value, or \<open>undefined\<close>. A plain object that overrides \<open>hasOwnProperty\<close> and every
  other kind of receiver are left to the host. On the global receiver a name that the
  target does not have is read from the globals by the proxy's \<open>get\<close> trap.
\<close>

definition inheritedProperty :: "host \<Rightarrow> Value \<Rightarrow> string \<Rightarrow> Value" where
  "inheritedProperty h object n =
     (case h_objectProto h n of
        Some v \<Rightarrow> (if typeof v = ''function'' then h_bind h v object else v)
      | None \<Rightarrow> Undefined)"

definition getPropertyWithPrototype ::
    "host \<Rightarrow> VirtualMachine \<Rightarrow> Value \<Rightarrow> Value \<Rightarrow> error + Value" where
  "getPropertyWithPrototype h vm object propertyName =
     (case object of
        Ref a \<Rightarrow>
          (case heapGet (heap vm) a of
             Some (Obj ps) \<Rightarrow>
               (if mapHas ps ''hasOwnProperty''
                then h_get h (heap vm, globals vm) object propertyName
                else
                  (case map_of ps (propertyKey h propertyName) of
                     Some v \<Rightarrow> Inr v
                   | None \<Rightarrow> Inr (inheritedProperty h object (propertyKey h propertyName))))
           | Some (GlobalThis ps) \<Rightarrow>
               (if mapHas ps ''hasOwnProperty''
                then h_get h (heap vm, globals vm) object propertyName
                else
                  (case map_of ps (propertyKey h propertyName) of
                     Some v \<Rightarrow> Inr v
                   | None \<Rightarrow>
                       (if h_objectProto h (propertyKey h propertyName) \<noteq> None
                        then Inr (inheritedProperty h object (propertyKey h propertyName))
                        else
                          (let v = mapGet (globals vm) (propertyKey h propertyName) in
                           if typeof v = ''function'' then Inr (h_bind h v object)
                           else Inr v))))
           | Some (Arr xs) \<Rightarrow>
               (case arrayIndex propertyName of
                  Some i \<Rightarrow>
                    (if i < length xs then Inr (xs ! i)
                     else h_get h (heap vm, globals vm) object propertyName)
                | None \<Rightarrow> h_get h (heap vm, globals vm) object propertyName)
           | _ \<Rightarrow> h_get h (heap vm, globals vm) object propertyName)
      | _ \<Rightarrow> h_get h (heap vm, globals vm) object propertyName)"

definition executeGetProp :: "host \<Rightarrow> VirtualMachine \<Rightarrow> outcome" where
  "executeGetProp h vm =
     (case pop (stack vm) of (propertyName, st0) \<Rightarrow>
      case pop st0 of (object, st1) \<Rightarrow>
      if object = Null \<or> object = Undefined then Inl (CannotReadProperty object propertyName)
      else
        (case getPropertyWithPrototype h vm object propertyName of
           Inl e \<Rightarrow> Inl e
         | Inr v \<Rightarrow> Inr (v, vm\<lparr> stack := v # st1 \<rparr>)))"

text \<open>
  \<open>new Array(length)\<close> takes a count that is a natural number; any other number is a
  range error of the host. A count that is not a number is outside the model.
\<close>

definition executeNewArr :: "VirtualMachine \<Rightarrow> outcome" where
  "executeNewArr vm =
     (case pop (stack vm) of (len, st1) \<Rightarrow>
      case len of
        Number n \<Rightarrow>
          (case arrayIndex len of
             None \<Rightarrow> Inl HostException
           | Some cnt \<Rightarrow>
               (case popN cnt st1 of (vs, st2) \<Rightarrow>
                case alloc (heap vm) (Arr (rev vs)) of (r, hp') \<Rightarrow>
                  Inr (r, vm\<lparr> stack := r # st2, heap := hp' \<rparr>)))
      | _ \<Rightarrow> Inl IllTypedOperand)"

text \<open>\<open>NEW_OBJ\<close> pops the count, then for each property the key and then the value.\<close>

fun popProps :: "host \<Rightarrow> nat \<Rightarrow> Value list \<Rightarrow> env \<Rightarrow> env \<times> Value list" where
  "popProps h 0 st ps = (ps, st)"
| "popProps h (Suc n) st ps =
     (case pop st of (key, st0) \<Rightarrow>
      case pop st0 of (v, st1) \<Rightarrow>
        popProps h n st1 (mapSet ps (propertyKey h key) v))"

definition executeNewObj :: "host \<Rightarrow> VirtualMachine \<Rightarrow> outcome" where
  "executeNewObj h vm =
     (case pop (stack vm) of (propCount, st1) \<Rightarrow>
      case argCountOf propCount of
        None \<Rightarrow> Inl IllTypedOperand
      | Some cnt \<Rightarrow>
          (case popProps h cnt st1 [] of (ps, st2) \<Rightarrow>
           case alloc (heap vm) (Obj ps) of (r, hp') \<Rightarrow>
             Inr (r, vm\<lparr> stack := r # st2, heap := hp' \<rparr>)))"

text \<open>Reading and writing \<open>array[index]\<close> on a script array; other cases go to the host.\<close>

definition executeGetElem :: "host \<Rightarrow> VirtualMachine \<Rightarrow> outcome" where
  "executeGetElem h vm =
     (case pop (stack vm) of (index, st0) \<Rightarrow>
      case pop st0 of (array, st1) \<Rightarrow>
      if \<not> isArray h (heap vm) array then Inl (GetElemNotArray array)
      else
        (case readProperty h vm array index of
           Inl e \<Rightarrow> Inl e
         | Inr v \<Rightarrow> Inr (v, vm\<lparr> stack := v # st1 \<rparr>)))"

text \<open>
  \<open>object[property] = value\<close>: on a plain object the own property is set; on the global
  receiver the proxy's \<open>set\<close> trap also sets the global of that name; on a script array
  an index is written; everything else is the host's.
\<close>

definition assignProperty ::
    "host \<Rightarrow> VirtualMachine \<Rightarrow> Value \<Rightarrow> Value \<Rightarrow> Value \<Rightarrow> error + VirtualMachine" where
  "assignProperty h vm object property v =
     (let viaHost =
        (case h_set h (heap vm, globals vm) object property v of
           Inl e \<Rightarrow> Inl e
         | Inr (hp', gl') \<Rightarrow> Inr (vm\<lparr> heap := hp', globals := gl' \<rparr>))
      in case object of
        Ref a \<Rightarrow>
          (case heapGet (heap vm) a of
             Some (Obj ps) \<Rightarrow>
               Inr (vm\<lparr> heap := (heap vm)[a := Obj (mapSet ps (propertyKey h property) v)] \<rparr>)
           | Some (GlobalThis ps) \<Rightarrow>
               Inr (vm\<lparr> heap := (heap vm)[a := GlobalThis (mapSet ps (propertyKey h property) v)],
                        globals := mapSet (globals vm) (propertyKey h property) v \<rparr>)
           | Some (Arr xs) \<Rightarrow>
               (case arrayIndex property of
                  Some i \<Rightarrow> Inr (vm\<lparr> heap := (heap vm)[a := Arr (arrayWrite xs i v)] \<rparr>)
                | None \<Rightarrow> viaHost)
           | _ \<Rightarrow> viaHost)
      | _ \<Rightarrow> viaHost)"

definition executeSetElem :: "host \<Rightarrow> VirtualMachine \<Rightarrow> outcome" where
  "executeSetElem h vm =
     (if length (stack vm) < 3 then Inl (SetElemStackUnderflow (length (stack vm)))
      else
        (case pop (stack vm) of (index, st0) \<Rightarrow>
         case pop st0 of (array, st1) \<Rightarrow>
         case pop st1 of (v, st2) \<Rightarrow>
         if \<not> isArray h (heap vm) array then Inl (SetElemNotArray array)
         else
           (case assignProperty h (vm\<lparr> stack := st2 \<rparr>) array index v of
              Inl e \<Rightarrow> Inl e
            | Inr vm' \<Rightarrow> Inr (v, vm'\<lparr> stack := v # st2 \<rparr>))))"

definition executeSetProp :: "host \<Rightarrow> VirtualMachine \<Rightarrow> outcome" where
  "executeSetProp h vm =
     (case pop (stack vm) of (property, st0) \<Rightarrow>
      case pop st0 of (object, st1) \<Rightarrow>
      case pop st1 of (v, st2) \<Rightarrow>
      if object = Null \<or> object = Undefined then Inl (CannotSetProperty object property)
      else
        (case assignProperty h (vm\<lparr> stack := st2 \<rparr>) object property v of
           Inl e \<Rightarrow> Inl e
         | Inr vm' \<Rightarrow> Inr (v, vm'\<lparr> stack := v # st2 \<rparr>)))"

subsection \<open>Constructors and the remaining instructions\<close>

text \<open>
  \<open>NEW\<close>. Every failure inside is caught and raised again as a construction failure.
  A host function is constructed by the host; a script function runs in a frame marked
  as a constructor call, with a new empty object as \<open>this\<close> and the closure variables
  copied into the locals; an object whose \<open>name\<close> is \<open>Error\<close> yields a host error
  object; anything else fails.
\<close>

definition restoreClosure :: "env option \<Rightarrow> env \<Rightarrow> env" where
  "restoreClosure cl ls =
     (case cl of
        None \<Rightarrow> ls
      | Some c \<Rightarrow> foldl (\<lambda>l (n, v). if \<not> mapHas l n then mapSet l n v else l) ls c)"

definition executeNew :: "host \<Rightarrow> VirtualMachine \<Rightarrow> int option \<Rightarrow> outcome" where
  "executeNew h vm k =
     (case getConstant vm k of
        Inl e \<Rightarrow> Inl e
      | Inr c \<Rightarrow>
          (case argCountOf c of
             None \<Rightarrow> Inl IllTypedOperand
           | Some argCount \<Rightarrow>
               (case pop (stack vm) of (constructor, st1) \<Rightarrow>
                case popN argCount st1 of (args, st2) \<Rightarrow>
                if typeof constructor = ''function'' then
                  (case h_construct h constructor args (heap vm, globals vm) of
                     Inl e \<Rightarrow> Inl ConstructFailed
                   | Inr (r, hp', gl') \<Rightarrow>
                       Inr (r, vm\<lparr> stack := r # st2, heap := hp', globals := gl' \<rparr>))
                else if constructor = Null then Inl ConstructFailed
                else
                  (case functionOf (heap vm) constructor of
                     Some f \<Rightarrow>
                       (case alloc (heap vm) (Obj []) of (inst, hp') \<Rightarrow>
                        let vm1 = vm\<lparr> stack := st2, heap := hp' \<rparr>;
                            ls1 = bindParams (params f) args [];
                            ls2 = mapSet ls1 ''this'' inst;
                            ls3 = restoreClosure (closureEnv f) ls2;
                            ls4 = hoistSiblingFunctionsForIIFE h vm1 ls3;
                            currentFrame = \<lparr> returnAddress = pc vm, locals = ls4,
                                             isConstructorCall = True, newInstance = inst,
                                             currentFunction = constructor \<rparr>
                        in Inr (Undefined,
                                vm1\<lparr> callStack := currentFrame # callStack vm,
                                     pc := int (startAddress f) - 1 \<rparr>))
                   | None \<Rightarrow>
                       (if truthy constructor
                           \<and> readProperty h vm constructor (String ''name'')
                               = Inr (String ''Error'')
                        then
                          (let arg0 = (case args of [] \<Rightarrow> Undefined | a # as \<Rightarrow> a);
                               r = h_newError h (if truthy arg0 then arg0 else String [])
                           in Inr (r, vm\<lparr> stack := r # st2 \<rparr>))
                        else Inl ConstructFailed)))))"

definition executeThrow :: "VirtualMachine \<Rightarrow> outcome" where
  "executeThrow vm = (case pop (stack vm) of (v, st1) \<Rightarrow> Inl (Thrown v))"

definition executeHalt :: "VirtualMachine \<Rightarrow> outcome" where
  "executeHalt vm = Inr (Undefined, vm)"

text \<open>
  The dispatch of \<open>executeInstruction\<close>. \<open>TRY CATCH FINALLY END_TRY\<close> do nothing;
  \<open>BREAK\<close> and \<open>CONTINUE\<close> raise; \<open>NOP ENTER LEAVE\<close> have no case and fall to the
  default, which raises.
\<close>

definition executeInstruction :: "host \<Rightarrow> Instruction \<Rightarrow> VirtualMachine \<Rightarrow> outcome" where
  "executeInstruction h instruction vm =
     (case opcode instruction of
        PUSH \<Rightarrow> executePush vm (operand instruction)
      | POP \<Rightarrow> executePop vm
      | DUP \<Rightarrow> executeDup vm
      | ADD \<Rightarrow> executeBinary h ADD vm
      | SUB \<Rightarrow> executeBinary h SUB vm
      | MUL \<Rightarrow> executeBinary h MUL vm
      | DIV \<Rightarrow> executeDiv h vm
      | MOD \<Rightarrow> executeBinary h MOD vm
      | NEG \<Rightarrow> executeUnary h NEG vm
      | SHL \<Rightarrow> executeBinary h SHL vm
      | SHR \<Rightarrow> executeBinary h SHR vm
      | USHR \<Rightarrow> executeBinary h USHR vm
      | BIT_AND \<Rightarrow> executeBinary h BIT_AND vm
      | BIT_OR \<Rightarrow> executeBinary h BIT_OR vm
      | BIT_XOR \<Rightarrow> executeBinary h BIT_XOR vm
      | BIT_NOT \<Rightarrow> executeUnary h BIT_NOT vm
      | EQ \<Rightarrow> executeEq vm
      | NE \<Rightarrow> executeNe vm
      | LT \<Rightarrow> executeBinary h LT vm
      | LE \<Rightarrow> executeBinary h LE vm
      | GT \<Rightarrow> executeBinary h GT vm
      | GE \<Rightarrow> executeBinary h GE vm
      | AND \<Rightarrow> executeAnd vm
      | OR \<Rightarrow> executeOr vm
      | NOT \<Rightarrow> executeNot vm
      | TYPEOF \<Rightarrow> executeTypeof h vm
      | LOAD \<Rightarrow> executeLoad h vm (operand instruction)
      | STORE \<Rightarrow> executeStore vm (operand instruction)
      | DECLARE \<Rightarrow> executeDeclare vm (operand instruction)
      | JMP \<Rightarrow> executeJmp vm (operand instruction)
      | JIF \<Rightarrow> executeJif vm (operand instruction)
      | JNF \<Rightarrow> executeJnf vm (operand instruction)
      | CALL \<Rightarrow> executeCall h vm (operand instruction)
      | CALL_METHOD \<Rightarrow> executeCallMethod h vm (operand instruction)
      | RET \<Rightarrow> executeRet h vm
      | GET_PROP \<Rightarrow> executeGetProp h vm
      | NEW_ARR \<Rightarrow> executeNewArr vm
      | NEW_OBJ \<Rightarrow> executeNewObj h vm
      | GET_ELEM \<Rightarrow> executeGetElem h vm
      | SET_ELEM \<Rightarrow> executeSetElem h vm
      | SET_PROP \<Rightarrow> executeSetProp h vm
      | NEW \<Rightarrow> executeNew h vm (operand instruction)
      | THROW \<Rightarrow> executeThrow vm
      | TRY \<Rightarrow> Inr (Undefined, vm)
      | CATCH \<Rightarrow> Inr (Undefined, vm)
      | FINALLY \<Rightarrow> Inr (Undefined, vm)
      | END_TRY \<Rightarrow> Inr (Undefined, vm)
      | BREAK \<Rightarrow> Inl BreakStatementError
      | CONTINUE \<Rightarrow> Inl ContinueStatementError
      | HALT \<Rightarrow> executeHalt vm
      | other \<Rightarrow> Inl (UnimplementedOpcode other))"

section \<open>The dispatch loop (vm.js, execute)\<close>

text \<open>
  No instruction touches the instruction counter, the bound, the program or the table
  of built-ins. The loop below relies on it for its termination.
\<close>

definition sameSetup :: "VirtualMachine \<Rightarrow> VirtualMachine \<Rightarrow> bool" where
  "sameSetup vm vm' =
     (instructionCount vm' = instructionCount vm \<and> maxInstructions vm' = maxInstructions vm
      \<and> bytecode vm' = bytecode vm \<and> builtins vm' = builtins vm)"

lemma assignProperty_setup:
  "assignProperty h vm ob k v = Inr vm' \<Longrightarrow> sameSetup vm vm'"
  by (auto simp: assignProperty_def sameSetup_def Let_def
           split: Value.splits option.splits hobj.splits sum.splits)

lemma executeInstruction_setup:
  "executeInstruction h i vm = Inr (r, vm') \<Longrightarrow> sameSetup vm vm'"
  unfolding executeInstruction_def
  apply (cases "opcode i"; simp)
  apply (auto simp: sameSetup_def executePush_def executePop_def executeDup_def executeBinary_def
      executeUnary_def executeDiv_def executeEq_def executeNe_def executeAnd_def executeOr_def
      executeNot_def executeTypeof_def executeLoad_def executeStore_def executeDeclare_def
      executeJmp_def executeJif_def executeJnf_def executeCall_def executeCallMethod_def
      executeRet_def executeGetProp_def executeNewArr_def executeNewObj_def executeGetElem_def
      executeSetElem_def executeSetProp_def executeNew_def executeThrow_def executeHalt_def
      createIndependentClosureEnvironment_def alloc_def Let_def
      dest!: assignProperty_setup
      split: sum.splits prod.splits option.splits list.splits if_splits Value.splits)
  done

text \<open>
  The \<open>while\<close> loop of \<open>execute\<close>, with the variable \<open>result\<close> as an argument. Each
  round counts the instruction, checks the bound, runs the instruction and advances the
  program counter; it stops after \<open>HALT\<close> or when the program counter is no longer below
  the number of instructions. A negative program counter fetches \<open>undefined\<close>, which the
  host refuses to take apart.
\<close>

function runLoop :: "host \<Rightarrow> VirtualMachine \<Rightarrow> Value \<Rightarrow> outcome" where
  "runLoop h vm result =
     (if pc vm < int (length (instructions (bytecode vm))) then
        (let vm1 = vm\<lparr> instructionCount := instructionCount vm + 1 \<rparr> in
         if instructionCount vm1 > maxInstructions vm1
         then Inl (BudgetExceeded (maxInstructions vm1))
         else if pc vm1 < 0 then Inl HostException
         else
           (case executeInstruction h (instructions (bytecode vm1) ! nat (pc vm1)) vm1 of
              Inl e \<Rightarrow> Inl e
            | Inr (r, vm2) \<Rightarrow>
                (let vm3 = vm2\<lparr> pc := pc vm2 + 1 \<rparr> in
                 if opcode (instructions (bytecode vm1) ! nat (pc vm1)) = HALT
                 then Inr (r, vm3)
                 else runLoop h vm3 r)))
      else Inr (result, vm))"
  by pat_completeness auto
termination
proof (relation "measure (\<lambda>(h, vm, result). Suc (maxInstructions vm) - instructionCount vm)")
  show "wf (measure (\<lambda>(h, vm, result). Suc (maxInstructions vm) - instructionCount vm))"
    by simp
next
  fix h vm result vm1 x2 r vm2 vm3
  assume vm1: "vm1 = vm\<lparr> instructionCount := instructionCount vm + 1 \<rparr>"
    and bound: "\<not> maxInstructions vm1 < instructionCount vm1"
    and step: "executeInstruction h (instructions (bytecode vm1) ! nat (pc vm1)) vm1 = Inr x2"
    and x2: "(r, vm2) = x2"
    and vm3: "vm3 = vm2\<lparr> pc := pc vm2 + 1 \<rparr>"
  from step x2 have "sameSetup vm1 vm2"
    by (auto dest: executeInstruction_setup)
  with vm1 vm3 bound
  show "((h, vm3, r), (h, vm, result))
          \<in> measure (\<lambda>(h, vm, result). Suc (maxInstructions vm) - instructionCount vm)"
    by (auto simp: sameSetup_def)
qed

declare runLoop.simps [simp del]

text \<open>The built-in names of \<open>setupBuiltins\<close>, each bound to a host handle or a constant.\<close>

definition setupBuiltins :: env where
  "setupBuiltins =
     [(''console'', HostObject 0), (''Math'', HostObject 1),
      (''parseInt'', HostFunction 2), (''parseFloat'', HostFunction 3),
      (''isNaN'', HostFunction 4), (''isFinite'', HostFunction 5),
      (''encodeURIComponent'', HostFunction 6), (''decodeURIComponent'', HostFunction 7),
      (''encodeURI'', HostFunction 8), (''decodeURI'', HostFunction 9),
      (''escape'', HostFunction 10), (''unescape'', HostFunction 11),
      (''String'', HostFunction 12), (''Number'', HostFunction 13),
      (''Boolean'', HostFunction 14), (''Object'', HostFunction 15),
      (''Uint32Array'', HostFunction 16), (''Uint8Array'', HostFunction 17),
      (''Int32Array'', HostFunction 18),
      (''undefined'', Undefined), (''NaN'', Number NaN), (''Infinity'', Number PosInf),
      (''Buffer'', HostFunction 19), (''require'', HostFunction 20),
      (''define'', HostFunction 21), (''module'', HostObject 22),
      (''exports'', HostObject 23), (''Array'', HostFunction 24)]"

text \<open>
  The constructor of the machine. The heap is the host's and outlives the machine, so
  it is an argument.
\<close>

definition newVirtualMachine :: "heap \<Rightarrow> VirtualMachine" where
  "newVirtualMachine hp =
     \<lparr> stack = [], callStack = [], globals = [], pc = 0,
       bytecode = \<lparr> instructions = [], constantPool = [] \<rparr>,
       instructionCount = 0, maxInstructions = 200000,
       builtins = setupBuiltins, closureIdCounter = 0, heap = hp \<rparr>"

definition setMaxInstructions :: "VirtualMachine \<Rightarrow> nat \<Rightarrow> VirtualMachine" where
  "setMaxInstructions vm n = vm\<lparr> maxInstructions := n \<rparr>"

text \<open>
  The start of \<open>execute\<close>: the fields it resets, the globals rebuilt from the built-ins
  with a new global receiver when \<open>resetGlobals\<close> is set, and the context entries.
\<close>

definition resetGlobalsOf :: "VirtualMachine \<Rightarrow> VirtualMachine" where
  "resetGlobalsOf vm =
     (case alloc (heap vm) (GlobalThis []) of (globalThis, hp') \<Rightarrow>
        vm\<lparr> globals := mapSet (foldl (\<lambda>g (n, v). mapSet g n v) [] (builtins vm))
                          ''this'' globalThis,
            heap := hp' \<rparr>)"

definition prepare :: "VirtualMachine \<Rightarrow> LoadedByteCode \<Rightarrow> env \<Rightarrow> bool \<Rightarrow> VirtualMachine" where
  "prepare vm bc context resetGlobals =
     (let vm1 = vm\<lparr> bytecode := bc, pc := 0, stack := [], callStack := [],
                   instructionCount := 0, maxInstructions := 200000 \<rparr>;
          vm2 = (if resetGlobals then resetGlobalsOf vm1 else vm1)
      in vm2\<lparr> globals := foldl (\<lambda>g (n, v). mapSet g n v) (globals vm2) context \<rparr>)"

text \<open>
  \<open>execute\<close>: run the loop from \<open>result = undefined\<close>, then return the top of the stack
  if there is one and \<open>result\<close> otherwise. The state of a machine after a failed run is
  not part of the model.
\<close>

definition execute ::
    "host \<Rightarrow> VirtualMachine \<Rightarrow> LoadedByteCode \<Rightarrow> env \<Rightarrow> bool \<Rightarrow> outcome" where
  "execute h vm bc context resetGlobals =
     (case runLoop h (prepare vm bc context resetGlobals) Undefined of
        Inl e \<Rightarrow> Inl e
      | Inr (result, vm') \<Rightarrow>
          Inr (case stack vm' of [] \<Rightarrow> result | v # below \<Rightarrow> v, vm'))"

section \<open>A small host and small programs for the examples\<close>

text \<open>
  A host with arithmetic and comparison on finite numbers and no host objects, used
  where a result is evaluated on a concrete input.
\<close>

definition exampleOperator :: "opcode \<Rightarrow> heap \<Rightarrow> Value list \<Rightarrow> error + Value" where
  "exampleOperator oc hp args =
     (case args of
        [Number (Fin a), Number (Fin b)] \<Rightarrow>
          (if oc = ADD then Inr (Number (Fin (a + b)))
           else if oc = SUB then Inr (Number (Fin (a - b)))
           else if oc = MUL then Inr (Number (Fin (a * b)))
           else if oc = LT then Inr (Bool (a < b))
           else Inr (Number NaN))
      | _ \<Rightarrow> Inr (Number NaN))"

definition exampleHost :: host where
  "exampleHost =
     \<lparr> h_operator = exampleOperator,
       h_apply = (\<lambda>f t args w. Inl HostException),
       h_construct = (\<lambda>f args w. Inl HostException),
       h_get = (\<lambda>w ob k. Inr Undefined),
       h_has = (\<lambda>w ob n. False),
       h_set = (\<lambda>w ob k v. Inr w),
       h_toKey = (\<lambda>v. []),
       h_objectProto = (\<lambda>n. None),
       h_bind = (\<lambda>f ob. f),
       h_isArray = (\<lambda>x. False),
       h_entries = (\<lambda>x. []),
       h_elements = (\<lambda>x. []),
       h_newError = (\<lambda>v. HostObject 0),
       h_regExp = (\<lambda>p f. HostObject 0) \<rparr>"

text \<open>A program without \<open>HALT\<close>: push the constant \<open>5\<close>, pop it.\<close>

definition popProgram :: LoadedByteCode where
  "popProgram = \<lparr> instructions = [\<lparr> opcode = PUSH, operand = Some 0 \<rparr>,
                                   \<lparr> opcode = POP, operand = None \<rparr>],
                   constantPool = [Number (Fin 5)] \<rparr>"

text \<open>The code the compiler emits for \<open>while (true) {}\<close>.\<close>

definition whileTrueProgram :: LoadedByteCode where
  "whileTrueProgram =
     \<lparr> instructions = [\<lparr> opcode = PUSH, operand = Some 0 \<rparr>,
                       \<lparr> opcode = JNF, operand = Some 3 \<rparr>,
                       \<lparr> opcode = JMP, operand = Some 0 \<rparr>,
                       \<lparr> opcode = HALT, operand = None \<rparr>],
       constantPool = [Bool True] \<rparr>"

text \<open>What stays true while that program runs.\<close>

definition whileTrueInv :: "VirtualMachine \<Rightarrow> bool" where
  "whileTrueInv vm =
     (bytecode vm = whileTrueProgram
      \<and> (pc vm = 0 \<or> pc vm = 2 \<or> (pc vm = 1 \<and> take 1 (stack vm) = [Bool True])))"

section \<open>Name resolution as the specification words it\<close>




section \<open>Capture on return: notions for the results\<close>

















section \<open>Syntax trees (the compiler's input)\<close>

text \<open>
  The node kinds \<open>compileNode\<close> dispatches on. Names (of declared variables, functions,
  parameters, catch parameters) are identifiers and kept as strings; operators are kept
  as the parser spells them; any other node kind is \<open>Unsupported\<close> with its type name.
\<close>

datatype node =
    File node
  | Program "node list"
  | BlockStatement "node list"
  | ExpressionStatement node
  | VariableDeclaration "(string \<times> node option) list"
  | FunctionDeclaration string "string list" node
  | ReturnStatement "node option"
  | IfStatement node node "node option"
  | WhileStatement node node
  | DoWhileStatement node node
  | ForStatement "node option" "node option" "node option" node
  | ForInStatement node node node
  | SwitchStatement node "(node option \<times> node list) list"
  | BreakStatement
  | ContinueStatement
  | ThrowStatement node
  | TryStatement node "(string option \<times> node) option" "node option"
  | DebuggerStatement
  | Literal const
  | RegExpLiteral string string
  | TemplateLiteral "string list" "node list"
  | Identifier string
  | ThisExpression
  | BinaryExpression string node node
  | LogicalExpression string node node
  | UnaryExpression string node
  | UpdateExpression string bool node
  | AssignmentExpression string node node
  | ConditionalExpression node node node
  | SequenceExpression "node list"
  | CallExpression node "node list"
  | NewExpression node "node list"
  | MemberExpression node node bool
  | ArrayExpression "node option list"
  | ObjectExpression "(node \<times> node \<times> bool) list"
  | FunctionExpression "string option" "string list" node
  | Unsupported string


section \<open>Compiler (compiler.js)\<close>

datatype compile_error =
    UnsupportedNodeType string
  | UnsupportedBinaryOperator string
  | UnsupportedLogicalOperator string
  | UnsupportedUnaryOperator string
  | UnsupportedUpdateTarget
  | UnsupportedCompoundOperator string
  | UnsupportedAssignmentTarget
  | BreakOutsideLoopOrSwitch
  | ContinueOutsideLoop
  | CompilerHostException

text \<open>
  A loop context holds the addresses of the pending \<open>break\<close> and \<open>continue\<close> jumps of
  one loop; a switch context the pending \<open>break\<close> jumps of one \<open>switch\<close>. The stacks
  keep their top at the head.
\<close>

record loopContext =
  breakTargets :: "nat list"
  continueTargets :: "nat list"

text \<open>
  The compiler's state: the bytecode under construction, the scope stack (outermost
  scope first; \<open>currentScope\<close> is the index of the last one), the loop stack and the
  switch stack.
\<close>

record Compiler =
  cbytecode :: "ConstantPool ByteCode"
  scopes :: "(string \<times> nat) list list"
  loopStack :: "loopContext list"
  switchStack :: "nat list list"

type_synonym action = "Compiler \<Rightarrow> compile_error + Compiler"

definition andThen :: "action \<Rightarrow> action \<Rightarrow> action" where
  "andThen a b = (\<lambda>c. case a c of Inl e \<Rightarrow> Inl e | Inr c' \<Rightarrow> b c')"

fun inOrder :: "action list \<Rightarrow> action" where
  "inOrder [] = Inr"
| "inOrder (a # as) = andThen a (inOrder as)"

definition addInstruction :: "opcode \<Rightarrow> int option \<Rightarrow> action" where
  "addInstruction oc k =
     (\<lambda>c. Inr (c\<lparr> cbytecode := (cbytecode c)
                 \<lparr> instructions := instructions (cbytecode c) @ [\<lparr> opcode = oc, operand = k \<rparr>] \<rparr> \<rparr>))"

definition getCurrentAddress :: "Compiler \<Rightarrow> nat" where
  "getCurrentAddress c = length (instructions (cbytecode c))"

text \<open>\<open>f(this.getCurrentAddress())\<close>.\<close>

definition atAddress :: "(nat \<Rightarrow> action) \<Rightarrow> action" where
  "atAddress f = (\<lambda>c. f (getCurrentAddress c) c)"

text \<open>\<open>const i = this.bytecode.addConstant(v); f(i)\<close>.\<close>

definition withConstant :: "const \<Rightarrow> (nat \<Rightarrow> action) \<Rightarrow> action" where
  "withConstant v f =
     (\<lambda>c. case ConstantPool_add (constantPool (cbytecode c)) v of
             (i, pool') \<Rightarrow> f i (c\<lparr> cbytecode := (cbytecode c)\<lparr> constantPool := pool' \<rparr> \<rparr>))"

text \<open>\<open>this.addInstruction(oc, this.bytecode.addConstant(v))\<close>.\<close>

definition addInstructionWithConstant :: "opcode \<Rightarrow> const \<Rightarrow> action" where
  "addInstructionWithConstant oc v = withConstant v (\<lambda>i. addInstruction oc (Some (int i)))"

text \<open>\<open>this.bytecode.instructions[address].operand = operand\<close>.\<close>

definition patchInstruction :: "nat \<Rightarrow> nat \<Rightarrow> action" where
  "patchInstruction address target =
     (\<lambda>c. if address < length (instructions (cbytecode c)) then
             Inr (c\<lparr> cbytecode := (cbytecode c)
                   \<lparr> instructions := (instructions (cbytecode c))
                        [address := (instructions (cbytecode c) ! address)
                                       \<lparr> operand := Some (int target) \<rparr>] \<rparr> \<rparr>)
           else Inl CompilerHostException)"

text \<open>Patch every listed jump to the current address.\<close>

definition patchAllHere :: "nat list \<Rightarrow> action" where
  "patchAllHere targets = atAddress (\<lambda>here. inOrder (map (\<lambda>t. patchInstruction t here) targets))"

definition enterScope :: action where
  "enterScope = (\<lambda>c. Inr (c\<lparr> scopes := scopes c @ [[]] \<rparr>))"

definition exitScope :: action where
  "exitScope = (\<lambda>c. Inr (c\<lparr> scopes := butlast (scopes c) \<rparr>))"

definition declareVariable :: "string \<Rightarrow> action" where
  "declareVariable n =
     (\<lambda>c. if scopes c = [] then Inl CompilerHostException
          else Inr (c\<lparr> scopes := butlast (scopes c)
                                   @ [mapSet (last (scopes c)) n (length (scopes c) - 1)] \<rparr>))"

definition captureClosure :: "Compiler \<Rightarrow> (string \<times> nat) list" where
  "captureClosure c =
     foldl (\<lambda>closure scope. foldl (\<lambda>cl (n, i). mapSet cl n i) closure scope) [] (scopes c)"

text \<open>The \<open>name\<close> field of a node: identifiers have one, other nodes yield \<open>undefined\<close>.\<close>

fun nameOf :: "node \<Rightarrow> const" where
  "nameOf (Identifier n) = CString n"
| "nameOf other = CUndefined"

fun isExpressionStatement :: "node \<Rightarrow> bool" where
  "isExpressionStatement (ExpressionStatement e) = True"
| "isExpressionStatement other = False"

fun isVariableDeclaration :: "node \<Rightarrow> bool" where
  "isVariableDeclaration (VariableDeclaration ds) = True"
| "isVariableDeclaration other = False"

text \<open>Numbers the compiler pools: counts and the literals \<open>0\<close> and \<open>1\<close>.\<close>

definition numberConst :: "nat \<Rightarrow> const" where
  "numberConst n = CNumber (Fin (of_nat n))"

subsection \<open>Statements and expressions\<close>

text \<open>
  Each handler takes the compilations of the child nodes as actions, in the place of
  the calls \<open>this.compileNode(child)\<close>.
\<close>

fun compileProgram :: "(bool \<times> action) list \<Rightarrow> action" where
  "compileProgram [] = Inr"
| "compileProgram ((isExpr, statement) # rest) =
     inOrder [statement,
              (if rest \<noteq> [] \<and> isExpr then addInstruction POP None else Inr),
              compileProgram rest]"

definition compileBlockStatement :: "(bool \<times> action) list \<Rightarrow> action" where
  "compileBlockStatement body =
     inOrder [enterScope,
              inOrder (map (\<lambda>(isExpr, statement).
                              andThen statement
                                (if isExpr then addInstruction POP None else Inr)) body),
              exitScope]"

definition compileLiteral :: "const \<Rightarrow> action" where
  "compileLiteral v = addInstructionWithConstant PUSH v"

definition compileRegExpLiteral :: "string \<Rightarrow> string \<Rightarrow> action" where
  "compileRegExpLiteral pattern flags = addInstructionWithConstant PUSH (CRegExp pattern flags)"

text \<open>
  The loop of \<open>compileTemplateLiteral\<close> over the quasis, with the flag \<open>isFirst\<close>; the
  \<open>i\<close>-th expression follows the \<open>i\<close>-th quasi.
\<close>

fun templateParts :: "string list \<Rightarrow> action list \<Rightarrow> bool \<Rightarrow> (bool \<Rightarrow> action) \<Rightarrow> action" where
  "templateParts [] es isFirst k = k isFirst"
| "templateParts (q # qs) es isFirst k =
     (let afterQuasi = (if q \<noteq> [] then False else isFirst);
          quasi = (if q \<noteq> [] then
                     inOrder [addInstructionWithConstant PUSH (CString q),
                              (if \<not> isFirst then addInstruction ADD None else Inr)]
                   else Inr)
      in case es of
           [] \<Rightarrow> andThen quasi (templateParts qs [] afterQuasi k)
         | e # es' \<Rightarrow>
             inOrder [quasi, e,
                      addInstructionWithConstant LOAD (CString ''String''),
                      addInstructionWithConstant CALL (numberConst 1),
                      (if \<not> afterQuasi then addInstruction ADD None else Inr),
                      templateParts qs es' False k])"

definition compileTemplateLiteral :: "string list \<Rightarrow> action list \<Rightarrow> action" where
  "compileTemplateLiteral quasis expressions =
     (if expressions = [] then
        (case quasis of
           [] \<Rightarrow> (\<lambda>c. Inl CompilerHostException)
         | q # qs \<Rightarrow> addInstructionWithConstant PUSH (CString q))
      else
        templateParts quasis expressions True
          (\<lambda>isFirst. if isFirst then addInstructionWithConstant PUSH (CString []) else Inr))"

definition compileIdentifier :: "string \<Rightarrow> action" where
  "compileIdentifier n = addInstructionWithConstant LOAD (CString n)"

definition compileThisExpression :: action where
  "compileThisExpression = addInstructionWithConstant LOAD (CString ''this'')"

text \<open>The operator table of \<open>compileBinaryExpression\<close>.\<close>

definition binaryOps :: "(string \<times> opcode) list" where
  "binaryOps =
     [(''+'', ADD), (''-'', SUB), (''*'', MUL), (''/'', DIV), (''%'', MOD),
      (''=='', EQ), (''==='', EQ), (''!='', NE), (''!=='', NE),
      (''<'', LT), (''<='', LE), (''>'', GT), (''>='', GE),
      (''<<'', SHL), (''>>'', SHR), (''>>>'', USHR),
      (''&'', BIT_AND), (''|'', BIT_OR), (''^'', BIT_XOR)]"

definition compileBinaryExpression :: "string \<Rightarrow> action \<Rightarrow> action \<Rightarrow> action" where
  "compileBinaryExpression operator left right =
     inOrder [left, right,
              (case map_of binaryOps operator of
                 Some oc \<Rightarrow> addInstruction oc None
               | None \<Rightarrow> (\<lambda>c. Inl (UnsupportedBinaryOperator operator)))]"

definition compileLogicalExpression :: "string \<Rightarrow> action \<Rightarrow> action \<Rightarrow> action" where
  "compileLogicalExpression operator left right =
     andThen left
       (if operator = ''&&'' then
          inOrder [addInstruction DUP None,
                   atAddress (\<lambda>skipJump.
                     inOrder [addInstruction JNF (Some 0), addInstruction POP None, right,
                              patchAllHere [skipJump]])]
        else if operator = ''||'' then
          inOrder [addInstruction DUP None,
                   atAddress (\<lambda>skipJump.
                     inOrder [addInstruction JIF (Some 0), addInstruction POP None, right,
                              patchAllHere [skipJump]])]
        else (\<lambda>c. Inl (UnsupportedLogicalOperator operator)))"

definition unaryOps :: "(string \<times> opcode) list" where
  "unaryOps = [(''-'', NEG), (''!'', NOT), (''~'', BIT_NOT), (''typeof'', TYPEOF)]"

definition compileUnaryExpression :: "string \<Rightarrow> action \<Rightarrow> action" where
  "compileUnaryExpression operator argument =
     andThen argument
       (case map_of unaryOps operator of
          Some oc \<Rightarrow> addInstruction oc None
        | None \<Rightarrow>
            (if operator = ''void'' then
               inOrder [addInstruction POP None, addInstructionWithConstant PUSH CUndefined]
             else if operator = ''delete'' then
               inOrder [addInstruction POP None, addInstructionWithConstant PUSH (CBool True)]
             else (\<lambda>c. Inl (UnsupportedUnaryOperator operator))))"

text \<open>
  The forms of an update or assignment target: an identifier with its name; a member
  expression with the compilation of the whole expression, of its object and of its
  property, the \<open>computed\<close> flag and the property's name; anything else.
\<close>

datatype target =
    IdentifierTarget string
  | MemberTarget action action bool action const
  | OtherTarget

text \<open>The store through a member target: object, key, \<open>SET_PROP\<close>.\<close>

definition storeMember :: "action \<Rightarrow> bool \<Rightarrow> action \<Rightarrow> const \<Rightarrow> action" where
  "storeMember object computed property propertyName =
     inOrder [object,
              (if computed then inOrder [property, addInstruction SET_PROP None]
               else inOrder [addInstructionWithConstant PUSH propertyName,
                             addInstruction SET_PROP None])]"

definition compileUpdateExpression :: "string \<Rightarrow> bool \<Rightarrow> target \<Rightarrow> action" where
  "compileUpdateExpression operator prefix argument =
     (let step = addInstruction (if operator = ''++'' then ADD else SUB) None in
      case argument of
        IdentifierTarget varName \<Rightarrow>
          withConstant (CString varName) (\<lambda>nameIndex.
            if prefix then
              inOrder [addInstruction LOAD (Some (int nameIndex)),
                       addInstructionWithConstant PUSH (numberConst 1), step,
                       addInstruction DUP None,
                       addInstruction STORE (Some (int nameIndex))]
            else
              inOrder [addInstruction LOAD (Some (int nameIndex)),
                       addInstruction DUP None,
                       addInstructionWithConstant PUSH (numberConst 1), step,
                       addInstruction STORE (Some (int nameIndex))])
      | MemberTarget memberExpr object computed property propertyName \<Rightarrow>
          (if prefix then
             inOrder [memberExpr,
                      addInstructionWithConstant PUSH (numberConst 1), step,
                      addInstruction DUP None,
                      storeMember object computed property propertyName,
                      addInstruction POP None]
           else
             inOrder [memberExpr,
                      addInstruction DUP None,
                      addInstructionWithConstant PUSH (numberConst 1), step,
                      storeMember object computed property propertyName,
                      addInstruction POP None])
      | OtherTarget \<Rightarrow> (\<lambda>c. Inl UnsupportedUpdateTarget))"

definition compoundOps :: "(string \<times> opcode) list" where
  "compoundOps =
     [(''+'', ADD), (''-'', SUB), (''*'', MUL), (''/'', DIV), (''%'', MOD),
      (''<<'', SHL), (''>>'', SHR), (''>>>'', USHR),
      (''&'', BIT_AND), (''|'', BIT_OR), (''^'', BIT_XOR)]"

text \<open>
  \<open>compileAssignmentExpression\<close>; \<open>left\<close> is the compilation of the left side as an
  expression, \<open>leftTarget\<close> its form as a target.
\<close>

definition compileAssignmentExpression ::
    "string \<Rightarrow> action \<Rightarrow> target \<Rightarrow> action \<Rightarrow> action" where
  "compileAssignmentExpression operator left leftTarget right =
     (if operator \<noteq> ''='' then
        (let binaryOp = butlast operator;
             apply = (case map_of compoundOps binaryOp of
                        Some oc \<Rightarrow> addInstruction oc None
                      | None \<Rightarrow> (\<lambda>c. Inl (UnsupportedCompoundOperator operator)))
         in case leftTarget of
              IdentifierTarget varName \<Rightarrow>
                inOrder [left, right, apply,
                         withConstant (CString varName) (\<lambda>nameIndex.
                           inOrder [addInstruction DUP None,
                                    addInstruction STORE (Some (int nameIndex))])]
            | MemberTarget memberExpr object computed property propertyName \<Rightarrow>
                inOrder [left, right, apply,
                         storeMember object computed property propertyName]
            | OtherTarget \<Rightarrow> (\<lambda>c. Inl UnsupportedAssignmentTarget))
      else
        andThen right
          (case leftTarget of
             IdentifierTarget varName \<Rightarrow>
               withConstant (CString varName) (\<lambda>nameIndex.
                 inOrder [addInstruction DUP None,
                          addInstruction STORE (Some (int nameIndex))])
           | MemberTarget memberExpr object computed property propertyName \<Rightarrow>
               storeMember object computed property propertyName
           | OtherTarget \<Rightarrow> (\<lambda>c. Inl UnsupportedAssignmentTarget)))"

definition compileConditionalExpression :: "action \<Rightarrow> action \<Rightarrow> action \<Rightarrow> action" where
  "compileConditionalExpression test consequent alternate =
     andThen test
       (atAddress (\<lambda>falseJump.
          inOrder [addInstruction JNF (Some 0), consequent,
                   atAddress (\<lambda>endJump.
                     inOrder [addInstruction JMP (Some 0),
                              patchAllHere [falseJump],
                              alternate,
                              patchAllHere [endJump]])]))"

fun compileSequenceExpression :: "action list \<Rightarrow> action" where
  "compileSequenceExpression [] = Inr"
| "compileSequenceExpression (e # rest) =
     inOrder [e, (if rest \<noteq> [] then addInstruction POP None else Inr),
              compileSequenceExpression rest]"

text \<open>The callee of a call: a member expression taken apart, or any other expression.\<close>

datatype callee =
    MemberCallee action bool action const
  | PlainCallee action

definition compileCallExpression :: "action list \<Rightarrow> callee \<Rightarrow> action" where
  "compileCallExpression arguments callee =
     andThen (inOrder (rev arguments))
       (case callee of
          MemberCallee object computed property propertyName \<Rightarrow>
            inOrder [object, addInstruction DUP None,
                     (if computed then property
                      else addInstructionWithConstant PUSH propertyName),
                     addInstruction GET_PROP None,
                     addInstructionWithConstant CALL_METHOD (numberConst (length arguments))]
        | PlainCallee f \<Rightarrow>
            inOrder [f, addInstructionWithConstant CALL (numberConst (length arguments))])"

definition compileNewExpression :: "action list \<Rightarrow> action \<Rightarrow> action" where
  "compileNewExpression arguments callee =
     inOrder [inOrder (rev arguments), callee,
              addInstructionWithConstant NEW (numberConst (length arguments))]"

definition compileMemberExpression :: "action \<Rightarrow> bool \<Rightarrow> action \<Rightarrow> const \<Rightarrow> action" where
  "compileMemberExpression object computed property propertyName =
     inOrder [object,
              (if computed then property else addInstructionWithConstant PUSH propertyName),
              addInstruction GET_PROP None]"

definition compileArrayExpression :: "action option list \<Rightarrow> action" where
  "compileArrayExpression elements =
     inOrder [inOrder (map (\<lambda>element. case element of
                                        Some e \<Rightarrow> e
                                      | None \<Rightarrow> addInstructionWithConstant PUSH CUndefined)
                           elements),
              addInstructionWithConstant PUSH (numberConst (length elements)),
              addInstruction NEW_ARR None]"

text \<open>
  A property of an object literal: the compilation of its value, and its key, either
  the name of an identifier key that is not computed or the compilation of the key.
\<close>

definition compileObjectExpression :: "(action \<times> (string + action)) list \<Rightarrow> action" where
  "compileObjectExpression properties =
     inOrder [inOrder (map (\<lambda>(v, key).
                              andThen v
                                (case key of
                                   Inl keyName \<Rightarrow> addInstructionWithConstant PUSH (CString keyName)
                                 | Inr k \<Rightarrow> k))
                           properties),
              addInstructionWithConstant PUSH (numberConst (length properties)),
              addInstruction NEW_OBJ None]"

definition compileVariableDeclaration :: "(string \<times> action option) list \<Rightarrow> action" where
  "compileVariableDeclaration declarations =
     inOrder (map (\<lambda>(varName, init).
                     inOrder [declareVariable varName,
                              (case init of
                                 Some i \<Rightarrow> i
                               | None \<Rightarrow> addInstructionWithConstant PUSH CUndefined),
                              addInstructionWithConstant DECLARE (CString varName)])
                  declarations)"

text \<open>
  The common part of function declarations and expressions: the jump over the body,
  the function record with the address of the body and the scope snapshot, the body in
  a new scope followed by \<open>PUSH undefined; RET\<close>, the patch of the jump, and the push of
  the pooled record.
\<close>

definition compileFunction :: "string option \<Rightarrow> string list \<Rightarrow> string list \<Rightarrow> action \<Rightarrow> action" where
  "compileFunction funcName declared ps body =
     atAddress (\<lambda>jumpIndex.
       andThen (addInstruction JMP (Some 0))
         (\<lambda>c. let funcInfo = \<lparr> fi_name = funcName, fi_params = ps,
                               fi_startAddress = getCurrentAddress c,
                               fi_closureScope = captureClosure c \<rparr>
              in inOrder [enterScope,
                          inOrder (map declareVariable declared),
                          body,
                          addInstructionWithConstant PUSH CUndefined,
                          addInstruction RET None,
                          exitScope,
                          patchAllHere [jumpIndex],
                          addInstructionWithConstant PUSH (CFunction funcInfo)] c))"

definition compileFunctionDeclaration :: "string \<Rightarrow> string list \<Rightarrow> action \<Rightarrow> action" where
  "compileFunctionDeclaration funcName ps body =
     inOrder [compileFunction (Some funcName) ps ps body,
              addInstructionWithConstant DECLARE (CString funcName)]"

definition compileFunctionExpression :: "string option \<Rightarrow> string list \<Rightarrow> action \<Rightarrow> action" where
  "compileFunctionExpression funcName ps body =
     compileFunction funcName
       ((case funcName of Some n \<Rightarrow> [n] | None \<Rightarrow> []) @ ps) ps body"

definition compileReturnStatement :: "action option \<Rightarrow> action" where
  "compileReturnStatement argument =
     inOrder [(case argument of
                 Some a \<Rightarrow> a
               | None \<Rightarrow> addInstructionWithConstant PUSH CUndefined),
              addInstruction RET None]"

definition compileIfStatement :: "action \<Rightarrow> action \<Rightarrow> action option \<Rightarrow> action" where
  "compileIfStatement test consequent alternate =
     andThen test
       (atAddress (\<lambda>elseJump.
          inOrder [addInstruction JNF (Some 0), consequent,
                   (case alternate of
                      Some alt \<Rightarrow>
                        atAddress (\<lambda>endJump.
                          inOrder [addInstruction JMP (Some 0),
                                   patchAllHere [elseJump],
                                   alt,
                                   patchAllHere [endJump]])
                    | None \<Rightarrow> patchAllHere [elseJump])]))"


subsection \<open>Loops, switch, break and continue\<close>

definition pushLoop :: action where
  "pushLoop = (\<lambda>c. Inr (c\<lparr> loopStack := \<lparr> breakTargets = [], continueTargets = [] \<rparr> # loopStack c \<rparr>))"

definition popLoop :: action where
  "popLoop = (\<lambda>c. Inr (c\<lparr> loopStack := tl (loopStack c) \<rparr>))"

text \<open>
  The loop's own context, which the handler reaches through its local variable; it is
  the top of the loop stack whenever the handler looks at it.
\<close>

definition withLoopContext :: "(loopContext \<Rightarrow> action) \<Rightarrow> action" where
  "withLoopContext f =
     (\<lambda>c. case loopStack c of [] \<Rightarrow> Inl CompilerHostException | ctx # rest \<Rightarrow> f ctx c)"

text \<open>\<open>loopContext.breakTargets.push(exitJump)\<close>.\<close>

definition addBreakTarget :: "nat \<Rightarrow> action" where
  "addBreakTarget j =
     (\<lambda>c. case loopStack c of
             [] \<Rightarrow> Inl CompilerHostException
           | ctx # rest \<Rightarrow>
               Inr (c\<lparr> loopStack := ctx\<lparr> breakTargets := breakTargets ctx @ [j] \<rparr> # rest \<rparr>))"

definition addContinueTarget :: "nat \<Rightarrow> action" where
  "addContinueTarget j =
     (\<lambda>c. case loopStack c of
             [] \<Rightarrow> Inl CompilerHostException
           | ctx # rest \<Rightarrow>
               Inr (c\<lparr> loopStack := ctx\<lparr> continueTargets := continueTargets ctx @ [j] \<rparr> # rest \<rparr>))"

definition patchContinues :: action where
  "patchContinues = withLoopContext (\<lambda>ctx. patchAllHere (continueTargets ctx))"

definition patchBreaks :: action where
  "patchBreaks = withLoopContext (\<lambda>ctx. patchAllHere (breakTargets ctx))"

definition compileWhileStatement :: "action \<Rightarrow> action \<Rightarrow> action" where
  "compileWhileStatement test body =
     atAddress (\<lambda>loopStart.
       inOrder [pushLoop, test,
                atAddress (\<lambda>exitJump.
                  inOrder [addInstruction JNF (Some 0), addBreakTarget exitJump]),
                body,
                patchContinues,
                addInstruction JMP (Some (int loopStart)),
                patchBreaks,
                popLoop])"

definition compileDoWhileStatement :: "action \<Rightarrow> action \<Rightarrow> action" where
  "compileDoWhileStatement body test =
     atAddress (\<lambda>loopStart.
       inOrder [pushLoop, body,
                patchContinues,
                test,
                addInstruction JIF (Some (int loopStart)),
                patchBreaks,
                popLoop])"

text \<open>\<open>init\<close> comes with the flag saying whether it is a variable declaration.\<close>

definition compileForStatement ::
    "(bool \<times> action) option \<Rightarrow> action option \<Rightarrow> action option \<Rightarrow> action \<Rightarrow> action" where
  "compileForStatement init test update body =
     inOrder [enterScope, pushLoop,
              (case init of
                 Some (isDeclaration, i) \<Rightarrow>
                   andThen i (if \<not> isDeclaration then addInstruction POP None else Inr)
               | None \<Rightarrow> Inr),
              atAddress (\<lambda>loopStart.
                inOrder [(case test of
                            Some t \<Rightarrow>
                              andThen t
                                (atAddress (\<lambda>exitJump.
                                   inOrder [addInstruction JNF (Some 0), addBreakTarget exitJump]))
                          | None \<Rightarrow> Inr),
                         body,
                         patchContinues,
                         (case update of
                            Some u \<Rightarrow> andThen u (addInstruction POP None)
                          | None \<Rightarrow> Inr),
                         addInstruction JMP (Some (int loopStart)),
                         patchBreaks,
                         popLoop, exitScope])]"

text \<open>
  The left side of \<open>for-in\<close>: a variable declaration with the name of its first
  declarator (none if it has no declarator, which the host refuses), or any other node
  with its \<open>name\<close> field.
\<close>

datatype forInLeft =
    DeclaredLeft "string option"
  | NamedLeft const

definition compileForInStatement :: "forInLeft \<Rightarrow> action \<Rightarrow> action \<Rightarrow> action" where
  "compileForInStatement left right body =
     inOrder [enterScope, pushLoop, right,
              addInstructionWithConstant LOAD (CString ''Object''),
              addInstructionWithConstant PUSH (CString ''keys''),
              addInstruction GET_PROP None,
              addInstructionWithConstant CALL (numberConst 1),
              declareVariable ''__for_in_index__'',
              addInstructionWithConstant PUSH (numberConst 0),
              withConstant (CString ''__for_in_index__'') (\<lambda>indexNameIndex.
                inOrder [addInstruction DECLARE (Some (int indexNameIndex)),
                         declareVariable ''__for_in_length__'',
                         addInstruction DUP None,
                         addInstructionWithConstant PUSH (CString ''length''),
                         addInstruction GET_PROP None,
                         withConstant (CString ''__for_in_length__'') (\<lambda>lengthNameIndex.
                           inOrder [addInstruction DECLARE (Some (int lengthNameIndex)),
                                    declareVariable ''__for_in_keys__'',
                                    withConstant (CString ''__for_in_keys__'') (\<lambda>keysNameIndex.
                                      inOrder [addInstruction DECLARE (Some (int keysNameIndex)),
                                               atAddress (\<lambda>loopStart.
     inOrder [addInstruction LOAD (Some (int indexNameIndex)),
              addInstruction LOAD (Some (int lengthNameIndex)),
              addInstruction LT None,
              atAddress (\<lambda>exitJump.
                inOrder [addInstruction JNF (Some 0), addBreakTarget exitJump]),
              addInstruction LOAD (Some (int keysNameIndex)),
              addInstruction LOAD (Some (int indexNameIndex)),
              addInstruction GET_ELEM None,
              (case left of
                 DeclaredLeft None \<Rightarrow> (\<lambda>c. Inl CompilerHostException)
               | DeclaredLeft (Some varName) \<Rightarrow>
                   inOrder [declareVariable varName,
                            addInstructionWithConstant DECLARE (CString varName)]
               | NamedLeft varName \<Rightarrow> addInstructionWithConstant STORE varName),
              body,
              patchContinues,
              addInstruction LOAD (Some (int indexNameIndex)),
              addInstructionWithConstant PUSH (numberConst 1),
              addInstruction ADD None,
              addInstruction STORE (Some (int indexNameIndex)),
              addInstruction JMP (Some (int loopStart)),
              patchBreaks,
              popLoop, exitScope])])])])]"

text \<open>
  The first loop of \<open>compileSwitchStatement\<close>: the tests, collecting the jump of every
  case with a test and the index of the last case without one.
\<close>

fun switchTests ::
    "action option list \<Rightarrow> nat \<Rightarrow> (nat \<times> nat) list \<Rightarrow> nat option \<Rightarrow> Compiler
       \<Rightarrow> compile_error + (Compiler \<times> (nat \<times> nat) list \<times> nat option)" where
  "switchTests [] i caseJumps defaultJump c = Inr (c, caseJumps, defaultJump)"
| "switchTests (None # rest) i caseJumps defaultJump c =
     switchTests rest (Suc i) caseJumps (Some i) c"
| "switchTests (Some test # rest) i caseJumps defaultJump c =
     (case inOrder [addInstruction DUP None, test, addInstruction EQ None] c of
        Inl e \<Rightarrow> Inl e
      | Inr c1 \<Rightarrow>
          (case addInstruction JIF (Some 0) c1 of
             Inl e \<Rightarrow> Inl e
           | Inr c2 \<Rightarrow>
               switchTests rest (Suc i) (caseJumps @ [(getCurrentAddress c1, i)]) defaultJump c2))"

text \<open>The second loop: the bodies of the cases, collecting the address of each.\<close>

fun switchBodies ::
    "action list list \<Rightarrow> nat list \<Rightarrow> Compiler \<Rightarrow> compile_error + (Compiler \<times> nat list)" where
  "switchBodies [] caseAddresses c = Inr (c, caseAddresses)"
| "switchBodies (consequent # rest) caseAddresses c =
     (case inOrder consequent c of
        Inl e \<Rightarrow> Inl e
      | Inr c1 \<Rightarrow> switchBodies rest (caseAddresses @ [getCurrentAddress c]) c1)"

definition pushSwitch :: action where
  "pushSwitch = (\<lambda>c. Inr (c\<lparr> switchStack := [] # switchStack c \<rparr>))"

definition popSwitch :: action where
  "popSwitch = (\<lambda>c. Inr (c\<lparr> switchStack := tl (switchStack c) \<rparr>))"

definition patchSwitchBreaks :: action where
  "patchSwitchBreaks =
     (\<lambda>c. case switchStack c of
             [] \<Rightarrow> Inl CompilerHostException
           | targets # rest \<Rightarrow> patchAllHere targets c)"

definition compileSwitchStatement :: "action \<Rightarrow> (action option \<times> action list) list \<Rightarrow> action" where
  "compileSwitchStatement discriminant cases =
     inOrder [discriminant, pushSwitch,
       (\<lambda>c. case switchTests (map fst cases) 0 [] None c of
               Inl e \<Rightarrow> Inl e
             | Inr (c1, caseJumps, defaultJump) \<Rightarrow>
                 (case addInstruction POP None c1 of
                    Inl e \<Rightarrow> Inl e
                  | Inr c2 \<Rightarrow>
                      (case addInstruction JMP (Some 0) c2 of
                         Inl e \<Rightarrow> Inl e
                       | Inr c3 \<Rightarrow>
                           (case switchBodies (map snd cases) [] c3 of
                              Inl e \<Rightarrow> Inl e
                            | Inr (c4, caseAddresses) \<Rightarrow>
                                inOrder
                                  [inOrder (map (\<lambda>(jumpIndex, caseIndex).
                                                   patchInstruction jumpIndex
                                                     (caseAddresses ! caseIndex))
                                                caseJumps),
                                   (case defaultJump of
                                      Some d \<Rightarrow> patchInstruction (getCurrentAddress c2)
                                                  (caseAddresses ! d)
                                    | None \<Rightarrow> patchAllHere [getCurrentAddress c2]),
                                   patchSwitchBreaks,
                                   popSwitch] c4))))]"

text \<open>
  \<open>break\<close>: the jump is emitted first; it is filed with the innermost switch if there
  is one, else with the innermost loop, else the compilation fails.
\<close>

definition compileBreakStatement :: action where
  "compileBreakStatement =
     atAddress (\<lambda>jumpIndex.
       andThen (addInstruction JMP (Some 0))
         (\<lambda>c. case switchStack c of
                 targets # rest \<Rightarrow> Inr (c\<lparr> switchStack := (targets @ [jumpIndex]) # rest \<rparr>)
               | [] \<Rightarrow>
                   (case loopStack c of
                      ctx # rest \<Rightarrow> addBreakTarget jumpIndex c
                    | [] \<Rightarrow> Inl BreakOutsideLoopOrSwitch)))"

definition compileContinueStatement :: action where
  "compileContinueStatement =
     atAddress (\<lambda>jumpIndex.
       andThen (addInstruction JMP (Some 0))
         (\<lambda>c. case loopStack c of
                 ctx # rest \<Rightarrow> addContinueTarget jumpIndex c
               | [] \<Rightarrow> Inl ContinueOutsideLoop))"

definition compileThrowStatement :: "action \<Rightarrow> action" where
  "compileThrowStatement argument = inOrder [argument, addInstruction THROW None]"

definition compileCatchClause :: "string option \<Rightarrow> action \<Rightarrow> action" where
  "compileCatchClause param body =
     inOrder [(case param of
                 Some paramName \<Rightarrow>
                   inOrder [declareVariable paramName,
                            addInstructionWithConstant STORE (CString paramName)]
               | None \<Rightarrow> Inr),
              body]"

definition compileTryStatement ::
    "action \<Rightarrow> (string option \<times> action) option \<Rightarrow> action option \<Rightarrow> action" where
  "compileTryStatement block handler finalizer =
     inOrder [addInstruction TRY None, block,
              (case handler of
                 Some (param, body) \<Rightarrow>
                   inOrder [addInstruction CATCH None, compileCatchClause param body]
               | None \<Rightarrow> Inr),
              (case finalizer of
                 Some f \<Rightarrow> inOrder [addInstruction FINALLY None, f]
               | None \<Rightarrow> Inr),
              addInstruction END_TRY None]"

definition compileDebuggerStatement :: action where
  "compileDebuggerStatement =
     inOrder [addInstruction NOP None,
              addInstructionWithConstant PUSH (CString ''__DEBUGGER__''),
              addInstruction POP None]"


subsection \<open>The dispatch on the node kind\<close>

fun compileNode :: "node \<Rightarrow> action" where
  "compileNode (File program) = compileNode program"
| "compileNode (Program body) =
     compileProgram (map (\<lambda>s. (isExpressionStatement s, compileNode s)) body)"
| "compileNode (BlockStatement body) =
     compileBlockStatement (map (\<lambda>s. (isExpressionStatement s, compileNode s)) body)"
| "compileNode (ExpressionStatement e) = compileNode e"
| "compileNode (VariableDeclaration ds) =
     compileVariableDeclaration (map (\<lambda>(n, init). (n, map_option compileNode init)) ds)"
| "compileNode (FunctionDeclaration n ps body) =
     compileFunctionDeclaration n ps (compileNode body)"
| "compileNode (ReturnStatement a) = compileReturnStatement (map_option compileNode a)"
| "compileNode (IfStatement t c a) =
     compileIfStatement (compileNode t) (compileNode c) (map_option compileNode a)"
| "compileNode (WhileStatement t b) = compileWhileStatement (compileNode t) (compileNode b)"
| "compileNode (DoWhileStatement b t) = compileDoWhileStatement (compileNode b) (compileNode t)"
| "compileNode (ForStatement init t u b) =
     compileForStatement (map_option (\<lambda>i. (isVariableDeclaration i, compileNode i)) init)
       (map_option compileNode t) (map_option compileNode u) (compileNode b)"
| "compileNode (ForInStatement left right b) =
     compileForInStatement
       (case left of
          VariableDeclaration ds \<Rightarrow> DeclaredLeft (case ds of [] \<Rightarrow> None | d # ds' \<Rightarrow> Some (fst d))
        | other \<Rightarrow> NamedLeft (nameOf other))
       (compileNode right) (compileNode b)"
| "compileNode (SwitchStatement d cases) =
     compileSwitchStatement (compileNode d)
       (map (\<lambda>(t, consequent). (map_option compileNode t, map compileNode consequent)) cases)"
| "compileNode BreakStatement = compileBreakStatement"
| "compileNode ContinueStatement = compileContinueStatement"
| "compileNode (ThrowStatement a) = compileThrowStatement (compileNode a)"
| "compileNode (TryStatement block handler finalizer) =
     compileTryStatement (compileNode block)
       (map_option (\<lambda>(param, b). (param, compileNode b)) handler)
       (map_option compileNode finalizer)"
| "compileNode DebuggerStatement = compileDebuggerStatement"
| "compileNode (Literal v) = compileLiteral v"
| "compileNode (RegExpLiteral pattern flags) = compileRegExpLiteral pattern flags"
| "compileNode (TemplateLiteral quasis es) = compileTemplateLiteral quasis (map compileNode es)"
| "compileNode (Identifier n) = compileIdentifier n"
| "compileNode ThisExpression = compileThisExpression"
| "compileNode (BinaryExpression operator l r) =
     compileBinaryExpression operator (compileNode l) (compileNode r)"
| "compileNode (LogicalExpression operator l r) =
     compileLogicalExpression operator (compileNode l) (compileNode r)"
| "compileNode (UnaryExpression operator a) = compileUnaryExpression operator (compileNode a)"
| "compileNode (UpdateExpression operator prefix a) =
     compileUpdateExpression operator prefix
       (case a of
          Identifier n \<Rightarrow> IdentifierTarget n
        | MemberExpression ob pr computed \<Rightarrow>
            MemberTarget (compileNode a) (compileNode ob) computed (compileNode pr) (nameOf pr)
        | other \<Rightarrow> OtherTarget)"
| "compileNode (AssignmentExpression operator l r) =
     compileAssignmentExpression operator (compileNode l)
       (case l of
          Identifier n \<Rightarrow> IdentifierTarget n
        | MemberExpression ob pr computed \<Rightarrow>
            MemberTarget (compileNode l) (compileNode ob) computed (compileNode pr) (nameOf pr)
        | other \<Rightarrow> OtherTarget)
       (compileNode r)"
| "compileNode (ConditionalExpression t c a) =
     compileConditionalExpression (compileNode t) (compileNode c) (compileNode a)"
| "compileNode (SequenceExpression es) = compileSequenceExpression (map compileNode es)"
| "compileNode (CallExpression f args) =
     compileCallExpression (map compileNode args)
       (case f of
          MemberExpression ob pr computed \<Rightarrow>
            MemberCallee (compileNode ob) computed (compileNode pr) (nameOf pr)
        | other \<Rightarrow> PlainCallee (compileNode f))"
| "compileNode (NewExpression f args) =
     compileNewExpression (map compileNode args) (compileNode f)"
| "compileNode (MemberExpression ob pr computed) =
     compileMemberExpression (compileNode ob) computed (compileNode pr) (nameOf pr)"
| "compileNode (ArrayExpression elements) =
     compileArrayExpression (map (map_option compileNode) elements)"
| "compileNode (ObjectExpression properties) =
     compileObjectExpression
       (map (\<lambda>(key, v, computed).
               (compileNode v,
                (case key of
                   Identifier n \<Rightarrow> (if \<not> computed then Inl n else Inr (compileNode key))
                 | other \<Rightarrow> Inr (compileNode key))))
            properties)"
| "compileNode (FunctionExpression n ps body) =
     compileFunctionExpression n ps (compileNode body)"
| "compileNode (Unsupported t) = (\<lambda>c. Inl (UnsupportedNodeType t))"

text \<open>
  \<open>compile\<close>: a new bytecode, the scope stack with one empty scope, empty loop and
  switch stacks; the tree is compiled and \<open>HALT\<close> appended.
\<close>

definition newCompiler :: Compiler where
  "newCompiler =
     \<lparr> cbytecode = \<lparr> instructions = [], constantPool = emptyPool \<rparr>,
       scopes = [[]], loopStack = [], switchStack = [] \<rparr>"

definition compile :: "node \<Rightarrow> compile_error + ConstantPool ByteCode" where
  "compile ast =
     (case inOrder [compileNode ast, addInstruction HALT None] newCompiler of
        Inl e \<Rightarrow> Inl e
      | Inr c \<Rightarrow> Inr (cbytecode c))"

section \<open>Break and continue: notions\<close>

text \<open>
  A list of instructions is free of the opcodes \<open>BREAK\<close> and \<open>CONTINUE\<close>, the only ones
  whose execution raises the errors of \<open>executeBreak\<close> and \<open>executeContinue\<close>.
\<close>

definition noBreakOps :: "Instruction list \<Rightarrow> bool" where
  "noBreakOps is = list_all (\<lambda>i. opcode i \<noteq> BREAK \<and> opcode i \<noteq> CONTINUE) is"

text \<open>
  What the argument observes of a compiler state: the depths of the loop stack and of
  the switch stack, and whether the instructions emitted so far are free of \<open>BREAK\<close> and
  \<open>CONTINUE\<close>. An action has the effect \<open>f\<close> if every successful run maps the
  observation by \<open>f\<close>; it is steady if it leaves the observation as it was.
\<close>

definition shape :: "Compiler \<Rightarrow> nat \<times> nat \<times> bool" where
  "shape c = (length (loopStack c), length (switchStack c), noBreakOps (instructions (cbytecode c)))"

definition effect :: "action \<Rightarrow> (nat \<times> nat \<times> bool \<Rightarrow> nat \<times> nat \<times> bool) \<Rightarrow> bool" where
  "effect a f = (\<forall>c c'. a c = Inr c' \<longrightarrow> shape c' = f (shape c))"

definition steady :: "action \<Rightarrow> bool" where
  "steady a = effect a (\<lambda>x. x)"

definition pushL :: "nat \<times> nat \<times> bool \<Rightarrow> nat \<times> nat \<times> bool" where
  "pushL = (\<lambda>(l, s, n). (Suc l, s, n))"

definition popL :: "nat \<times> nat \<times> bool \<Rightarrow> nat \<times> nat \<times> bool" where
  "popL = (\<lambda>(l, s, n). (l - 1, s, n))"

definition pushS :: "nat \<times> nat \<times> bool \<Rightarrow> nat \<times> nat \<times> bool" where
  "pushS = (\<lambda>(l, s, n). (l, Suc s, n))"

definition popS :: "nat \<times> nat \<times> bool \<Rightarrow> nat \<times> nat \<times> bool" where
  "popS = (\<lambda>(l, s, n). (l, s - 1, n))"

fun steadyTarget :: "target \<Rightarrow> bool" where
  "steadyTarget (MemberTarget m ob computed pr n) = (steady m \<and> steady ob \<and> steady pr)"
| "steadyTarget other = True"

fun steadyCallee :: "callee \<Rightarrow> bool" where
  "steadyCallee (MemberCallee ob computed pr n) = (steady ob \<and> steady pr)"
| "steadyCallee (PlainCallee f) = steady f"

text \<open>
  A compiler state is idle when no loop and no switch is open. An action dooms the
  compilation if it fails from every idle state. The verdict on an action records that
  it is steady and, under the flag, that it dooms the compilation.
\<close>

definition idle :: "Compiler \<Rightarrow> bool" where
  "idle c = (loopStack c = [] \<and> switchStack c = [])"

definition dooms :: "action \<Rightarrow> bool" where
  "dooms a = (\<forall>c. idle c \<longrightarrow> isl (a c))"

definition verdict :: "action \<Rightarrow> bool \<Rightarrow> bool" where
  "verdict a d = (steady a \<and> (d \<longrightarrow> dooms a))"

text \<open>
  A node is bare if it holds a \<open>break\<close> or \<open>continue\<close> statement that no loop or switch
  statement encloses, at a place the compiler visits (the property of a member
  expression only if computed; the expressions of a template literal that follow a
  quasi).
\<close>

lemma list_ex_take_cong [fundef_cong]:
  "xs = ys \<Longrightarrow> n = m \<Longrightarrow> (\<And>x. x \<in> set ys \<Longrightarrow> P x = Q x)
   \<Longrightarrow> list_ex P (take n xs) = list_ex Q (take m ys)"
  by (auto simp: list_ex_iff dest: in_set_takeD)

fun bare :: "node \<Rightarrow> bool" where
  "bare (File program) = bare program"
| "bare (Program body) = list_ex bare body"
| "bare (BlockStatement body) = list_ex bare body"
| "bare (ExpressionStatement e) = bare e"
| "bare (VariableDeclaration ds) =
     list_ex (\<lambda>(n, init). case init of None \<Rightarrow> False | Some i \<Rightarrow> bare i) ds"
| "bare (FunctionDeclaration n ps body) = bare body"
| "bare (ReturnStatement a) = (case a of None \<Rightarrow> False | Some x \<Rightarrow> bare x)"
| "bare (IfStatement t c a) =
     (bare t \<or> bare c \<or> (case a of None \<Rightarrow> False | Some x \<Rightarrow> bare x))"
| "bare (WhileStatement t b) = False"
| "bare (DoWhileStatement b t) = False"
| "bare (ForStatement init t u b) = False"
| "bare (ForInStatement left right b) = False"
| "bare (SwitchStatement d cases) = False"
| "bare BreakStatement = True"
| "bare ContinueStatement = True"
| "bare (ThrowStatement a) = bare a"
| "bare (TryStatement block handler finalizer) =
     (bare block
      \<or> (case handler of None \<Rightarrow> False | Some (param, b) \<Rightarrow> bare b)
      \<or> (case finalizer of None \<Rightarrow> False | Some f \<Rightarrow> bare f))"
| "bare DebuggerStatement = False"
| "bare (Literal v) = False"
| "bare (RegExpLiteral pattern flags) = False"
| "bare (TemplateLiteral quasis es) = list_ex bare (take (length quasis) es)"
| "bare (Identifier n) = False"
| "bare ThisExpression = False"
| "bare (BinaryExpression operator l r) = (bare l \<or> bare r)"
| "bare (LogicalExpression operator l r) = (bare l \<or> bare r)"
| "bare (UnaryExpression operator a) = bare a"
| "bare (UpdateExpression operator prefix a) = bare a"
| "bare (AssignmentExpression operator l r) = (bare l \<or> bare r)"
| "bare (ConditionalExpression t c a) = (bare t \<or> bare c \<or> bare a)"
| "bare (SequenceExpression es) = list_ex bare es"
| "bare (CallExpression f args) = (list_ex bare args \<or> bare f)"
| "bare (NewExpression f args) = (list_ex bare args \<or> bare f)"
| "bare (MemberExpression ob pr computed) = (bare ob \<or> (computed \<and> bare pr))"
| "bare (ArrayExpression elements) =
     list_ex (\<lambda>e. case e of None \<Rightarrow> False | Some x \<Rightarrow> bare x) elements"
| "bare (ObjectExpression properties) =
     list_ex (\<lambda>(key, v, computed). bare v \<or> bare key) properties"
| "bare (FunctionExpression n ps body) = bare body"
| "bare (Unsupported t) = False"

text \<open>
  \<open>while (true) { continue; break; }\<close> and its bytecode; \<open>if (x) { break; }\<close>; the
  compiler state inside one loop; and the outcome of compiling a node that appends
  exactly one \<open>JMP\<close> with the placeholder operand.
\<close>

definition loopExample :: node where
  "loopExample =
     Program [WhileStatement (Literal (CBool True))
                (BlockStatement [ContinueStatement, BreakStatement])]"

definition loopExampleCode :: "ConstantPool ByteCode" where
  "loopExampleCode =
     \<lparr> instructions =
         [\<lparr> opcode = PUSH, operand = Some 0 \<rparr>,
          \<lparr> opcode = JNF, operand = Some 5 \<rparr>,
          \<lparr> opcode = JMP, operand = Some 4 \<rparr>,
          \<lparr> opcode = JMP, operand = Some 5 \<rparr>,
          \<lparr> opcode = JMP, operand = Some 0 \<rparr>,
          \<lparr> opcode = HALT, operand = None \<rparr>],
       constantPool = \<lparr> constants = [CBool True], indices = [(CBool True, 0)] \<rparr> \<rparr>"

definition bareExample :: node where
  "bareExample =
     Program [IfStatement (Identifier ''x'') (BlockStatement [BreakStatement]) None]"

definition inLoop :: Compiler where
  "inLoop = newCompiler\<lparr> loopStack := [\<lparr> breakTargets = [], continueTargets = [] \<rparr>] \<rparr>"

definition emitsJump :: "node \<Rightarrow> Compiler \<Rightarrow> bool" where
  "emitsJump n c =
     (case compileNode n c of
        Inl e \<Rightarrow> False
      | Inr c' \<Rightarrow> instructions (cbytecode c')
                  = instructions (cbytecode c) @ [\<lparr> opcode = JMP, operand = Some 0 \<rparr>])"


section \<open>Constant pool: results\<close>

text \<open>
  C7 (failing input). After the string \<open>null\<close> has been pooled, adding the value
  \<open>null\<close> returns the index of that string, and reading the index back yields the
  string, not \<open>null\<close>.
\<close>

theorem C7_null_collides_with_string:
  "fst (ConstantPool_add (snd (ConstantPool_add emptyPool (CString ''null''))) CNull) = 0
   \<and> ConstantPool_get (snd (ConstantPool_add (snd (ConstantPool_add emptyPool (CString ''null''))) CNull)) 0
       = Inr (CString ''null'')"
  by (simp add: ConstantPool_add_def ConstantPool_get_def emptyPool_def)


section \<open>DIV\<close>

text \<open>
  C2 (counterexample). Dividing \<open>1\<close> by \<open>0\<close> fails with the division-by-zero error;
  nothing is pushed.
\<close>

theorem C2_div_by_zero_fails:
  "executeInstruction exampleHost \<lparr> opcode = DIV, operand = None \<rparr>
     ((newVirtualMachine [])\<lparr> stack := [Number (Fin 0), Number (Fin 1)] \<rparr>) = Inl DivisionByZero"
  by (simp add: executeInstruction_def executeDiv_def pop_def)

text \<open>
  C2 (amended). Whatever the host, the machine and the dividend, \<open>DIV\<close> with the number
  zero on top of the stack, positive or negative, raises the division-by-zero error.
\<close>

theorem C2_div_zero_divisor_raises:
  "executeInstruction h \<lparr> opcode = DIV, operand = k \<rparr> (vm\<lparr> stack := Number (Fin 0) # st \<rparr>)
     = Inl DivisionByZero
   \<and> executeInstruction h \<lparr> opcode = DIV, operand = k \<rparr> (vm\<lparr> stack := Number NegZero # st \<rparr>)
     = Inl DivisionByZero"
  by (simp add: executeInstruction_def executeDiv_def pop_def split: prod.splits list.splits)

section \<open>The result of execute\<close>

text \<open>
  C6 (failing input). The program that pushes \<open>5\<close> and pops it leaves the instruction
  range with an empty stack, and \<open>execute\<close> returns \<open>5\<close>, the value of the last
  instruction, not \<open>undefined\<close>.
\<close>

theorem C6_empty_stack_returns_last_result:
  "map_sum id fst (execute exampleHost (newVirtualMachine []) popProgram [] True)
     = Inr (Number (Fin 5))"
  by (simp add: execute_def prepare_def resetGlobalsOf_def newVirtualMachine_def popProgram_def
        alloc_def runLoop.simps executeInstruction_def executePush_def executePop_def
        getConstant_def Let_def)

section \<open>The instruction budget\<close>

text \<open>
  A run that keeps an invariant under which the next instruction always exists, is not
  \<open>HALT\<close> and succeeds, ends with the budget error for the bound in force.
\<close>

lemma runLoop_budget:
  assumes step: "\<And>vm. I vm \<Longrightarrow>
        0 \<le> pc vm \<and> pc vm < int (length (instructions (bytecode vm)))
        \<and> opcode (instructions (bytecode vm) ! nat (pc vm)) \<noteq> HALT
        \<and> (\<exists>r vm'. executeInstruction h (instructions (bytecode vm) ! nat (pc vm)) vm = Inr (r, vm')
                    \<and> I (vm'\<lparr> pc := pc vm' + 1 \<rparr>))"
    and count: "\<And>vm n. I (vm\<lparr> instructionCount := n \<rparr>) = I vm"
  shows "I vm \<Longrightarrow> instructionCount vm \<le> maxInstructions vm
         \<Longrightarrow> runLoop h vm res = Inl (BudgetExceeded (maxInstructions vm))"
proof (induction "Suc (maxInstructions vm) - instructionCount vm" arbitrary: vm res)
  case 0
  then show ?case by simp
next
  case (Suc k)
  let ?vm1 = "vm\<lparr> instructionCount := instructionCount vm + 1 \<rparr>"
  have I1: "I ?vm1" using Suc.prems(1) count by simp
  from step[OF I1] obtain r vm' where
    rng: "0 \<le> pc vm" "pc vm < int (length (instructions (bytecode vm)))"
    and nh: "opcode (instructions (bytecode vm) ! nat (pc vm)) \<noteq> HALT"
    and ex: "executeInstruction h (instructions (bytecode vm) ! nat (pc vm)) ?vm1 = Inr (r, vm')"
    and I': "I (vm'\<lparr> pc := pc vm' + 1 \<rparr>)"
    by auto
  have same: "sameSetup ?vm1 vm'" using ex by (rule executeInstruction_setup)
  show ?case
  proof (cases "instructionCount vm + 1 > maxInstructions vm")
    case True
    then show ?thesis using rng by (simp add: runLoop.simps[of h vm])
  next
    case False
    have "runLoop h (vm'\<lparr> pc := pc vm' + 1 \<rparr>) r
            = Inl (BudgetExceeded (maxInstructions (vm'\<lparr> pc := pc vm' + 1 \<rparr>)))"
      using Suc.hyps(2) False same I' by (intro Suc.hyps(1)) (auto simp: sameSetup_def)
    then show ?thesis using rng nh ex False same
      by (simp add: runLoop.simps[of h vm] sameSetup_def)
  qed
qed

lemma whileTrue_step:
  assumes "whileTrueInv vm"
  shows "0 \<le> pc vm \<and> pc vm < int (length (instructions (bytecode vm)))
        \<and> opcode (instructions (bytecode vm) ! nat (pc vm)) \<noteq> HALT
        \<and> (\<exists>r vm'. executeInstruction h (instructions (bytecode vm) ! nat (pc vm)) vm = Inr (r, vm')
                    \<and> whileTrueInv (vm'\<lparr> pc := pc vm' + 1 \<rparr>))"
proof -
  from assms have bc: "bytecode vm = whileTrueProgram" by (simp add: whileTrueInv_def)
  from assms consider "pc vm = 0" | "pc vm = 2" | st where "pc vm = 1" "stack vm = Bool True # st"
    by (cases "stack vm") (auto simp: whileTrueInv_def)
  then show ?thesis
  proof cases
    case 1
    then show ?thesis using bc
      by (simp add: whileTrueProgram_def whileTrueInv_def executeInstruction_def executePush_def
            getConstant_def)
  next
    case 2
    then show ?thesis using bc
      by (simp add: whileTrueProgram_def whileTrueInv_def executeInstruction_def executeJmp_def
            jumpTarget_def)
  next
    case 3
    then show ?thesis using bc
      by (simp add: whileTrueProgram_def whileTrueInv_def executeInstruction_def executeJnf_def
            pop_def)
  qed
qed

lemma whileTrue_never_halts:
  assumes "whileTrueInv vm" and "instructionCount vm \<le> maxInstructions vm"
  shows "runLoop h vm res = Inl (BudgetExceeded (maxInstructions vm))"
  using assms(1) assms(2)
proof (rule runLoop_budget[where I = whileTrueInv, rotated 2])
  show "\<And>vm. whileTrueInv vm \<Longrightarrow>
        0 \<le> pc vm \<and> pc vm < int (length (instructions (bytecode vm)))
        \<and> opcode (instructions (bytecode vm) ! nat (pc vm)) \<noteq> HALT
        \<and> (\<exists>r vm'. executeInstruction h (instructions (bytecode vm) ! nat (pc vm)) vm = Inr (r, vm')
                    \<and> whileTrueInv (vm'\<lparr> pc := pc vm' + 1 \<rparr>))"
    by (rule whileTrue_step)
  show "\<And>vm n. whileTrueInv (vm\<lparr> instructionCount := n \<rparr>) = whileTrueInv vm"
    by (simp add: whileTrueInv_def)
qed

lemma prepare_fields:
  "bytecode (prepare vm bc ctx rg) = bc \<and> pc (prepare vm bc ctx rg) = 0
   \<and> instructionCount (prepare vm bc ctx rg) = 0 \<and> maxInstructions (prepare vm bc ctx rg) = 200000"
  by (simp add: prepare_def resetGlobalsOf_def alloc_def Let_def)

text \<open>
  C3 (failing input). Whatever bound \<open>n\<close> was set with \<open>setMaxInstructions\<close>, whatever
  the host, the context and the reset flag, running \<open>while (true) {}\<close> ends with the
  budget error for the bound 200000: \<open>execute\<close> overwrites the configured bound.
\<close>

theorem C3_budget_ignores_setMaxInstructions:
  "execute h (setMaxInstructions vm n) whileTrueProgram ctx rg = Inl (BudgetExceeded 200000)"
proof -
  let ?p = "prepare (setMaxInstructions vm n) whileTrueProgram ctx rg"
  have f: "bytecode ?p = whileTrueProgram" "pc ?p = 0" "instructionCount ?p = 0"
          "maxInstructions ?p = 200000"
    using prepare_fields[of "setMaxInstructions vm n" whileTrueProgram ctx rg] by auto
  have "runLoop h ?p Undefined = Inl (BudgetExceeded (maxInstructions ?p))"
    by (rule whileTrue_never_halts) (simp_all add: whileTrueInv_def f)
  then show ?thesis by (simp add: execute_def f)
qed

section \<open>LOAD\<close>





section \<open>Capture on return and closure isolation\<close>







lemma map_of_mapSet: "map_of (mapSet m k v) = (map_of m)(k \<mapsto> v)"
  by (induction m) auto

lemma mapHas_mapSet: "mapHas (mapSet m k v) n = (n = k \<or> mapHas m n)"
  by (simp add: mapHas_def map_of_mapSet)































section \<open>Break and continue compile to jumps\<close>

subsection \<open>Effects of the compiler's actions\<close>

lemma effectD: "effect a f \<Longrightarrow> a c = Inr c' \<Longrightarrow> shape c' = f (shape c)"
  by (simp add: effect_def)

lemma effectI: "(\<And>c c'. a c = Inr c' \<Longrightarrow> shape c' = f (shape c)) \<Longrightarrow> effect a f"
  by (simp add: effect_def)

lemma effect_eq: "effect a f \<Longrightarrow> (\<And>x. f x = g x) \<Longrightarrow> effect a g"
  by (simp add: effect_def)

lemma E_Inr: "effect Inr (\<lambda>x. x)"
  by (rule effectI) simp

lemma E_fail: "effect (\<lambda>c. Inl e) f"
  by (rule effectI) simp

lemma E_andThen: "effect a f \<Longrightarrow> effect b g \<Longrightarrow> effect (andThen a b) (\<lambda>x. g (f x))"
proof (rule effectI)
  fix c c' assume a: "effect a f" and b: "effect b g" and run: "andThen a b c = Inr c'"
  from run obtain c1 where 1: "a c = Inr c1" and 2: "b c1 = Inr c'"
    by (auto simp: andThen_def split: sum.splits)
  show "shape c' = g (f (shape c))"
    using effectD[OF a 1] effectD[OF b 2] by simp
qed

lemma E_inOrder_Nil: "effect (inOrder []) (\<lambda>x. x)"
  by (simp add: E_Inr)

lemma E_inOrder_Cons:
  "effect a f \<Longrightarrow> effect (inOrder as) g \<Longrightarrow> effect (inOrder (a # as)) (\<lambda>x. g (f x))"
  by (simp add: E_andThen)

lemma E_inOrder_map:
  "(\<And>x. x \<in> set xs \<Longrightarrow> effect (F x) (\<lambda>x. x)) \<Longrightarrow> effect (inOrder (map F xs)) (\<lambda>x. x)"
proof (induction xs)
  case Nil
  then show ?case by (simp add: E_Inr)
next
  case (Cons y ys)
  have "effect (andThen (F y) (inOrder (map F ys))) (\<lambda>x. (\<lambda>x. x) ((\<lambda>x. x) x))"
    by (rule E_andThen) (simp_all add: Cons)
  then show ?case by simp
qed

lemma E_inOrder_rev:
  "effect (inOrder as) (\<lambda>x. x) \<Longrightarrow> effect (inOrder (rev as)) (\<lambda>x. x)" if "list_all (\<lambda>a. effect a (\<lambda>x. x)) as"
  using that
  by (intro E_inOrder_map[where F = "\<lambda>a. a" and xs = "rev as", simplified])
     (simp add: list_all_iff)

lemma E_if: "effect a f \<Longrightarrow> effect b f \<Longrightarrow> effect (if t then a else b) f"
  by simp

lemma E_atAddress: "(\<And>n. effect (F n) g) \<Longrightarrow> effect (atAddress F) g"
  by (rule effectI) (auto simp: atAddress_def dest: effectD)

lemma shape_pool: "shape (c\<lparr> cbytecode := (cbytecode c)\<lparr> constantPool := p \<rparr> \<rparr>) = shape c"
  by (simp add: shape_def)

lemma E_withConstant: "(\<And>i. effect (F i) g) \<Longrightarrow> effect (withConstant v F) g"
proof (rule effectI)
  fix c c' assume F: "\<And>i. effect (F i) g" and run: "withConstant v F c = Inr c'"
  obtain i p where ip: "ConstantPool_add (constantPool (cbytecode c)) v = (i, p)"
    by (cases "ConstantPool_add (constantPool (cbytecode c)) v")
  then have "F i (c\<lparr> cbytecode := (cbytecode c)\<lparr> constantPool := p \<rparr> \<rparr>) = Inr c'"
    using run by (simp add: withConstant_def)
  from effectD[OF F this] show "shape c' = g (shape c)" by (simp add: shape_pool)
qed

lemma E_addInstruction:
  "oc \<noteq> BREAK \<and> oc \<noteq> CONTINUE \<Longrightarrow> effect (addInstruction oc k) (\<lambda>x. x)"
  by (rule effectI) (auto simp: addInstruction_def shape_def noBreakOps_def)

lemma E_addInstructionWithConstant:
  "oc \<noteq> BREAK \<and> oc \<noteq> CONTINUE \<Longrightarrow> effect (addInstructionWithConstant oc v) (\<lambda>x. x)"
  unfolding addInstructionWithConstant_def
  by (rule E_withConstant) (rule E_addInstruction)

lemma noBreakOps_patch:
  "a < length is \<Longrightarrow> noBreakOps (is[a := (is ! a)\<lparr> operand := k \<rparr>]) = noBreakOps is"
proof -
  assume a: "a < length is"
  have "map opcode (is[a := (is ! a)\<lparr> operand := k \<rparr>]) = map opcode is"
    using a by (simp add: list_eq_iff_nth_eq nth_list_update)
  moreover have "\<And>xs. noBreakOps xs = list_all (\<lambda>oc. oc \<noteq> BREAK \<and> oc \<noteq> CONTINUE) (map opcode xs)"
    by (simp add: noBreakOps_def list_all_iff)
  ultimately show ?thesis by simp
qed

lemma E_patchInstruction: "effect (patchInstruction a t) (\<lambda>x. x)"
  by (rule effectI)
     (auto simp: patchInstruction_def shape_def noBreakOps_patch split: if_splits)

lemma E_patchAllHere: "effect (patchAllHere ts) (\<lambda>x. x)"
  unfolding patchAllHere_def
  by (intro E_atAddress E_inOrder_map E_patchInstruction)

lemma E_scope: "effect enterScope (\<lambda>x. x)" "effect exitScope (\<lambda>x. x)"
  "effect (declareVariable n) (\<lambda>x. x)"
  by (rule effectI; auto simp: enterScope_def exitScope_def declareVariable_def shape_def
        split: if_splits)+

lemma E_targets: "effect (addBreakTarget j) (\<lambda>x. x)" "effect (addContinueTarget j) (\<lambda>x. x)"
  by (rule effectI; auto simp: addBreakTarget_def addContinueTarget_def shape_def
        split: list.splits)+

lemma E_patchLoop: "effect patchContinues (\<lambda>x. x)" "effect patchBreaks (\<lambda>x. x)"
  "effect patchSwitchBreaks (\<lambda>x. x)"
  by (rule effectI;
      auto simp: patchContinues_def patchBreaks_def patchSwitchBreaks_def withLoopContext_def
           split: list.splits dest: effectD[OF E_patchAllHere])+

lemma E_stacks: "effect pushLoop pushL" "effect popLoop popL" "effect pushSwitch pushS"
  "effect popSwitch popS"
  by (rule effectI;
      auto simp: pushLoop_def popLoop_def pushSwitch_def popSwitch_def shape_def
                 pushL_def popL_def pushS_def popS_def)+

lemma E_emit:
  "effect (addInstruction PUSH k) (\<lambda>x. x)"
  "effect (addInstruction POP k) (\<lambda>x. x)"
  "effect (addInstruction DUP k) (\<lambda>x. x)"
  "effect (addInstruction ADD k) (\<lambda>x. x)"
  "effect (addInstruction SUB k) (\<lambda>x. x)"
  "effect (addInstruction MUL k) (\<lambda>x. x)"
  "effect (addInstruction DIV k) (\<lambda>x. x)"
  "effect (addInstruction MOD k) (\<lambda>x. x)"
  "effect (addInstruction NEG k) (\<lambda>x. x)"
  "effect (addInstruction SHL k) (\<lambda>x. x)"
  "effect (addInstruction SHR k) (\<lambda>x. x)"
  "effect (addInstruction USHR k) (\<lambda>x. x)"
  "effect (addInstruction BIT_AND k) (\<lambda>x. x)"
  "effect (addInstruction BIT_OR k) (\<lambda>x. x)"
  "effect (addInstruction BIT_XOR k) (\<lambda>x. x)"
  "effect (addInstruction BIT_NOT k) (\<lambda>x. x)"
  "effect (addInstruction EQ k) (\<lambda>x. x)"
  "effect (addInstruction NE k) (\<lambda>x. x)"
  "effect (addInstruction LT k) (\<lambda>x. x)"
  "effect (addInstruction LE k) (\<lambda>x. x)"
  "effect (addInstruction GT k) (\<lambda>x. x)"
  "effect (addInstruction GE k) (\<lambda>x. x)"
  "effect (addInstruction AND k) (\<lambda>x. x)"
  "effect (addInstruction OR k) (\<lambda>x. x)"
  "effect (addInstruction NOT k) (\<lambda>x. x)"
  "effect (addInstruction TYPEOF k) (\<lambda>x. x)"
  "effect (addInstruction LOAD k) (\<lambda>x. x)"
  "effect (addInstruction STORE k) (\<lambda>x. x)"
  "effect (addInstruction DECLARE k) (\<lambda>x. x)"
  "effect (addInstruction JMP k) (\<lambda>x. x)"
  "effect (addInstruction JIF k) (\<lambda>x. x)"
  "effect (addInstruction JNF k) (\<lambda>x. x)"
  "effect (addInstruction CALL k) (\<lambda>x. x)"
  "effect (addInstruction CALL_METHOD k) (\<lambda>x. x)"
  "effect (addInstruction RET k) (\<lambda>x. x)"
  "effect (addInstruction ENTER k) (\<lambda>x. x)"
  "effect (addInstruction LEAVE k) (\<lambda>x. x)"
  "effect (addInstruction NEW_OBJ k) (\<lambda>x. x)"
  "effect (addInstruction GET_PROP k) (\<lambda>x. x)"
  "effect (addInstruction SET_PROP k) (\<lambda>x. x)"
  "effect (addInstruction NEW k) (\<lambda>x. x)"
  "effect (addInstruction NEW_ARR k) (\<lambda>x. x)"
  "effect (addInstruction GET_ELEM k) (\<lambda>x. x)"
  "effect (addInstruction SET_ELEM k) (\<lambda>x. x)"
  "effect (addInstruction THROW k) (\<lambda>x. x)"
  "effect (addInstruction TRY k) (\<lambda>x. x)"
  "effect (addInstruction CATCH k) (\<lambda>x. x)"
  "effect (addInstruction FINALLY k) (\<lambda>x. x)"
  "effect (addInstruction END_TRY k) (\<lambda>x. x)"
  "effect (addInstruction NOP k) (\<lambda>x. x)"
  "effect (addInstruction HALT k) (\<lambda>x. x)"
  by (simp_all add: E_addInstruction)

lemma E_emitConst:
  "effect (addInstructionWithConstant PUSH v) (\<lambda>x. x)"
  "effect (addInstructionWithConstant LOAD v) (\<lambda>x. x)"
  "effect (addInstructionWithConstant STORE v) (\<lambda>x. x)"
  "effect (addInstructionWithConstant DECLARE v) (\<lambda>x. x)"
  "effect (addInstructionWithConstant CALL v) (\<lambda>x. x)"
  "effect (addInstructionWithConstant CALL_METHOD v) (\<lambda>x. x)"
  "effect (addInstructionWithConstant NEW v) (\<lambda>x. x)"
  by (simp_all add: E_addInstructionWithConstant)

lemmas E_basic =
  E_Inr E_fail E_andThen E_inOrder_Nil E_inOrder_Cons E_if E_atAddress E_withConstant
  E_emit E_emitConst E_patchInstruction E_patchAllHere
  E_scope E_targets E_patchLoop E_stacks

lemma E_case_option:
  "effect a f \<Longrightarrow> (\<And>x. effect (b x) f) \<Longrightarrow> effect (case v of None \<Rightarrow> a | Some x \<Rightarrow> b x) f"
  by (cases v) simp_all

lemma E_case_prod: "(\<And>x y. effect (b x y) f) \<Longrightarrow> effect (case v of (x, y) \<Rightarrow> b x y) f"
  by (cases v) simp

lemma E_case_sum:
  "(\<And>x. effect (a x) f) \<Longrightarrow> (\<And>y. effect (b y) f)
   \<Longrightarrow> effect (case v of Inl x \<Rightarrow> a x | Inr y \<Rightarrow> b y) f"
  by (cases v) simp_all

lemma E_case_list:
  "effect a f \<Longrightarrow> (\<And>x xs. effect (b x xs) f)
   \<Longrightarrow> effect (case v of [] \<Rightarrow> a | x # xs \<Rightarrow> b x xs) f"
  by (cases v) simp_all

lemmas E_rules = E_basic E_case_option E_case_prod E_case_sum E_case_list

subsection \<open>Every handler is steady\<close>

lemma steady_inOrder: "list_all steady as \<Longrightarrow> steady (inOrder as)"
  unfolding steady_def
  using E_inOrder_map[where F = "\<lambda>a. a" and xs = as] by (simp add: list_all_iff)

lemma steady_program: "list_all (\<lambda>(e, a). steady a) body \<Longrightarrow> steady (compileProgram body)"
proof (induction body)
  case Nil
  then show ?case by (simp add: steady_def E_Inr)
next
  case (Cons x rest)
  obtain e a where x: "x = (e, a)" by (cases x)
  have a: "effect a (\<lambda>x. x)" and r: "effect (compileProgram rest) (\<lambda>x. x)"
    using Cons x by (simp_all add: steady_def)
  show ?case unfolding steady_def x compileProgram.simps
    by (rule E_rules a r)+
qed

lemma E_inOrder_map_prod:
  "(\<And>a b. (a, b) \<in> set xs \<Longrightarrow> effect (F a b) (\<lambda>x. x))
   \<Longrightarrow> effect (inOrder (map (\<lambda>(a, b). F a b) xs)) (\<lambda>x. x)"
  by (rule E_inOrder_map) auto

lemma steady_block: "list_all (\<lambda>(e, a). steady a) body \<Longrightarrow> steady (compileBlockStatement body)"
proof -
  assume b: "list_all (\<lambda>(e, a). steady a) body"
  have el: "\<And>e a. (e, a) \<in> set body \<Longrightarrow>
              effect (andThen a (if e then addInstruction POP None else Inr)) (\<lambda>x. x)"
  proof -
    fix e a assume "(e, a) \<in> set body"
    then have "effect a (\<lambda>x. x)" using b by (auto simp: list_all_iff steady_def)
    then show "effect (andThen a (if e then addInstruction POP None else Inr)) (\<lambda>x. x)"
      by - (assumption | rule E_rules)+
  qed
  show ?thesis unfolding steady_def compileBlockStatement_def
    by (assumption | rule E_rules E_inOrder_map_prod el)+
qed

lemma steady_simple:
  "steady (compileLiteral v)" "steady (compileRegExpLiteral p fl)" "steady (compileIdentifier n)"
  "steady compileThisExpression" "steady compileDebuggerStatement"
  unfolding steady_def compileLiteral_def compileRegExpLiteral_def compileIdentifier_def
    compileThisExpression_def compileDebuggerStatement_def
  by (rule E_rules)+

lemma steady_templateParts:
  assumes "list_all steady es" and "\<And>b. steady (k b)"
  shows "steady (templateParts qs es isFirst k)"
  using assms(1)
proof (induction qs arbitrary: es isFirst)
  case Nil
  then show ?case using assms(2) by simp
next
  case (Cons q qs)
  show ?case
  proof (cases es)
    case Nil
    have "list_all steady ([] :: action list)" by simp
    note Cons.IH[OF this]
    then have ih: "\<And>b. effect (templateParts qs [] b k) (\<lambda>x. x)"
      unfolding steady_def .
    show ?thesis unfolding steady_def Nil templateParts.simps Let_def list.case
      by (rule E_rules ih)+
  next
    case (Cons e es')
    have e: "effect e (\<lambda>x. x)" using Cons.prems Cons by (simp add: steady_def)
    have es': "list_all steady es'" using Cons.prems Cons by simp
    have ih: "\<And>b. effect (templateParts qs es' b k) (\<lambda>x. x)"
      using Cons.IH[OF es'] unfolding steady_def .
    show ?thesis unfolding steady_def Cons templateParts.simps Let_def list.case
      by (rule E_rules ih e)+
  qed
qed

lemma steady_template: "list_all steady es \<Longrightarrow> steady (compileTemplateLiteral qs es)"
proof -
  assume es: "list_all steady es"
  have k: "\<And>b. steady (if b then addInstructionWithConstant PUSH (CString []) else Inr)"
    unfolding steady_def by (rule E_rules)+
  have t: "effect (templateParts qs es True
          (\<lambda>isFirst. if isFirst then addInstructionWithConstant PUSH (CString []) else Inr))
          (\<lambda>x. x)"
    using steady_templateParts[OF es k] by (simp add: steady_def)
  show ?thesis
    unfolding compileTemplateLiteral_def steady_def
    by (rule E_rules t)+
qed

lemma table_plain:
  "map_of binaryOps operator = Some oc \<Longrightarrow> oc \<noteq> BREAK \<and> oc \<noteq> CONTINUE"
  "map_of unaryOps operator = Some oc \<Longrightarrow> oc \<noteq> BREAK \<and> oc \<noteq> CONTINUE"
  "map_of compoundOps operator = Some oc \<Longrightarrow> oc \<noteq> BREAK \<and> oc \<noteq> CONTINUE"
  by (auto simp: binaryOps_def unaryOps_def compoundOps_def split: if_splits)

lemma E_table:
  "effect (case map_of binaryOps operator of Some oc \<Rightarrow> addInstruction oc None
           | None \<Rightarrow> (\<lambda>c. Inl e)) (\<lambda>x. x)"
  "effect (case map_of compoundOps operator of Some oc \<Rightarrow> addInstruction oc None
           | None \<Rightarrow> (\<lambda>c. Inl e)) (\<lambda>x. x)"
  by (auto split: option.splits intro: E_fail E_addInstruction dest: table_plain)

lemma steady_binary:
  "steady l \<Longrightarrow> steady r \<Longrightarrow> steady (compileBinaryExpression operator l r)"
  unfolding steady_def compileBinaryExpression_def
  by (assumption | rule E_rules E_table)+

lemma steady_logical:
  "steady l \<Longrightarrow> steady r \<Longrightarrow> steady (compileLogicalExpression operator l r)"
  unfolding steady_def compileLogicalExpression_def
  by (assumption | rule E_rules)+

lemma steady_unary: "steady a \<Longrightarrow> steady (compileUnaryExpression operator a)"
proof -
  assume a: "steady a"
  have "effect (case map_of unaryOps operator of
          Some oc \<Rightarrow> addInstruction oc None
        | None \<Rightarrow>
            (if operator = ''void'' then
               inOrder [addInstruction POP None, addInstructionWithConstant PUSH CUndefined]
             else if operator = ''delete'' then
               inOrder [addInstruction POP None, addInstructionWithConstant PUSH (CBool True)]
             else (\<lambda>c. Inl (UnsupportedUnaryOperator operator)))) (\<lambda>x. x)"
  proof (cases "map_of unaryOps operator")
    case None
    show ?thesis unfolding None option.case by (rule E_rules)+
  next
    case (Some oc)
    show ?thesis unfolding Some option.case
      using table_plain(2)[OF Some] by (rule E_addInstruction)
  qed
  then show ?thesis using a unfolding steady_def compileUnaryExpression_def
    by - (assumption | rule E_rules)+
qed

lemma E_storeMember:
  "effect ob (\<lambda>x. x) \<Longrightarrow> effect pr (\<lambda>x. x) \<Longrightarrow> effect (storeMember ob computed pr n) (\<lambda>x. x)"
  unfolding storeMember_def by (assumption | rule E_rules)+

lemma E_step: "effect (addInstruction (if t then ADD else SUB) k) (\<lambda>x. x)"
  by (simp add: E_emit)

lemma steady_update: "steadyTarget tg \<Longrightarrow> steady (compileUpdateExpression operator prefix tg)"
proof (cases tg)
  case (IdentifierTarget n)
  show ?thesis unfolding steady_def compileUpdateExpression_def Let_def IdentifierTarget target.case
    by (rule E_rules E_step)+
next
  case (MemberTarget m ob computed pr n)
  assume "steadyTarget tg"
  then have m: "effect m (\<lambda>x. x)" "effect ob (\<lambda>x. x)" "effect pr (\<lambda>x. x)"
    using MemberTarget by (simp_all add: steady_def)
  show ?thesis unfolding steady_def compileUpdateExpression_def Let_def MemberTarget target.case
    by (rule E_rules E_step E_storeMember m)+
next
  case OtherTarget
  show ?thesis unfolding steady_def compileUpdateExpression_def Let_def OtherTarget target.case
    by (rule E_rules)+
qed

lemma steady_assignment:
  assumes "steady l" and "steadyTarget tg" and "steady r"
  shows "steady (compileAssignmentExpression operator l tg r)"
proof -
  have l: "effect l (\<lambda>x. x)" and r: "effect r (\<lambda>x. x)"
    using assms by (simp_all add: steady_def)
  show ?thesis
  proof (cases tg)
    case (IdentifierTarget n)
    show ?thesis
      unfolding steady_def compileAssignmentExpression_def Let_def IdentifierTarget target.case
      by (rule E_rules E_table l r)+
  next
    case (MemberTarget m ob computed pr n)
    then have m: "effect ob (\<lambda>x. x)" "effect pr (\<lambda>x. x)"
      using assms(2) by (simp_all add: steady_def)
    show ?thesis
      unfolding steady_def compileAssignmentExpression_def Let_def MemberTarget target.case
      by (rule E_rules E_table E_storeMember l r m)+
  next
    case OtherTarget
    show ?thesis
      unfolding steady_def compileAssignmentExpression_def Let_def OtherTarget target.case
      by (rule E_rules E_table l r)+
  qed
qed

lemma steady_conditional:
  "steady t \<Longrightarrow> steady c \<Longrightarrow> steady a \<Longrightarrow> steady (compileConditionalExpression t c a)"
  unfolding steady_def compileConditionalExpression_def
  by (assumption | rule E_rules)+

lemma steady_sequence: "list_all steady es \<Longrightarrow> steady (compileSequenceExpression es)"
proof (induction es)
  case Nil
  then show ?case by (simp add: steady_def E_Inr)
next
  case (Cons e rest)
  have e: "effect e (\<lambda>x. x)" using Cons.prems by (simp add: steady_def)
  have "list_all steady rest" using Cons.prems by simp
  note Cons.IH[OF this]
  then have r: "effect (compileSequenceExpression rest) (\<lambda>x. x)" unfolding steady_def .
  show ?case unfolding steady_def compileSequenceExpression.simps
    by (rule E_rules e r)+
qed

lemma E_args: "list_all steady args \<Longrightarrow> effect (inOrder (rev args)) (\<lambda>x. x)"
  using E_inOrder_map[where F = "\<lambda>a. a" and xs = "rev args"]
  by (simp add: list_all_iff steady_def)

lemma steady_call:
  assumes "list_all steady args" and "steadyCallee f"
  shows "steady (compileCallExpression args f)"
proof (cases f)
  case (MemberCallee ob computed pr n)
  then have m: "effect ob (\<lambda>x. x)" "effect pr (\<lambda>x. x)"
    using assms(2) by (simp_all add: steady_def)
  show ?thesis unfolding steady_def compileCallExpression_def MemberCallee callee.case
    by (rule E_rules E_args[OF assms(1)] m)+
next
  case (PlainCallee g)
  then have g: "effect g (\<lambda>x. x)" using assms(2) by (simp add: steady_def)
  show ?thesis unfolding steady_def compileCallExpression_def PlainCallee callee.case
    by (rule E_rules E_args[OF assms(1)] g)+
qed

lemma steady_new:
  assumes "list_all steady args" and "steady f"
  shows "steady (compileNewExpression args f)"
  unfolding steady_def compileNewExpression_def
  by (rule E_rules E_args[OF assms(1)] assms(2)[unfolded steady_def])+

lemma steady_member:
  "steady ob \<Longrightarrow> steady pr \<Longrightarrow> steady (compileMemberExpression ob computed pr n)"
  unfolding steady_def compileMemberExpression_def
  by (assumption | rule E_rules)+

lemma steady_array:
  assumes "list_all (\<lambda>e. case e of None \<Rightarrow> True | Some a \<Rightarrow> steady a) elements"
  shows "steady (compileArrayExpression elements)"
proof -
  have el: "\<And>x. x \<in> set elements \<Longrightarrow>
      effect (case x of Some e \<Rightarrow> e | None \<Rightarrow> addInstructionWithConstant PUSH CUndefined)
        (\<lambda>x. x)"
    using assms by (auto simp: list_all_iff steady_def E_emitConst split: option.splits)
  show ?thesis unfolding steady_def compileArrayExpression_def
    by (rule E_rules E_inOrder_map el | assumption)+
qed

lemma steady_object:
  assumes "list_all (\<lambda>(v, key). steady v \<and> (case key of Inl n \<Rightarrow> True | Inr k \<Rightarrow> steady k))
             properties"
  shows "steady (compileObjectExpression properties)"
proof -
  have el: "\<And>v key. (v, key) \<in> set properties \<Longrightarrow>
      effect (andThen v (case key of
                           Inl keyName \<Rightarrow> addInstructionWithConstant PUSH (CString keyName)
                         | Inr k \<Rightarrow> k)) (\<lambda>x. x)"
  proof -
    fix v key assume "(v, key) \<in> set properties"
    then have vk: "steady v \<and> (case key of Inl n \<Rightarrow> True | Inr k \<Rightarrow> steady k)"
      using assms by (auto simp: list_all_iff)
    then have v: "effect v (\<lambda>x. x)" by (simp add: steady_def)
    have k: "effect (case key of
                           Inl keyName \<Rightarrow> addInstructionWithConstant PUSH (CString keyName)
                         | Inr k \<Rightarrow> k) (\<lambda>x. x)"
      using vk by (cases key) (simp_all add: steady_def E_emitConst)
    show "effect (andThen v (case key of
                           Inl keyName \<Rightarrow> addInstructionWithConstant PUSH (CString keyName)
                         | Inr k \<Rightarrow> k)) (\<lambda>x. x)"
      by (rule E_andThen[where f = "\<lambda>x. x" and g = "\<lambda>x. x", OF v k])
  qed
  show ?thesis unfolding steady_def compileObjectExpression_def
    by (rule E_rules E_inOrder_map_prod el | assumption)+
qed

lemma steady_variables:
  assumes "list_all (\<lambda>(n, init). case init of None \<Rightarrow> True | Some a \<Rightarrow> steady a) ds"
  shows "steady (compileVariableDeclaration ds)"
proof -
  have el: "\<And>n init. (n, init) \<in> set ds \<Longrightarrow>
      effect (inOrder [declareVariable n,
                       (case init of
                          Some i \<Rightarrow> i
                        | None \<Rightarrow> addInstructionWithConstant PUSH CUndefined),
                       addInstructionWithConstant DECLARE (CString n)]) (\<lambda>x. x)"
  proof -
    fix n init assume "(n, init) \<in> set ds"
    then have i: "effect (case init of
                          Some i \<Rightarrow> i
                        | None \<Rightarrow> addInstructionWithConstant PUSH CUndefined) (\<lambda>x. x)"
      using assms by (auto simp: list_all_iff steady_def E_emitConst split: option.splits)
    show "effect (inOrder [declareVariable n,
                       (case init of
                          Some i \<Rightarrow> i
                        | None \<Rightarrow> addInstructionWithConstant PUSH CUndefined),
                       addInstructionWithConstant DECLARE (CString n)]) (\<lambda>x. x)"
      by (rule i E_inOrder_Cons E_inOrder_Nil E_scope E_emitConst)+
  qed
  show ?thesis unfolding steady_def compileVariableDeclaration_def
    by (rule E_inOrder_map_prod el | assumption)+
qed

lemma steady_function: "steady body \<Longrightarrow> steady (compileFunction fname declared ps body)"
proof -
  assume b: "steady body"
  have inner: "\<And>fi. effect (inOrder [enterScope,
                          inOrder (map declareVariable declared),
                          body,
                          addInstructionWithConstant PUSH CUndefined,
                          addInstruction RET None,
                          exitScope,
                          patchAllHere [jumpIndex],
                          addInstructionWithConstant PUSH (CFunction fi)]) (\<lambda>x. x)" for jumpIndex
    by (rule E_rules E_inOrder_map b[unfolded steady_def])+
  have rest: "effect (\<lambda>c. let funcInfo = \<lparr> fi_name = fname, fi_params = ps,
                               fi_startAddress = getCurrentAddress c,
                               fi_closureScope = captureClosure c \<rparr>
              in inOrder [enterScope,
                          inOrder (map declareVariable declared),
                          body,
                          addInstructionWithConstant PUSH CUndefined,
                          addInstruction RET None,
                          exitScope,
                          patchAllHere [jumpIndex],
                          addInstructionWithConstant PUSH (CFunction funcInfo)] c) (\<lambda>x. x)"
    for jumpIndex
    by (rule effectI) (simp only: Let_def, erule effectD[OF inner])
  show ?thesis unfolding steady_def compileFunction_def
    by (rule E_atAddress E_andThen[where f = "\<lambda>x. x" and g = "\<lambda>x. x"] E_emit rest)+
qed

lemma steady_functionDeclaration:
  "steady body \<Longrightarrow> steady (compileFunctionDeclaration n ps body)"
  using steady_function[of body "Some n" ps ps]
  unfolding steady_def compileFunctionDeclaration_def
  by - (assumption | rule E_rules)+

lemma steady_functionExpression:
  "steady body \<Longrightarrow> steady (compileFunctionExpression n ps body)"
  unfolding compileFunctionExpression_def by (rule steady_function)

lemma steady_return:
  "(case a of None \<Rightarrow> True | Some x \<Rightarrow> steady x) \<Longrightarrow> steady (compileReturnStatement a)"
  unfolding steady_def compileReturnStatement_def
  by (cases a) (simp_all del: inOrder.simps, (assumption | rule E_rules)+)

lemma steady_while:
  assumes "steady t" and "steady b"
  shows "steady (compileWhileStatement t b)"
  unfolding steady_def compileWhileStatement_def
  apply (rule effect_eq)
   apply (rule E_basic assms[unfolded steady_def])+
  apply (simp add: pushL_def popL_def split: prod.splits)
  done

lemma steady_if:
  assumes "steady t" and "steady c" and "case a of None \<Rightarrow> True | Some x \<Rightarrow> steady x"
  shows "steady (compileIfStatement t c a)"
proof (cases a)
  case None
  show ?thesis unfolding steady_def compileIfStatement_def None option.case
    by (rule E_rules assms(1,2)[unfolded steady_def])+
next
  case (Some alt)
  then have alt: "effect alt (\<lambda>x. x)" using assms(3) by (simp add: steady_def)
  show ?thesis unfolding steady_def compileIfStatement_def Some option.case
    by (rule E_rules assms(1,2)[unfolded steady_def] alt)+
qed

lemma loop_balance: "popL (pushL x) = x" "popS (pushS x) = x"
  by (cases x; simp add: pushL_def popL_def pushS_def popS_def)+

lemma steady_doWhile:
  assumes "steady b" and "steady t"
  shows "steady (compileDoWhileStatement b t)"
  unfolding steady_def compileDoWhileStatement_def
  apply (rule effect_eq)
   apply (rule E_rules assms[unfolded steady_def])+
  apply (simp add: loop_balance)
  done

lemma E_optional:
  "(case a of None \<Rightarrow> True | Some x \<Rightarrow> steady x)
   \<Longrightarrow> effect (case a of Some x \<Rightarrow> F x | None \<Rightarrow> Inr) (\<lambda>x. x)"
  if "\<And>x. effect x (\<lambda>x. x) \<Longrightarrow> effect (F x) (\<lambda>x. x)"
  using that by (cases a) (simp_all add: steady_def E_Inr)

lemma steady_for:
  assumes "case init of None \<Rightarrow> True | Some (d, i) \<Rightarrow> steady i"
    and "case t of None \<Rightarrow> True | Some x \<Rightarrow> steady x"
    and "case u of None \<Rightarrow> True | Some x \<Rightarrow> steady x"
    and "steady b"
  shows "steady (compileForStatement init t u b)"
proof -
  have i: "effect (case init of
                 Some (isDeclaration, i) \<Rightarrow>
                   andThen i (if \<not> isDeclaration then addInstruction POP None else Inr)
               | None \<Rightarrow> Inr) (\<lambda>x. x)"
  proof (cases init)
    case None
    then show ?thesis by (simp add: E_Inr)
  next
    case (Some di)
    obtain d i where di: "di = (d, i)" by (cases di)
    then have "effect i (\<lambda>x. x)" using assms(1) Some by (simp add: steady_def)
    then have "effect (andThen i (if \<not> d then addInstruction POP None else Inr)) (\<lambda>x. x)"
      by - (assumption | rule E_rules)+
    then show ?thesis using Some di by simp
  qed
  have t: "effect (case t of
                            Some t \<Rightarrow>
                              andThen t
                                (atAddress (\<lambda>exitJump.
                                   inOrder [addInstruction JNF (Some 0), addBreakTarget exitJump]))
                          | None \<Rightarrow> Inr) (\<lambda>x. x)"
    using assms(2) by (rule E_optional[rotated]) ((assumption | rule E_rules)+)
  have u: "effect (case u of
                            Some u \<Rightarrow> andThen u (addInstruction POP None)
                          | None \<Rightarrow> Inr) (\<lambda>x. x)"
    using assms(3) by (rule E_optional[rotated]) ((assumption | rule E_rules)+)
  show ?thesis
    unfolding steady_def compileForStatement_def
    apply (rule effect_eq)
     apply (rule i t u assms(4)[unfolded steady_def] E_basic)+
    apply (simp add: loop_balance)
    done
qed

lemma steady_forIn:
  assumes "steady r" and "steady b"
  shows "steady (compileForInStatement left r b)"
proof -
  have l: "effect (case left of
                 DeclaredLeft None \<Rightarrow> (\<lambda>c. Inl CompilerHostException)
               | DeclaredLeft (Some varName) \<Rightarrow>
                   inOrder [declareVariable varName,
                            addInstructionWithConstant DECLARE (CString varName)]
               | NamedLeft varName \<Rightarrow> addInstructionWithConstant STORE varName) (\<lambda>x. x)"
  proof (cases left)
    case (DeclaredLeft d)
    show ?thesis
    proof (cases d)
      case None
      then show ?thesis using DeclaredLeft by (simp add: E_fail)
    next
      case (Some varName)
      have "effect (inOrder [declareVariable varName,
                            addInstructionWithConstant DECLARE (CString varName)]) (\<lambda>x. x)"
        by (rule E_rules)+
      then show ?thesis using DeclaredLeft Some by simp
    qed
  next
    case (NamedLeft v)
    then show ?thesis by (simp add: E_emitConst)
  qed
  show ?thesis
    unfolding steady_def compileForInStatement_def
    apply (rule effect_eq)
     apply (rule l assms[unfolded steady_def] E_basic)+
    apply (simp add: loop_balance)
    done
qed

lemma switchTests_shape:
  assumes "list_all (\<lambda>t. case t of None \<Rightarrow> True | Some a \<Rightarrow> steady a) tests"
    and "switchTests tests i cj dj c = Inr (c', cj', dj')"
  shows "shape c' = shape c"
  using assms
proof (induction tests arbitrary: i cj dj c)
  case Nil
  then show ?case by simp
next
  case (Cons t rest)
  have rest: "list_all (\<lambda>t. case t of None \<Rightarrow> True | Some a \<Rightarrow> steady a) rest"
    using Cons.prems(1) by simp
  show ?case
  proof (cases t)
    case None
    then show ?thesis using Cons.prems(2) Cons.IH[OF rest] by simp
  next
    case (Some a)
    then have a: "effect a (\<lambda>x. x)" using Cons.prems(1) by (simp add: steady_def)
    have pre: "effect (inOrder [addInstruction DUP None, a, addInstruction EQ None]) (\<lambda>x. x)"
      by (rule E_rules a)+
    obtain c1 c2 where 1: "inOrder [addInstruction DUP None, a, addInstruction EQ None] c = Inr c1"
      and 2: "addInstruction JIF (Some 0) c1 = Inr c2"
      and 3: "switchTests rest (Suc i) (cj @ [(getCurrentAddress c1, i)]) dj c2 = Inr (c', cj', dj')"
      using Cons.prems(2) Some by (auto simp del: inOrder.simps split: sum.splits)
    have "shape c1 = shape c" using effectD[OF pre 1] by simp
    moreover have "shape c2 = shape c1" using effectD[OF E_emit(31) 2] by simp
    moreover have "shape c' = shape c2" using Cons.IH[OF rest 3] .
    ultimately show ?thesis by simp
  qed
qed

lemma switchBodies_shape:
  assumes "list_all (list_all steady) bodies"
    and "switchBodies bodies ca c = Inr (c', ca')"
  shows "shape c' = shape c"
  using assms
proof (induction bodies arbitrary: ca c)
  case Nil
  then show ?case by simp
next
  case (Cons b rest)
  have b: "list_all steady b" and rest: "list_all (list_all steady) rest"
    using Cons.prems(1) by simp_all
  obtain c1 where 1: "inOrder b c = Inr c1"
    and 2: "switchBodies rest (ca @ [getCurrentAddress c]) c1 = Inr (c', ca')"
    using Cons.prems(2) by (auto split: sum.splits)
  have "shape c1 = shape c"
    using effectD[OF steady_inOrder[OF b, unfolded steady_def] 1] by simp
  then show ?case using Cons.IH[OF rest 2] by simp
qed

lemma steady_switch:
  assumes "steady d"
    and "list_all (\<lambda>(t, body). (case t of None \<Rightarrow> True | Some a \<Rightarrow> steady a)
                              \<and> list_all steady body) cases"
  shows "steady (compileSwitchStatement d cases)"
proof -
  have tests: "list_all (\<lambda>t. case t of None \<Rightarrow> True | Some a \<Rightarrow> steady a) (map fst cases)"
    using assms(2) by (auto simp: list_all_iff)
  have bodies: "list_all (list_all steady) (map snd cases)"
    using assms(2) by (auto simp: list_all_iff)
  have tail: "effect (inOrder
                       [inOrder (map (\<lambda>(jumpIndex, caseIndex).
                                        patchInstruction jumpIndex (ca ! caseIndex)) cj),
                        (case dj of
                           Some dd \<Rightarrow> patchInstruction n (ca ! dd)
                         | None \<Rightarrow> patchAllHere [n]),
                        patchSwitchBreaks,
                        popSwitch]) popS" for ca cj dj n
    apply (rule effect_eq)
     apply (rule E_rules E_inOrder_map_prod)+
    apply simp
    done
  have body: "effect (\<lambda>c. case switchTests (map fst cases) 0 [] None c of
               Inl e \<Rightarrow> Inl e
             | Inr (c1, caseJumps, defaultJump) \<Rightarrow>
                 (case addInstruction POP None c1 of
                    Inl e \<Rightarrow> Inl e
                  | Inr c2 \<Rightarrow>
                      (case addInstruction JMP (Some 0) c2 of
                         Inl e \<Rightarrow> Inl e
                       | Inr c3 \<Rightarrow>
                           (case switchBodies (map snd cases) [] c3 of
                              Inl e \<Rightarrow> Inl e
                            | Inr (c4, caseAddresses) \<Rightarrow>
                                inOrder
                                  [inOrder (map (\<lambda>(jumpIndex, caseIndex).
                                                   patchInstruction jumpIndex
                                                     (caseAddresses ! caseIndex))
                                                caseJumps),
                                   (case defaultJump of
                                      Some d \<Rightarrow> patchInstruction (getCurrentAddress c2)
                                                  (caseAddresses ! d)
                                    | None \<Rightarrow> patchAllHere [getCurrentAddress c2]),
                                   patchSwitchBreaks,
                                   popSwitch] c4)))) popS"
  proof (rule effectI)
    fix c c'
    assume run: "(case switchTests (map fst cases) 0 [] None c of
               Inl e \<Rightarrow> Inl e
             | Inr (c1, caseJumps, defaultJump) \<Rightarrow>
                 (case addInstruction POP None c1 of
                    Inl e \<Rightarrow> Inl e
                  | Inr c2 \<Rightarrow>
                      (case addInstruction JMP (Some 0) c2 of
                         Inl e \<Rightarrow> Inl e
                       | Inr c3 \<Rightarrow>
                           (case switchBodies (map snd cases) [] c3 of
                              Inl e \<Rightarrow> Inl e
                            | Inr (c4, caseAddresses) \<Rightarrow>
                                inOrder
                                  [inOrder (map (\<lambda>(jumpIndex, caseIndex).
                                                   patchInstruction jumpIndex
                                                     (caseAddresses ! caseIndex))
                                                caseJumps),
                                   (case defaultJump of
                                      Some d \<Rightarrow> patchInstruction (getCurrentAddress c2)
                                                  (caseAddresses ! d)
                                    | None \<Rightarrow> patchAllHere [getCurrentAddress c2]),
                                   patchSwitchBreaks,
                                   popSwitch] c4)))) = Inr c'"
    from run obtain c1 cj dj c2 c3 c4 ca where
      1: "switchTests (map fst cases) 0 [] None c = Inr (c1, cj, dj)"
      and 2: "addInstruction POP None c1 = Inr c2"
      and 3: "addInstruction JMP (Some 0) c2 = Inr c3"
      and 4: "switchBodies (map snd cases) [] c3 = Inr (c4, ca)"
      and 5: "inOrder [inOrder (map (\<lambda>(jumpIndex, caseIndex).
                                        patchInstruction jumpIndex (ca ! caseIndex)) cj),
                        (case dj of
                           Some dd \<Rightarrow> patchInstruction (getCurrentAddress c2) (ca ! dd)
                         | None \<Rightarrow> patchAllHere [getCurrentAddress c2]),
                        patchSwitchBreaks,
                        popSwitch] c4 = Inr c'"
      by (auto simp del: inOrder.simps split: sum.splits prod.splits)
    have "shape c1 = shape c" using switchTests_shape[OF tests 1] .
    moreover have "shape c2 = shape c1" using effectD[OF E_emit(2) 2] by simp
    moreover have "shape c3 = shape c2" using effectD[OF E_emit(30) 3] by simp
    moreover have "shape c4 = shape c3" using switchBodies_shape[OF bodies 4] .
    moreover have "shape c' = popS (shape c4)" using effectD[OF tail 5] .
    ultimately show "shape c' = popS (shape c)" by simp
  qed
  show ?thesis unfolding steady_def compileSwitchStatement_def
    apply (rule effect_eq)
     apply (rule E_inOrder_Cons E_inOrder_Nil assms(1)[unfolded steady_def] E_stacks body)+
    apply (simp add: loop_balance)
    done
qed

lemma steady_break: "steady compileBreakStatement"
proof -
  have "effect (\<lambda>c. case switchStack c of
                 targets # rest \<Rightarrow> Inr (c\<lparr> switchStack := (targets @ [j]) # rest \<rparr>)
               | [] \<Rightarrow>
                   (case loopStack c of
                      ctx # rest \<Rightarrow> addBreakTarget j c
                    | [] \<Rightarrow> Inl BreakOutsideLoopOrSwitch)) (\<lambda>x. x)" for j
    by (rule effectI)
       (auto simp: shape_def addBreakTarget_def split: list.splits)
  then show ?thesis unfolding steady_def compileBreakStatement_def
    by - (assumption | rule E_rules)+
qed

lemma steady_continue: "steady compileContinueStatement"
proof -
  have "effect (\<lambda>c. case loopStack c of
                 ctx # rest \<Rightarrow> addContinueTarget j c
               | [] \<Rightarrow> Inl ContinueOutsideLoop) (\<lambda>x. x)" for j
    by (rule effectI)
       (auto simp: shape_def addContinueTarget_def split: list.splits)
  then show ?thesis unfolding steady_def compileContinueStatement_def
    by - (assumption | rule E_rules)+
qed

lemma steady_throw: "steady a \<Longrightarrow> steady (compileThrowStatement a)"
  unfolding steady_def compileThrowStatement_def
  by (assumption | rule E_rules)+

lemma steady_try:
  assumes "steady block"
    and "case handler of None \<Rightarrow> True | Some (p, b) \<Rightarrow> steady b"
    and "case finalizer of None \<Rightarrow> True | Some x \<Rightarrow> steady x"
  shows "steady (compileTryStatement block handler finalizer)"
proof -
  have h: "effect (case handler of
                 Some (param, body) \<Rightarrow>
                   inOrder [addInstruction CATCH None, compileCatchClause param body]
               | None \<Rightarrow> Inr) (\<lambda>x. x)"
  proof (cases handler)
    case None
    then show ?thesis by (simp add: E_Inr)
  next
    case (Some pb)
    obtain p b where pb: "pb = (p, b)" by (cases pb)
    then have b: "effect b (\<lambda>x. x)" using assms(2) Some by (simp add: steady_def)
    have "effect (compileCatchClause p b) (\<lambda>x. x)"
      unfolding compileCatchClause_def by (rule E_rules b)+
    then have "effect (inOrder [addInstruction CATCH None, compileCatchClause p b]) (\<lambda>x. x)"
      by - (assumption | rule E_rules)+
    then show ?thesis using Some pb by simp
  qed
  have f: "effect (case finalizer of
                 Some f \<Rightarrow> inOrder [addInstruction FINALLY None, f]
               | None \<Rightarrow> Inr) (\<lambda>x. x)"
    using assms(3) by (rule E_optional[rotated]) ((assumption | rule E_rules)+)
  show ?thesis unfolding steady_def compileTryStatement_def
    by (rule h f assms(1)[unfolded steady_def] E_basic)+
qed

lemma steady_compileNode: "steady (compileNode n)"
proof (induction n rule: compileNode.induct)
  case (1 program)
  then show ?case by simp
next
  case (2 body)
  then show ?case by (auto simp: list_all_iff intro!: steady_program)
next
  case (3 body)
  then show ?case by (auto simp: list_all_iff intro!: steady_block)
next
  case (4 e)
  then show ?case by simp
next
  case (5 ds)
  then show ?case
    by (auto simp: list_all_iff intro!: steady_variables split: option.splits)
next
  case (6 n ps body)
  then show ?case by (simp add: steady_functionDeclaration)
next
  case (7 a)
  then show ?case by (cases a) (auto intro!: steady_return)
next
  case (8 t c a)
  then show ?case by (cases a) (auto intro!: steady_if)
next
  case (9 t b)
  then show ?case by (simp add: steady_while)
next
  case (10 b t)
  then show ?case by (simp add: steady_doWhile)
next
  case (11 init t u b)
  then show ?case by (cases init; cases t; cases u) (auto intro!: steady_for)
next
  case (12 left right b)
  then show ?case by (simp add: steady_forIn)
next
  case (13 d cases)
  then show ?case
    by (auto simp: list_all_iff intro!: steady_switch split: option.splits)
next
  case 14
  then show ?case by (simp add: steady_break)
next
  case 15
  then show ?case by (simp add: steady_continue)
next
  case (16 a)
  then show ?case by (simp add: steady_throw)
next
  case (17 block handler finalizer)
  then show ?case by (cases handler; cases finalizer) (auto intro!: steady_try)
next
  case 18
  then show ?case by (simp add: steady_simple)
next
  case (19 v)
  then show ?case by (simp add: steady_simple)
next
  case (20 pattern flags)
  then show ?case by (simp add: steady_simple)
next
  case (21 quasis es)
  then show ?case by (auto simp: list_all_iff intro!: steady_template)
next
  case (22 n)
  then show ?case by (simp add: steady_simple)
next
  case 23
  then show ?case by (simp add: steady_simple)
next
  case (24 operator l r)
  then show ?case by (simp add: steady_binary)
next
  case (25 operator l r)
  then show ?case by (simp add: steady_logical)
next
  case (26 operator a)
  then show ?case by (simp add: steady_unary)
next
  case (27 operator prefix a)
  then show ?case by (cases a) (auto intro!: steady_update)
next
  case (28 operator l r)
  then show ?case by (cases l) (auto intro!: steady_assignment)
next
  case (29 t c a)
  then show ?case by (simp add: steady_conditional)
next
  case (30 es)
  then show ?case by (auto simp: list_all_iff intro!: steady_sequence)
next
  case (31 f args)
  then show ?case by (cases f) (auto simp: list_all_iff intro!: steady_call)
next
  case (32 f args)
  then show ?case by (auto simp: list_all_iff intro!: steady_new)
next
  case (33 ob pr computed)
  then show ?case by (simp add: steady_member)
next
  case (34 elements)
  then show ?case
    by (auto simp: list_all_iff intro!: steady_array split: option.splits)
next
  case (35 properties)
  then show ?case
    by (auto simp: list_all_iff intro!: steady_object split: node.splits)
next
  case (36 n ps body)
  then show ?case by (simp add: steady_functionExpression)
next
  case (37 t)
  then show ?case by (simp add: steady_def E_fail)
qed

subsection \<open>Failure outside loops and switches\<close>

lemma idle_shape: "shape c' = shape c \<Longrightarrow> idle c' = idle c"
  by (simp add: idle_def shape_def flip: length_0_conv)

lemma verdictI: "effect a (\<lambda>x. x) \<Longrightarrow> (\<And>c. d \<Longrightarrow> idle c \<Longrightarrow> isl (a c)) \<Longrightarrow> verdict a d"
  by (simp add: verdict_def steady_def dooms_def)

lemma verdict_effect: "verdict a d \<Longrightarrow> effect a (\<lambda>x. x)"
  by (simp add: verdict_def steady_def)

lemma verdict_fails: "verdict a d \<Longrightarrow> d \<Longrightarrow> idle c \<Longrightarrow> isl (a c)"
  by (simp add: verdict_def dooms_def)

lemma V_steady: "effect a (\<lambda>x. x) \<Longrightarrow> verdict a False"
  by (simp add: verdict_def steady_def)

lemma V_weaken: "verdict a d \<Longrightarrow> (d' \<Longrightarrow> d) \<Longrightarrow> verdict a d'"
  by (auto simp: verdict_def)

lemma V_andThen:
  assumes a: "verdict a d1" and b: "verdict b d2"
  shows "verdict (andThen a b) (d1 \<or> d2)"
proof (rule verdictI)
  show "effect (andThen a b) (\<lambda>x. x)"
    using E_andThen[OF verdict_effect[OF a] verdict_effect[OF b]] .
next
  fix c assume d: "d1 \<or> d2" and c: "idle c"
  show "isl (andThen a b c)"
  proof (cases "a c")
    case (Inl e)
    then show ?thesis by (simp add: andThen_def)
  next
    case (Inr c1)
    have "\<not> d1"
    proof
      assume d1
      from verdict_fails[OF a this c] show False using Inr by simp
    qed
    then have d2 using d by simp
    have "shape c1 = shape c" using effectD[OF verdict_effect[OF a] Inr] .
    from idle_shape[OF this] have "idle c1" using c by simp
    then have "isl (b c1)" using verdict_fails[OF b \<open>d2\<close>] by simp
    then show ?thesis using Inr by (simp add: andThen_def)
  qed
qed

lemma V_inOrder_Nil: "verdict (inOrder []) False"
  by (simp add: V_steady E_Inr)

lemma V_inOrder_Cons:
  "verdict a d1 \<Longrightarrow> verdict (inOrder as) d2 \<Longrightarrow> verdict (inOrder (a # as)) (d1 \<or> d2)"
  by (simp add: V_andThen)

lemma V_if:
  "verdict a d1 \<Longrightarrow> verdict b d2 \<Longrightarrow> verdict (if p then a else b) (if p then d1 else d2)"
  by simp

lemma V_atAddress:
  assumes "\<And>n. verdict (F n) d"
  shows "verdict (atAddress F) d"
proof (rule verdictI)
  show "effect (atAddress F) (\<lambda>x. x)"
    by (rule E_atAddress) (rule verdict_effect[OF assms])
next
  fix c assume d and "idle c"
  from verdict_fails[OF assms this] show "isl (atAddress F c)" by (simp add: atAddress_def)
qed

lemma idle_pool: "idle (c\<lparr> cbytecode := b \<rparr>) = idle c"
  by (simp add: idle_def)

lemma V_withConstant:
  assumes "\<And>i. verdict (F i) d"
  shows "verdict (withConstant v F) d"
proof (rule verdictI)
  show "effect (withConstant v F) (\<lambda>x. x)"
    by (rule E_withConstant) (rule verdict_effect[OF assms])
next
  fix c assume d: d and c: "idle c"
  obtain i p where ip: "ConstantPool_add (constantPool (cbytecode c)) v = (i, p)"
    by (cases "ConstantPool_add (constantPool (cbytecode c)) v")
  have "isl (F i (c\<lparr> cbytecode := (cbytecode c)\<lparr> constantPool := p \<rparr> \<rparr>))"
    using verdict_fails[OF assms d] c by (simp add: idle_pool)
  then show "isl (withConstant v F c)" using ip by (simp add: withConstant_def)
qed

lemma V_inOrder_map:
  "(\<And>x. x \<in> set xs \<Longrightarrow> verdict (F x) (D x)) \<Longrightarrow> verdict (inOrder (map F xs)) (list_ex D xs)"
proof (induction xs)
  case Nil
  then show ?case by (simp add: V_steady E_Inr)
next
  case (Cons y ys)
  have "verdict (andThen (F y) (inOrder (map F ys))) (D y \<or> list_ex D ys)"
    by (rule V_andThen) (simp_all add: Cons)
  then show ?case by simp
qed

lemma V_fail: "verdict (\<lambda>c. Inl e) True"
  by (rule verdictI) (simp_all add: E_fail)

lemmas V_prims =
  E_Inr[THEN V_steady] E_emit[THEN V_steady] E_emitConst[THEN V_steady]
  E_patchInstruction[THEN V_steady] E_patchAllHere[THEN V_steady] E_scope[THEN V_steady]

lemmas V_rules =
  V_andThen V_inOrder_Nil V_inOrder_Cons V_if V_atAddress V_withConstant V_fail V_prims

lemma V_ifStatement:
  "verdict t dt \<Longrightarrow> verdict c dc \<Longrightarrow> verdict (compileIfStatement t c None) (dt \<or> dc)"
  "verdict t dt \<Longrightarrow> verdict c dc \<Longrightarrow> verdict a da
   \<Longrightarrow> verdict (compileIfStatement t c (Some a)) (dt \<or> dc \<or> da)"
  unfolding compileIfStatement_def option.case
   apply (rule V_weaken)
    apply (assumption | rule V_rules)+
   apply simp
  apply (rule V_weaken)
   apply (assumption | rule V_rules)+
  apply simp
  done

lemma V_program:
  assumes "\<And>s. s \<in> set ns \<Longrightarrow> verdict (C s) (B s)"
  shows "verdict (compileProgram (map (\<lambda>s. (E s, C s)) ns)) (list_ex B ns)"
  using assms
proof (induction ns)
  case Nil
  show ?case by (simp add: V_prims)
next
  case (Cons s rest)
  have s: "verdict (C s) (B s)" using Cons.prems by simp
  have r: "verdict (compileProgram (map (\<lambda>s. (E s, C s)) rest)) (list_ex B rest)"
    using Cons by simp
  have "verdict (inOrder [C s,
              (if map (\<lambda>s. (E s, C s)) rest \<noteq> [] \<and> E s then addInstruction POP None else Inr),
              compileProgram (map (\<lambda>s. (E s, C s)) rest)]) (B s \<or> list_ex B rest)"
    apply (rule V_weaken)
     apply (rule s r V_rules)+
    apply simp
    done
  then show ?case by simp
qed

lemma V_block:
  assumes "\<And>s. s \<in> set ns \<Longrightarrow> verdict (C s) (B s)"
  shows "verdict (compileBlockStatement (map (\<lambda>s. (E s, C s)) ns)) (list_ex B ns)"
proof -
  have el: "verdict (andThen (C s) (if E s then addInstruction POP None else Inr)) (B s)"
    if "s \<in> set ns" for s
    apply (rule V_weaken)
     apply (rule assms[OF that] V_rules)+
    apply simp
    done
  have mid: "verdict (inOrder (map (\<lambda>s. andThen (C s)
                 (if E s then addInstruction POP None else Inr)) ns)) (list_ex B ns)"
    by (rule V_inOrder_map) (rule el)
  have "verdict (inOrder [enterScope,
              inOrder (map (\<lambda>s. andThen (C s)
                 (if E s then addInstruction POP None else Inr)) ns),
              exitScope]) (list_ex B ns)"
    apply (rule V_weaken)
     apply (rule mid V_rules)+
    apply simp
    done
  then show ?thesis by (simp add: compileBlockStatement_def comp_def)
qed

lemma V_variables:
  assumes "\<And>n i. (n, Some i) \<in> set ds \<Longrightarrow> verdict (C i) (B i)"
  shows "verdict (compileVariableDeclaration (map (\<lambda>(n, init). (n, map_option C init)) ds))
           (list_ex (\<lambda>(n, init). case init of None \<Rightarrow> False | Some i \<Rightarrow> B i) ds)"
proof -
  have el: "verdict (case x of (n, init) \<Rightarrow>
                       inOrder [declareVariable n,
                              (case map_option C init of
                                 Some i \<Rightarrow> i
                               | None \<Rightarrow> addInstructionWithConstant PUSH CUndefined),
                              addInstructionWithConstant DECLARE (CString n)])
                    (case x of (n, init) \<Rightarrow> case init of None \<Rightarrow> False | Some i \<Rightarrow> B i)"
    if "x \<in> set ds" for x
  proof -
    obtain n init where x: "x = (n, init)" by (cases x)
    show ?thesis
    proof (cases init)
      case None
      have "verdict (inOrder [declareVariable n, addInstructionWithConstant PUSH CUndefined,
                              addInstructionWithConstant DECLARE (CString n)]) False"
        apply (rule V_weaken)
         apply (rule V_rules)+
        apply simp
        done
      then show ?thesis using x None by simp
    next
      case (Some i)
      have i: "verdict (C i) (B i)" using assms that x Some by simp
      have "verdict (inOrder [declareVariable n, C i,
                              addInstructionWithConstant DECLARE (CString n)]) (B i)"
        apply (rule V_weaken)
         apply (rule i V_rules)+
        apply simp
        done
      then show ?thesis using x Some by simp
    qed
  qed
  have "verdict (inOrder (map (\<lambda>x. case x of (n, init) \<Rightarrow>
                       inOrder [declareVariable n,
                              (case map_option C init of
                                 Some i \<Rightarrow> i
                               | None \<Rightarrow> addInstructionWithConstant PUSH CUndefined),
                              addInstructionWithConstant DECLARE (CString n)]) ds))
          (list_ex (\<lambda>x. case x of (n, init) \<Rightarrow> case init of None \<Rightarrow> False | Some i \<Rightarrow> B i) ds)"
    by (rule V_inOrder_map) (rule el)
  moreover have "compileVariableDeclaration (map (\<lambda>(n, init). (n, map_option C init)) ds)
      = inOrder (map (\<lambda>x. case x of (n, init) \<Rightarrow>
                       inOrder [declareVariable n,
                              (case map_option C init of
                                 Some i \<Rightarrow> i
                               | None \<Rightarrow> addInstructionWithConstant PUSH CUndefined),
                              addInstructionWithConstant DECLARE (CString n)]) ds)"
    unfolding compileVariableDeclaration_def map_map
    by (rule arg_cong[where f = inOrder], rule map_cong[OF refl]) (auto split: prod.splits)
  ultimately show ?thesis by simp
qed

lemma V_ifOption:
  assumes "verdict t dt" and "verdict c dc" and "\<And>x. a = Some x \<Longrightarrow> verdict (C x) (B x)"
  shows "verdict (compileIfStatement t c (map_option C a))
           (dt \<or> dc \<or> (case a of None \<Rightarrow> False | Some x \<Rightarrow> B x))"
  using assms by (cases a) (simp_all add: V_ifStatement)

lemma V_return:
  assumes "\<And>x. a = Some x \<Longrightarrow> verdict (C x) (B x)"
  shows "verdict (compileReturnStatement (map_option C a))
           (case a of None \<Rightarrow> False | Some x \<Rightarrow> B x)"
proof (cases a)
  case None
  show ?thesis unfolding compileReturnStatement_def None option.case option.map
    apply (rule V_weaken)
     apply (rule V_rules)+
    apply simp
    done
next
  case (Some x)
  show ?thesis unfolding compileReturnStatement_def Some option.case option.map
    apply (rule V_weaken)
     apply (rule assms[OF Some] V_rules)+
    apply simp
    done
qed

lemma V_throw: "verdict a d \<Longrightarrow> verdict (compileThrowStatement a) d"
  unfolding compileThrowStatement_def
  apply (rule V_weaken)
   apply (assumption | rule V_rules)+
  apply simp
  done

lemma V_break: "verdict compileBreakStatement True"
proof (rule verdictI)
  show "effect compileBreakStatement (\<lambda>x. x)" using steady_break by (simp add: steady_def)
next
  fix c assume "idle c"
  then show "isl (compileBreakStatement c)"
    by (simp add: compileBreakStatement_def atAddress_def andThen_def addInstruction_def idle_def)
qed

lemma V_continue: "verdict compileContinueStatement True"
proof (rule verdictI)
  show "effect compileContinueStatement (\<lambda>x. x)"
    using steady_continue by (simp add: steady_def)
next
  fix c assume "idle c"
  then show "isl (compileContinueStatement c)"
    by (simp add: compileContinueStatement_def atAddress_def andThen_def addInstruction_def
          idle_def)
qed

lemma V_catch: "verdict b d \<Longrightarrow> verdict (compileCatchClause p b) d"
proof (cases p)
  case None
  assume b: "verdict b d"
  show ?thesis unfolding compileCatchClause_def None option.case
    apply (rule V_weaken)
     apply (rule b V_rules)+
    apply simp
    done
next
  case (Some n)
  assume b: "verdict b d"
  show ?thesis unfolding compileCatchClause_def Some option.case
    apply (rule V_weaken)
     apply (rule b V_rules)+
    apply simp
    done
qed

lemma V_try:
  assumes "verdict block db"
    and "\<And>p b. handler = Some (p, b) \<Longrightarrow> verdict (C b) (B b)"
    and "\<And>f. finalizer = Some f \<Longrightarrow> verdict (C f) (B f)"
  shows "verdict (compileTryStatement block
                    (map_option (\<lambda>(param, b). (param, C b)) handler)
                    (map_option C finalizer))
           (db \<or> (case handler of None \<Rightarrow> False | Some (param, b) \<Rightarrow> B b)
               \<or> (case finalizer of None \<Rightarrow> False | Some f \<Rightarrow> B f))"
proof -
  have h: "verdict (case map_option (\<lambda>(param, b). (param, C b)) handler of
                 Some (param, body) \<Rightarrow>
                   inOrder [addInstruction CATCH None, compileCatchClause param body]
               | None \<Rightarrow> Inr)
             (case handler of None \<Rightarrow> False | Some (param, b) \<Rightarrow> B b)"
  proof (cases handler)
    case None
    then show ?thesis by (simp add: V_prims)
  next
    case (Some pb)
    obtain p b where pb: "pb = (p, b)" by (cases pb)
    have b: "verdict (C b) (B b)" using assms(2) Some pb by simp
    have "verdict (inOrder [addInstruction CATCH None, compileCatchClause p (C b)]) (B b)"
      apply (rule V_weaken)
       apply (rule V_catch[OF b] V_rules)+
      apply simp
      done
    then show ?thesis using Some pb by simp
  qed
  have f: "verdict (case map_option C finalizer of
                 Some f \<Rightarrow> inOrder [addInstruction FINALLY None, f]
               | None \<Rightarrow> Inr)
             (case finalizer of None \<Rightarrow> False | Some f \<Rightarrow> B f)"
  proof (cases finalizer)
    case None
    then show ?thesis by (simp add: V_prims)
  next
    case (Some x)
    have x: "verdict (C x) (B x)" using assms(3) Some by simp
    have "verdict (inOrder [addInstruction FINALLY None, C x]) (B x)"
      apply (rule V_weaken)
       apply (rule x V_rules)+
      apply simp
      done
    then show ?thesis using Some by simp
  qed
  show ?thesis unfolding compileTryStatement_def
    apply (rule V_weaken)
     apply (rule h f assms(1) V_rules)+
    apply simp
    done
qed

lemma V_simple:
  "verdict (compileLiteral v) False" "verdict (compileRegExpLiteral p fl) False"
  "verdict (compileIdentifier n) False" "verdict compileThisExpression False"
  "verdict compileDebuggerStatement False"
  using steady_simple by (simp_all add: verdict_def)

lemma V_binary:
  "verdict l dl \<Longrightarrow> verdict r dr \<Longrightarrow> verdict (compileBinaryExpression operator l r) (dl \<or> dr)"
  unfolding compileBinaryExpression_def
  apply (rule V_weaken)
   apply (assumption | rule V_rules E_table[THEN V_steady])+
  apply simp
  done

lemma V_logical:
  "verdict l dl \<Longrightarrow> verdict r dr \<Longrightarrow> verdict (compileLogicalExpression operator l r) (dl \<or> dr)"
  unfolding compileLogicalExpression_def
  apply (rule V_weaken)
   apply (assumption | rule V_rules)+
  apply auto
  done

lemma V_unary: "verdict a d \<Longrightarrow> verdict (compileUnaryExpression operator a) d"
proof -
  assume a: "verdict a d"
  have s: "steady (compileUnaryExpression operator a)"
    using a by (simp add: steady_unary verdict_def)
  have "verdict (andThen a (\<lambda>c. compileUnaryExpression operator Inr c)) (d \<or> False)"
    by (rule V_andThen[OF a]) (rule V_steady, rule steady_unary[unfolded steady_def],
         simp add: steady_def E_Inr)
  moreover have "andThen a (\<lambda>c. compileUnaryExpression operator Inr c)
                   = compileUnaryExpression operator a"
    by (rule ext) (simp add: compileUnaryExpression_def andThen_def split: sum.splits)
  ultimately show ?thesis by simp
qed

lemma V_conditional:
  "verdict t dt \<Longrightarrow> verdict c dc \<Longrightarrow> verdict a da
   \<Longrightarrow> verdict (compileConditionalExpression t c a) (dt \<or> dc \<or> da)"
  unfolding compileConditionalExpression_def
  apply (rule V_weaken)
   apply (assumption | rule V_rules)+
  apply simp
  done

lemma V_sequence:
  assumes "\<And>e. e \<in> set es \<Longrightarrow> verdict (C e) (B e)"
  shows "verdict (compileSequenceExpression (map C es)) (list_ex B es)"
  using assms
proof (induction es)
  case Nil
  show ?case by (simp add: V_prims)
next
  case (Cons e rest)
  have e: "verdict (C e) (B e)" using Cons.prems by simp
  have r: "verdict (compileSequenceExpression (map C rest)) (list_ex B rest)"
    using Cons by simp
  have "verdict (inOrder [C e, (if map C rest \<noteq> [] then addInstruction POP None else Inr),
              compileSequenceExpression (map C rest)]) (B e \<or> list_ex B rest)"
    apply (rule V_weaken)
     apply (rule e r V_rules)+
    apply simp
    done
  then show ?case by simp
qed

lemma V_member:
  "verdict ob dob \<Longrightarrow> verdict pr dpr
   \<Longrightarrow> verdict (compileMemberExpression ob computed pr n) (dob \<or> (computed \<and> dpr))"
  unfolding compileMemberExpression_def
  apply (rule V_weaken)
   apply (assumption | rule V_rules)+
  apply auto
  done

lemma V_storeMember:
  "verdict ob dob \<Longrightarrow> verdict pr dpr
   \<Longrightarrow> verdict (storeMember ob computed pr n) (dob \<or> (computed \<and> dpr))"
  unfolding storeMember_def
  apply (rule V_weaken)
   apply (assumption | rule V_rules)+
  apply auto
  done

lemma V_templateParts:
  assumes "\<And>e. e \<in> set es \<Longrightarrow> verdict (C e) (B e)" and "\<And>b. verdict (k b) False"
  shows "verdict (templateParts qs (map C es) isFirst k) (list_ex B (take (length qs) es))"
  using assms(1)
proof (induction qs arbitrary: es isFirst)
  case Nil
  then show ?case using assms(2) by simp
next
  case (Cons q qs)
  show ?case
  proof (cases es)
    case Nil
    have ih: "\<And>b. verdict (templateParts qs [] b k) False"
      using Cons.IH[of "[]"] by simp
    have "verdict (templateParts (q # qs) [] isFirst k) False"
      unfolding templateParts.simps Let_def list.case
      apply (rule V_weaken)
       apply (rule V_rules ih)+
      apply simp
      done
    then show ?thesis using Nil by simp
  next
    case (Cons e es')
    have e: "verdict (C e) (B e)" using Cons.prems Cons by simp
    have ih: "\<And>b. verdict (templateParts qs (map C es') b k) (list_ex B (take (length qs) es'))"
      using Cons.IH[of es'] Cons.prems Cons by simp
    have "verdict (templateParts (q # qs) (C e # map C es') isFirst k)
            (B e \<or> list_ex B (take (length qs) es'))"
      unfolding templateParts.simps Let_def list.case
      apply (rule V_weaken)
       apply (rule V_rules ih e)+
      apply simp
      done
    then show ?thesis using Cons by simp
  qed
qed

lemma V_template:
  assumes "\<And>e. e \<in> set es \<Longrightarrow> verdict (C e) (B e)"
  shows "verdict (compileTemplateLiteral qs (map C es)) (list_ex B (take (length qs) es))"
proof (cases es)
  case Nil
  have "verdict (compileTemplateLiteral qs []) False"
    using steady_template[of "[]" qs] by (simp add: verdict_def)
  then show ?thesis using Nil by simp
next
  case (Cons e es')
  have k: "\<And>b. verdict (if b then addInstructionWithConstant PUSH (CString []) else Inr) False"
    by (simp add: V_prims)
  have "verdict (templateParts qs (map C es) True
          (\<lambda>isFirst. if isFirst then addInstructionWithConstant PUSH (CString []) else Inr))
          (list_ex B (take (length qs) es))"
    by (rule V_templateParts) (erule assms, rule k)
  then show ?thesis
    by (simp add: compileTemplateLiteral_def Cons)
qed

lemma V_update:
  "verdict (compileUpdateExpression operator prefix (IdentifierTarget n)) False"
  "verdict m dm \<Longrightarrow> verdict ob dob \<Longrightarrow> verdict pr dpr
   \<Longrightarrow> verdict (compileUpdateExpression operator prefix (MemberTarget m ob computed pr pn)) dm"
  "verdict (compileUpdateExpression operator prefix OtherTarget) True"
proof -
  show "verdict (compileUpdateExpression operator prefix (IdentifierTarget n)) False"
    using steady_update[of "IdentifierTarget n"] by (simp add: verdict_def)
  show "verdict (compileUpdateExpression operator prefix OtherTarget) True"
    unfolding compileUpdateExpression_def Let_def target.case by (rule V_fail)
  assume m: "verdict m dm" and ob: "verdict ob dob" and pr: "verdict pr dpr"
  show "verdict (compileUpdateExpression operator prefix (MemberTarget m ob computed pr pn)) dm"
    unfolding compileUpdateExpression_def Let_def target.case
    apply (rule V_weaken)
     apply (rule V_rules E_step[THEN V_steady] V_storeMember m ob pr)+
    apply auto
    done
qed

lemma V_assignment:
  "verdict l dl \<Longrightarrow> verdict r dr
   \<Longrightarrow> verdict (compileAssignmentExpression operator l (IdentifierTarget n) r) dr"
  "verdict l dl \<Longrightarrow> verdict r dr \<Longrightarrow> verdict ob dob \<Longrightarrow> verdict pr dpr
   \<Longrightarrow> verdict (compileAssignmentExpression operator l (MemberTarget m ob computed pr pn) r)
         (dr \<or> dob \<or> (computed \<and> dpr))"
  "verdict l dl \<Longrightarrow> verdict r dr
   \<Longrightarrow> verdict (compileAssignmentExpression operator l OtherTarget r) True"
proof -
  assume l: "verdict l dl" and r: "verdict r dr"
  show "verdict (compileAssignmentExpression operator l (IdentifierTarget n) r) dr"
    unfolding compileAssignmentExpression_def Let_def target.case
    apply (rule V_weaken)
     apply (rule V_rules E_table[THEN V_steady] l r)+
    apply auto
    done
  show "verdict (compileAssignmentExpression operator l OtherTarget r) True"
    unfolding compileAssignmentExpression_def Let_def target.case
    apply (rule V_weaken)
     apply (rule V_rules E_table[THEN V_steady] l r)+
    apply auto
    done
  assume ob: "verdict ob dob" and pr: "verdict pr dpr"
  show "verdict (compileAssignmentExpression operator l (MemberTarget m ob computed pr pn) r)
         (dr \<or> dob \<or> (computed \<and> dpr))"
    unfolding compileAssignmentExpression_def Let_def target.case
    apply (rule V_weaken)
     apply (rule V_rules E_table[THEN V_steady] V_storeMember l r ob pr)+
    apply auto
    done
qed

lemma V_args:
  assumes "\<And>e. e \<in> set args \<Longrightarrow> verdict (C e) (B e)"
  shows "verdict (inOrder (rev (map C args))) (list_ex B args)"
proof -
  have "verdict (inOrder (map C (rev args))) (list_ex B (rev args))"
    by (rule V_inOrder_map) (simp add: assms)
  then show ?thesis by (simp add: rev_map list_ex_iff)
qed

lemma V_call:
  assumes "\<And>e. e \<in> set args \<Longrightarrow> verdict (C e) (B e)"
  shows "verdict ob dob \<Longrightarrow> verdict pr dpr
         \<Longrightarrow> verdict (compileCallExpression (map C args) (MemberCallee ob computed pr pn))
               (list_ex B args \<or> dob \<or> (computed \<and> dpr))"
    and "verdict f df
         \<Longrightarrow> verdict (compileCallExpression (map C args) (PlainCallee f)) (list_ex B args \<or> df)"
proof -
  have a: "verdict (inOrder (rev (map C args))) (list_ex B args)"
    by (rule V_args) (erule assms)
  assume ob: "verdict ob dob" and pr: "verdict pr dpr"
  show "verdict (compileCallExpression (map C args) (MemberCallee ob computed pr pn))
               (list_ex B args \<or> dob \<or> (computed \<and> dpr))"
    unfolding compileCallExpression_def callee.case
    apply (rule V_weaken)
     apply (rule V_rules a ob pr)+
    apply auto
    done
next
  have a: "verdict (inOrder (rev (map C args))) (list_ex B args)"
    by (rule V_args) (erule assms)
  assume f: "verdict f df"
  show "verdict (compileCallExpression (map C args) (PlainCallee f)) (list_ex B args \<or> df)"
    unfolding compileCallExpression_def callee.case
    apply (rule V_weaken)
     apply (rule V_rules a f)+
    apply auto
    done
qed

lemma V_new:
  assumes "\<And>e. e \<in> set args \<Longrightarrow> verdict (C e) (B e)" and "verdict f df"
  shows "verdict (compileNewExpression (map C args) f) (list_ex B args \<or> df)"
proof -
  have a: "verdict (inOrder (rev (map C args))) (list_ex B args)"
    by (rule V_args) (erule assms(1))
  show ?thesis
    unfolding compileNewExpression_def
    apply (rule V_weaken)
     apply (rule V_rules a assms(2))+
    apply auto
    done
qed

lemma V_array:
  assumes "\<And>x. Some x \<in> set elements \<Longrightarrow> verdict (C x) (B x)"
  shows "verdict (compileArrayExpression (map (map_option C) elements))
           (list_ex (\<lambda>e. case e of None \<Rightarrow> False | Some x \<Rightarrow> B x) elements)"
proof -
  have el: "verdict (case map_option C e of Some e \<Rightarrow> e
                     | None \<Rightarrow> addInstructionWithConstant PUSH CUndefined)
              (case e of None \<Rightarrow> False | Some x \<Rightarrow> B x)" if "e \<in> set elements" for e
  proof (cases e)
    case None
    then show ?thesis by (simp add: V_prims)
  next
    case (Some x)
    then have "verdict (C x) (B x)" using that assms by simp
    then show ?thesis using Some by simp
  qed
  have mid: "verdict (inOrder (map (\<lambda>e. case map_option C e of Some e \<Rightarrow> e
                     | None \<Rightarrow> addInstructionWithConstant PUSH CUndefined) elements))
              (list_ex (\<lambda>e. case e of None \<Rightarrow> False | Some x \<Rightarrow> B x) elements)"
    by (rule V_inOrder_map) (rule el)
  have "verdict (inOrder [inOrder (map (\<lambda>e. case map_option C e of Some e \<Rightarrow> e
                     | None \<Rightarrow> addInstructionWithConstant PUSH CUndefined) elements),
              addInstructionWithConstant PUSH (numberConst (length elements)),
              addInstruction NEW_ARR None])
          (list_ex (\<lambda>e. case e of None \<Rightarrow> False | Some x \<Rightarrow> B x) elements)"
    apply (rule V_weaken)
     apply (rule mid V_rules)+
    apply simp
    done
  then show ?thesis by (simp add: compileArrayExpression_def comp_def)
qed

lemma V_function:
  assumes b: "verdict body d"
  shows "verdict (compileFunction fname declared ps body) d"
proof (rule verdictI)
  show "effect (compileFunction fname declared ps body) (\<lambda>x. x)"
    using steady_function[of body fname declared ps] b by (simp add: verdict_def steady_def)
next
  fix c assume d: d and c: "idle c"
  have decl: "verdict (inOrder (map declareVariable declared)) False"
    by (rule V_steady) (rule E_inOrder_map, rule E_scope)
  have inner: "verdict (inOrder [enterScope,
                          inOrder (map declareVariable declared),
                          body,
                          addInstructionWithConstant PUSH CUndefined,
                          addInstruction RET None,
                          exitScope,
                          patchAllHere [jumpIndex],
                          addInstructionWithConstant PUSH (CFunction fi)]) d" for jumpIndex fi
    apply (rule V_weaken)
     apply (rule V_rules decl b)+
    apply simp
    done
  obtain c1 where c1: "addInstruction JMP (Some 0) c = Inr c1" and "idle c1"
    using c by (simp add: addInstruction_def idle_def)
  from verdict_fails[OF inner d this(2)]
  show "isl (compileFunction fname declared ps body c)"
    using c1 by (simp add: compileFunction_def atAddress_def andThen_def Let_def)
qed

lemma V_functionDeclaration:
  "verdict body d \<Longrightarrow> verdict (compileFunctionDeclaration n ps body) d"
  unfolding compileFunctionDeclaration_def
  apply (rule V_weaken)
   apply (rule V_rules V_function | assumption)+
  apply simp
  done

lemma V_functionExpression:
  "verdict body d \<Longrightarrow> verdict (compileFunctionExpression n ps body) d"
  unfolding compileFunctionExpression_def by (rule V_function)

lemma V_objectKey:
  assumes "verdict (compileNode key) (bare key)"
  shows "verdict (case (case key of
                   Identifier n \<Rightarrow> (if \<not> computed then Inl n else Inr (compileNode key))
                 | other \<Rightarrow> Inr (compileNode key)) of
                   Inl keyName \<Rightarrow> addInstructionWithConstant PUSH (CString keyName)
                 | Inr k \<Rightarrow> k) (bare key)"
  using assms by (cases key) (simp_all add: V_prims)

lemma V_object:
  assumes "\<And>key v computed. (key, v, computed) \<in> set properties
             \<Longrightarrow> verdict (compileNode v) (bare v) \<and> verdict (compileNode key) (bare key)"
  shows "verdict (compileNode (ObjectExpression properties)) (bare (ObjectExpression properties))"
proof -
  let ?F = "\<lambda>x. case x of (key, v, computed) \<Rightarrow>
              andThen (compileNode v)
                (case (case key of
                   Identifier n \<Rightarrow> (if \<not> computed then Inl n else Inr (compileNode key))
                 | other \<Rightarrow> Inr (compileNode key)) of
                   Inl keyName \<Rightarrow> addInstructionWithConstant PUSH (CString keyName)
                 | Inr k \<Rightarrow> k)"
  let ?D = "\<lambda>x. case x of (key, v, computed) \<Rightarrow> bare v \<or> bare key"
  have el: "verdict (?F x) (?D x)" if "x \<in> set properties" for x
  proof -
    obtain key v computed where x: "x = (key, v, computed)" by (cases x)
    have v: "verdict (compileNode v) (bare v)" and k: "verdict (compileNode key) (bare key)"
      using assms that x by auto
    have "verdict (andThen (compileNode v)
                (case (case key of
                   Identifier n \<Rightarrow> (if \<not> computed then Inl n else Inr (compileNode key))
                 | other \<Rightarrow> Inr (compileNode key)) of
                   Inl keyName \<Rightarrow> addInstructionWithConstant PUSH (CString keyName)
                 | Inr k \<Rightarrow> k)) (bare v \<or> bare key)"
      by (rule V_andThen[OF v V_objectKey[OF k]])
    then show ?thesis using x by simp
  qed
  have mid: "verdict (inOrder (map ?F properties)) (list_ex ?D properties)"
    by (rule V_inOrder_map) (rule el)
  have "verdict (inOrder [inOrder (map ?F properties),
              addInstructionWithConstant PUSH (numberConst (length properties)),
              addInstruction NEW_OBJ None]) (list_ex ?D properties)"
    apply (rule V_weaken)
     apply (rule mid V_rules)+
    apply simp
    done
  moreover have "compileNode (ObjectExpression properties)
      = inOrder [inOrder (map ?F properties),
              addInstructionWithConstant PUSH (numberConst (length properties)),
              addInstruction NEW_OBJ None]"
    unfolding compileNode.simps compileObjectExpression_def map_map
    by (simp del: inOrder.simps add: comp_def split_def)
  ultimately show ?thesis by simp
qed

lemma V_true: "verdict a True \<Longrightarrow> verdict a d"
  by (simp add: verdict_def)

lemma V_any: "verdict (compileNode x) False"
  using steady_compileNode by (simp add: verdict_def)

lemma verdict_compileNode: "verdict (compileNode n) (bare n)"
proof (induction n rule: compileNode.induct)
  case (1 program)
  then show ?case by simp
next
  case (2 body)
  then show ?case by (simp add: V_program)
next
  case (3 body)
  then show ?case by (simp add: V_block)
next
  case (4 e)
  then show ?case by simp
next
  case (5 ds)
  have "\<And>n i. (n, Some i) \<in> set ds \<Longrightarrow> verdict (compileNode i) (bare i)"
    using 5 by fastforce
  then show ?case by (simp add: V_variables)
next
  case (6 n ps body)
  then show ?case by (simp add: V_functionDeclaration)
next
  case (7 a)
  have "\<And>x. a = Some x \<Longrightarrow> verdict (compileNode x) (bare x)"
    using 7 by fastforce
  then show ?case by (simp add: V_return)
next
  case (8 t c a)
  have "\<And>x. a = Some x \<Longrightarrow> verdict (compileNode x) (bare x)"
    using 8 by fastforce
  then show ?case using 8(1,2) by (simp add: V_ifOption)
next
  case (9 t b)
  show ?case using V_any[of "WhileStatement t b"] by simp
next
  case (10 b t)
  show ?case using V_any[of "DoWhileStatement b t"] by simp
next
  case (11 init t u b)
  show ?case using V_any[of "ForStatement init t u b"] by simp
next
  case (12 left right b)
  show ?case using V_any[of "ForInStatement left right b"] by simp
next
  case (13 d cases)
  show ?case using V_any[of "SwitchStatement d cases"] by simp
next
  case 14
  show ?case by (simp add: V_break)
next
  case 15
  show ?case by (simp add: V_continue)
next
  case (16 a)
  then show ?case by (simp add: V_throw)
next
  case (17 block handler finalizer)
  have "\<And>p b. handler = Some (p, b) \<Longrightarrow> verdict (compileNode b) (bare b)"
    and "\<And>f. finalizer = Some f \<Longrightarrow> verdict (compileNode f) (bare f)"
    using 17 by fastforce+
  then show ?case using 17(1) by (simp add: V_try)
next
  case 18
  show ?case by (simp add: V_simple)
next
  case (19 v)
  show ?case by (simp add: V_simple)
next
  case (20 pattern flags)
  show ?case by (simp add: V_simple)
next
  case (21 quasis es)
  then show ?case by (simp add: V_template)
next
  case (22 n)
  show ?case by (simp add: V_simple)
next
  case 23
  show ?case by (simp add: V_simple)
next
  case (24 operator l r)
  then show ?case by (simp add: V_binary)
next
  case (25 operator l r)
  then show ?case by (simp add: V_logical)
next
  case (26 operator a)
  then show ?case by (simp add: V_unary)
next
  case (27 operator prefix a)
  show ?case
  proof (cases a)
    case (Identifier n)
    then show ?thesis by (simp add: V_update)
  next
    case (MemberExpression ob pr computed)
    have "verdict (compileNode a) (bare a)" using 27(1)[OF MemberExpression] .
    from V_update(2)[OF this V_any V_any]
    show ?thesis by (simp add: MemberExpression)
  qed (simp_all add: V_update(3)[THEN V_true])
next
  case (28 operator l r)
  note r = 28(5)
  show ?case
  proof (cases l)
    case (Identifier n)
    have "verdict (compileNode l) (bare l)" using 28(1) .
    from V_assignment(1)[OF this r]
    show ?thesis by (simp add: Identifier)
  next
    case (MemberExpression ob pr computed)
    have l: "verdict (compileNode l) (bare l)" using 28(1) .
    have ob: "verdict (compileNode ob) (bare ob)" and pr: "verdict (compileNode pr) (bare pr)"
      using 28(2,3,4)[OF MemberExpression] by simp_all
    have "verdict (compileAssignmentExpression operator (compileNode l)
                     (MemberTarget (compileNode l) (compileNode ob) computed (compileNode pr)
                        (nameOf pr))
                     (compileNode r))
            (bare r \<or> bare ob \<or> (computed \<and> bare pr))"
      by (rule V_assignment(2)[OF l r ob pr])
    then have "verdict (compileAssignmentExpression operator (compileNode l)
                     (MemberTarget (compileNode l) (compileNode ob) computed (compileNode pr)
                        (nameOf pr))
                     (compileNode r))
            (bare l \<or> bare r)"
      by (rule V_weaken) (auto simp: MemberExpression)
    then show ?thesis by (simp add: MemberExpression)
  qed (insert V_assignment(3)[OF 28(1) r, THEN V_true], simp_all)
next
  case (29 t c a)
  then show ?case by (simp add: V_conditional)
next
  case (30 es)
  then show ?case by (simp add: V_sequence)
next
  case (31 f args)
  have args: "\<And>e. e \<in> set args \<Longrightarrow> verdict (compileNode e) (bare e)"
    using 31(1) by simp
  show ?case
  proof (cases "\<exists>ob pr computed. f = MemberExpression ob pr computed")
    case True
    then obtain ob pr computed where f: "f = MemberExpression ob pr computed" by blast
    have ob: "verdict (compileNode ob) (bare ob)" and pr: "verdict (compileNode pr) (bare pr)"
      using 31(2-) f by simp_all
    from V_call(1)[of args compileNode bare, OF args ob pr]
    show ?thesis by (simp add: f)
  next
    case False
    have f: "verdict (compileNode f) (bare f)"
    proof (cases f)
      case (MemberExpression ob pr computed)
      then show ?thesis using False by blast
    qed ((rule 31(2-), assumption)+)
    have "(case f of
             MemberExpression ob pr computed \<Rightarrow>
               MemberCallee (compileNode ob) computed (compileNode pr) (nameOf pr)
           | other \<Rightarrow> PlainCallee (compileNode f)) = PlainCallee (compileNode f)"
      using False by - (cases f; simp)
    then show ?thesis
      using V_call(2)[of args compileNode bare, OF args f] by simp
  qed
next
  case (32 f args)
  then show ?case by (simp add: V_new)
next
  case (33 ob pr computed)
  then show ?case by (simp add: V_member)
next
  case (34 elements)
  have "\<And>x. Some x \<in> set elements \<Longrightarrow> verdict (compileNode x) (bare x)"
    using 34 by fastforce
  then show ?case by (simp add: V_array)
next
  case (35 properties)
  have "\<And>key v computed. (key, v, computed) \<in> set properties
             \<Longrightarrow> verdict (compileNode v) (bare v) \<and> verdict (compileNode key) (bare key)"
  proof -
    fix key v computed assume m: "(key, v, computed) \<in> set properties"
    have v: "verdict (compileNode v) (bare v)" using 35(1)[OF m] by simp
    have "verdict (compileNode key) (bare key)"
      using 35(2-)[OF m] by (cases key) (simp_all add: V_simple)
    with v show "verdict (compileNode v) (bare v) \<and> verdict (compileNode key) (bare key)"
      by simp
  qed
  then show ?case by (rule V_object)
next
  case (36 n ps body)
  then show ?case by (simp add: V_functionExpression)
next
  case (37 t)
  show ?case by (simp add: verdict_def steady_def E_fail)
qed

subsection \<open>The compiled program\<close>

lemma compile_noBreakOps:
  assumes "compile ast = Inr bc"
  shows "noBreakOps (instructions bc)"
proof -
  obtain c where run: "inOrder [compileNode ast, addInstruction HALT None] newCompiler = Inr c"
    and bc: "bc = cbytecode c"
    using assms by (auto simp: compile_def simp del: inOrder.simps split: sum.splits)
  have "effect (inOrder [compileNode ast, addInstruction HALT None]) (\<lambda>x. x)"
    by (rule E_rules steady_compileNode[unfolded steady_def])+
  from effectD[OF this run] have "shape c = shape newCompiler" by simp
  then show ?thesis
    using bc by (simp add: shape_def newCompiler_def noBreakOps_def)
qed

lemma compile_bare:
  assumes "bare ast"
  shows "isl (compile ast)"
proof -
  have "idle newCompiler" by (simp add: idle_def newCompiler_def)
  from verdict_fails[OF verdict_compileNode assms this]
  show ?thesis by (auto simp: compile_def andThen_def split: sum.splits)
qed

lemma break_in_context:
  assumes "switchStack c \<noteq> [] \<or> loopStack c \<noteq> []"
  shows "emitsJump BreakStatement c"
  using assms
  by (auto simp: emitsJump_def compileBreakStatement_def atAddress_def andThen_def
        addInstruction_def addBreakTarget_def split: list.splits)

lemma continue_in_context:
  assumes "loopStack c \<noteq> []"
  shows "emitsJump ContinueStatement c"
  using assms
  by (auto simp: emitsJump_def compileContinueStatement_def atAddress_def andThen_def
        addInstruction_def addContinueTarget_def split: list.splits)

text \<open>
  C8. A program that compiles holds no \<open>BREAK\<close> and no \<open>CONTINUE\<close> instruction; a
  \<open>break\<close> compiled while a loop or a switch is open, and a \<open>continue\<close> compiled while a
  loop is open, succeed and append exactly one \<open>JMP\<close>; and the compilation of a program
  with a \<open>break\<close> or \<open>continue\<close> statement that no loop or switch encloses fails.
\<close>

theorem C8_break_continue_are_jumps:
  "(compile ast = Inr bc \<longrightarrow> noBreakOps (instructions bc))
   \<and> (switchStack c \<noteq> [] \<or> loopStack c \<noteq> [] \<longrightarrow> emitsJump BreakStatement c)
   \<and> (loopStack c \<noteq> [] \<longrightarrow> emitsJump ContinueStatement c)
   \<and> (bare ast' \<longrightarrow> isl (compile ast'))"
  using compile_noBreakOps break_in_context continue_in_context compile_bare by blast

text \<open>
  C8 at \<open>while (true) { continue; break; }\<close>, inside one open loop, and at
  \<open>if (x) { break; }\<close>.
\<close>

theorem C8_break_continue_are_jumps_witness:
  "compile loopExample = Inr loopExampleCode
   \<and> noBreakOps (instructions loopExampleCode)
   \<and> loopStack inLoop = [\<lparr> breakTargets = [], continueTargets = [] \<rparr>]
   \<and> emitsJump BreakStatement inLoop
   \<and> emitsJump ContinueStatement inLoop
   \<and> bare bareExample
   \<and> isl (compile bareExample)"
proof -
  have h1: "compile loopExample = Inr loopExampleCode"
    by code_simp
  have h2: "loopStack inLoop = [\<lparr> breakTargets = [], continueTargets = [] \<rparr>]"
    by (simp add: inLoop_def)
  have h3: "bare bareExample"
    by (simp add: bareExample_def)
  show ?thesis
    using C8_break_continue_are_jumps[of loopExample loopExampleCode inLoop bareExample] h1 h2 h3
    by simp
qed

end
